(* ===== verification/Bsp_Prelude.thy ===== *)
theory Bsp_Prelude
  imports Main "HOL-Library.Word" "HOL-Library.State_Monad"
begin

text \<open>
  Shared vocabulary of the development: the machine integer types of the C sources,
  kernel error numbers as values, memory mapped I/O as a recorded history, and a small
  Hoare calculus over the state monad.  A driver routine is a value of type
  \<open>('s, 'a) state\<close>; a routine that can fail returns \<open>errno + 'a\<close>, with \<open>Inl\<close> for the
  negative error return of the C code.
\<close>

unbundle bit_operations_syntax

section \<open>Machine types and error numbers\<close>

type_synonym u8 = "8 word"
type_synonym u16 = "16 word"
type_synonym u32 = "32 word"
type_synonym u64 = "64 word"

datatype errno =
    EPERM | ENOENT | EIO | EAGAIN | ENOMEM | EFAULT | ENODEV | EINVAL | EROFS | ERANGE
  | EBADMSG | EOPNOTSUPP | ETIMEDOUT | Errno int

text \<open>An access that takes the kernel down: a bad pointer, or a buffer overrun.\<close>

datatype fault = Oops

text \<open>\<open>BIT(n)\<close> of the kernel headers, at 32 bits.\<close>

definition BIT :: "nat \<Rightarrow> u32" where
  "BIT n = push_bit n 1"

text \<open>\<open>hweight8\<close>: the number of set bits of a byte.\<close>

definition hweight8 :: "u8 \<Rightarrow> nat" where
  "hweight8 b = length (filter (\<lambda>i. bit b i) [0..<8])"

text \<open>Division and remainder of C: truncation towards zero.\<close>

definition c_div :: "int \<Rightarrow> int \<Rightarrow> int" where
  "c_div a b = sgn a * sgn b * (\<bar>a\<bar> div \<bar>b\<bar>)"

lemma bit_BIT [simp]: "bit (BIT n) i \<longleftrightarrow> i = n \<and> n < 32"
  by (auto simp: BIT_def bit_simps)

lemma hweight8_le: "hweight8 b \<le> 8"
  unfolding hweight8_def by (rule order_trans [OF length_filter_le]) simp

lemma hweight8_eq_0_iff: "hweight8 b = 0 \<longleftrightarrow> b = 0"
proof -
  have "hweight8 b = 0 \<longleftrightarrow> (\<forall>i<8. \<not> bit b i)"
    by (auto simp: hweight8_def filter_empty_conv)
  also have "\<dots> \<longleftrightarrow> b = 0"
    by (auto intro!: bit_word_eqI)
  finally show ?thesis .
qed

lemma c_div_nonneg [simp]: "0 \<le> a \<Longrightarrow> 0 < b \<Longrightarrow> c_div a b = a div b"
  by (cases "a = 0") (auto simp: c_div_def)

text \<open>Words whose value fits into \<open>k\<close> bits.\<close>

lemma bit_word_small: "unat (p :: 'a::len word) < 2 ^ k \<Longrightarrow> k \<le> i \<Longrightarrow> \<not> bit p i"
proof -
  assume a: "unat p < 2 ^ k" "k \<le> i"
  then have "unat p < 2 ^ i"
    by (meson le_less_trans less_le_trans not_le power_increasing one_le_numeral)
  then have "\<not> bit (unat p) i" by (simp add: bit_iff_odd)
  then show ?thesis by (auto simp: bit_unsigned_iff dest: bit_imp_le_length)
qed

lemma drop_bit_small: "unat (p :: 'a::len word) < 2 ^ k \<Longrightarrow> drop_bit k p = 0"
  by (rule bit_word_eqI) (simp add: bit_simps bit_word_small)

lemma and_mask_small: "unat (p :: 'a::len word) < 2 ^ k \<Longrightarrow> p AND mask k = p"
  by (rule bit_word_eqI) (auto simp: bit_simps bit_word_small not_le [symmetric])

lemma unat_push_bit_lt: "unat (w :: 'a::len word) < 2 ^ k \<Longrightarrow> unat (push_bit n w) < 2 ^ (n + k)"
proof -
  assume "unat w < 2 ^ k"
  have "unat (push_bit n w) \<le> unat w * 2 ^ n"
    by (subst unsigned_push_bit_eq) (simp add: take_bit_eq_mod push_bit_eq_mult)
  also have "\<dots> < 2 ^ k * 2 ^ n" using \<open>unat w < 2 ^ k\<close> by simp
  finally show ?thesis by (simp add: power_add mult.commute)
qed
lemma unat_ucast_u8 [simp]: "unat (ucast (a :: u8) :: u32) = unat a"
  using unsigned_less [of a, where 'a = nat] by (simp add: unsigned_ucast_eq take_bit_eq_mod)

lemma ucast_add_down: "ucast (a + b :: u64) = (ucast a + ucast b :: u32)"
proof -
  have "ucast (a + b) = (word_of_int (take_bit 64 (uint a + uint b)) :: u32)"
    by (simp add: ucast_eq uint_word_ariths take_bit_eq_mod)
  also have "\<dots> = word_of_int (uint a + uint b)"
    by (subst word_of_int_eq_iff) simp
  finally show ?thesis by simp
qed

lemma ucast_of_nat_down: "ucast (of_nat n :: u64) = (of_nat n :: u32)"
  by transfer simp

section \<open>Byte buffers\<close>

text \<open>\<open>memcpy (dst + off, bs, length bs)\<close> into a buffer.\<close>

definition buf_write :: "nat \<Rightarrow> 'a list \<Rightarrow> 'a list \<Rightarrow> 'a list" where
  "buf_write off bs b = take off b @ bs @ drop (off + length bs) b"

text \<open>\<open>n\<close> bytes of a buffer from offset \<open>off\<close> on.\<close>

definition slice :: "nat \<Rightarrow> nat \<Rightarrow> 'a list \<Rightarrow> 'a list" where
  "slice off n b = take n (drop off b)"

lemma length_buf_write [simp]:
  "off + length bs \<le> length b \<Longrightarrow> length (buf_write off bs b) = length b"
  by (simp add: buf_write_def)

lemma nth_buf_write:
  "off + length bs \<le> length b \<Longrightarrow> i < length b \<Longrightarrow>
   buf_write off bs b ! i = (if off \<le> i \<and> i < off + length bs then bs ! (i - off) else b ! i)"
  by (auto simp: buf_write_def nth_append min_def)

lemma length_slice [simp]: "off + n \<le> length b \<Longrightarrow> length (slice off n b) = n"
  by (simp add: slice_def)

lemma nth_slice [simp]: "off + n \<le> length b \<Longrightarrow> i < n \<Longrightarrow> slice off n b ! i = b ! (off + i)"
  by (simp add: slice_def)

lemma slice_append: "slice a c b @ slice (a + c) d b = slice a (c + d) b"
  by (simp add: slice_def take_add add.commute)

lemma slice_buf_write_same [simp]:
  "off + length bs \<le> length b \<Longrightarrow> slice off (length bs) (buf_write off bs b) = bs"
  by (simp add: slice_def buf_write_def)

lemma slice_buf_write_eq:
  "off + length bs \<le> length b \<Longrightarrow> n = length bs \<Longrightarrow> slice off n (buf_write off bs b) = bs"
  by simp

lemma slice_buf_write_other:
  assumes "off + length bs \<le> length b" and "a + n \<le> length b"
    and "a + n \<le> off \<or> off + length bs \<le> a"
  shows "slice a n (buf_write off bs b) = slice a n b"
  using assms by (intro nth_equalityI) (auto simp: nth_buf_write)

text \<open>Bytes of the network, most significant first (the CPU is big endian as well).\<close>

definition be16 :: "u8 list \<Rightarrow> nat \<Rightarrow> u16" where
  "be16 b i = push_bit 8 (ucast (b ! i)) OR ucast (b ! (i + 1))"

definition bytes16 :: "u16 \<Rightarrow> u8 list" where
  "bytes16 v = [ucast (drop_bit 8 v), ucast v]"

lemma length_bytes16 [simp]: "length (bytes16 v) = 2"
  by (simp add: bytes16_def)

lemma be16_bytes16 [simp]: "be16 (bytes16 v) 0 = v"
  by (rule bit_word_eqI) (auto simp: be16_def bytes16_def bit_simps not_le)

lemma be16_slice: "i + 2 \<le> length b \<Longrightarrow> be16 (slice i 2 b) 0 = be16 b i"
  by (simp add: be16_def)

text \<open>Several writes to a buffer, one after the other; \<open>None\<close> when one of them is out of range.\<close>

fun pokes :: "(nat \<times> 'a list) list \<Rightarrow> 'a list \<Rightarrow> 'a list option" where
  "pokes [] b = Some b"
| "pokes ((off, bs) # ws) b =
     (if off + length bs \<le> length b then pokes ws (buf_write off bs b) else None)"

lemma pokes_length: "pokes ws b = Some b' \<Longrightarrow> length b' = length b"
  by (induction ws arbitrary: b) (auto split: if_splits)

lemma pokes_append: "pokes (vs @ ws) b = (case pokes vs b of None \<Rightarrow> None | Some b' \<Rightarrow> pokes ws b')"
  by (induction vs arbitrary: b) auto

text \<open>A part of the buffer that none of the writes touches.\<close>

lemma pokes_slice_other:
  assumes "pokes ws b = Some b'" and "a + n \<le> length b"
    and "list_all (\<lambda>(off, bs). a + n \<le> off \<or> off + length bs \<le> a) ws"
  shows "slice a n b' = slice a n b"
  using assms by (induction ws arbitrary: b) (auto simp: slice_buf_write_other split: if_splits)

text \<open>The last write to a part of the buffer decides.\<close>

lemma pokes_slice_same:
  assumes "pokes (vs @ (off, bs) # ws) b = Some b'" and "n = length bs"
    and "list_all (\<lambda>(off', bs'). off + length bs \<le> off' \<or> off' + length bs' \<le> off) ws"
  shows "slice off n b' = bs"
proof -
  obtain b1 where b1: "pokes vs b = Some b1" "pokes ((off, bs) # ws) b1 = Some b'"
    using assms(1) by (auto simp: pokes_append split: option.splits)
  then have "off + length bs \<le> length b1" "pokes ws (buf_write off bs b1) = Some b'"
    by (auto split: if_splits)
  with pokes_slice_other [OF this(2), of off "length bs"] assms(2,3) show ?thesis by simp
qed

text \<open>A sequence of changes, each a group of writes computed from the buffer as it is by then.\<close>

fun edits :: "('a list \<Rightarrow> (nat \<times> 'a list) list) list \<Rightarrow> 'a list \<Rightarrow> 'a list option" where
  "edits [] b = Some b"
| "edits (f # fs) b = (case pokes (f b) b of None \<Rightarrow> None | Some b' \<Rightarrow> edits fs b')"

lemma edits_length: "edits fs b = Some b' \<Longrightarrow> length b' = length b"
  by (induction fs arbitrary: b) (auto split: option.splits dest: pokes_length)

lemma edits_append: "edits (fs @ gs) b = (case edits fs b of None \<Rightarrow> None | Some b' \<Rightarrow> edits gs b')"
  by (induction fs arbitrary: b) (auto split: option.splits)

definition clear_of :: "nat \<Rightarrow> nat \<Rightarrow> ('a list \<Rightarrow> (nat \<times> 'a list) list) \<Rightarrow> nat \<Rightarrow> bool" where
  "clear_of a n f l \<longleftrightarrow> (\<forall>b. length b = l \<longrightarrow> list_all (\<lambda>(off, bs). a + n \<le> off \<or> off + length bs \<le> a) (f b))"

lemma edits_slice_other:
  assumes "edits fs b = Some b'" and "a + n \<le> length b" and "list_all (\<lambda>f. clear_of a n f (length b)) fs"
  shows "slice a n b' = slice a n b"
  using assms
proof (induction fs arbitrary: b)
  case (Cons f fs)
  then obtain b1 where b1: "pokes (f b) b = Some b1" "edits fs b1 = Some b'"
    by (auto split: option.splits)
  with Cons.prems have "slice a n b1 = slice a n b"
    by (auto simp: clear_of_def intro: pokes_slice_other)
  with Cons b1 show ?case by (simp add: pokes_length)
qed simp

text \<open>Changes that stay inside the buffer succeed.\<close>

definition inside :: "nat \<Rightarrow> ('a list \<Rightarrow> (nat \<times> 'a list) list) \<Rightarrow> bool" where
  "inside l f \<longleftrightarrow> (\<forall>b. length b = l \<longrightarrow> list_all (\<lambda>(off, bs). off + length bs \<le> l) (f b))"

lemma pokes_inside: "list_all (\<lambda>(off, bs). off + length bs \<le> length b) ws \<Longrightarrow> \<exists>b'. pokes ws b = Some b'"
  by (induction ws arbitrary: b) auto

lemma edits_inside: "list_all (inside (length b)) fs \<Longrightarrow> \<exists>b'. edits fs b = Some b'"
proof (induction fs arbitrary: b)
  case (Cons f fs)
  then obtain b1 where b1: "pokes (f b) b = Some b1"
    using pokes_inside [of b "f b"] by (auto simp: inside_def)
  with Cons.IH [of b1] Cons.prems show ?case by (simp add: pokes_length)
qed simp

text \<open>The field written by a change that later changes leave alone.\<close>

lemma edits_slice_same:
  assumes "edits (fs @ f # gs) b = Some b'" and "edits fs b = Some b1" and "f b1 = vs @ (off, bs) # ws"
    and "list_all (\<lambda>(off', bs'). off + length bs \<le> off' \<or> off' + length bs' \<le> off) ws"
    and "list_all (\<lambda>g. clear_of off (length bs) g (length b)) gs"
  shows "slice off (length bs) b' = bs"
proof -
  obtain b2 where b2: "pokes (vs @ (off, bs) # ws) b1 = Some b2" "edits gs b2 = Some b'"
    using assms(1-3) by (auto simp: edits_append split: option.splits)
  have l: "length b2 = length b"
    using pokes_length [OF b2(1)] edits_length [OF assms(2)] by simp
  have "off + length bs \<le> length b2"
    using b2(1) pokes_length [OF b2(1)] by (auto simp: pokes_append split: option.splits if_splits dest: pokes_length)
  then have "slice off (length bs) b' = slice off (length bs) b2"
    using edits_slice_other [OF b2(2)] assms(5) l by simp
  with pokes_slice_same [OF b2(1) refl assms(4)] show ?thesis by simp
qed

section \<open>C strings\<close>

definition cstr :: "u8 list \<Rightarrow> u8 list" where
  "cstr b = takeWhile (\<lambda>c. c \<noteq> 0) b"

abbreviation strlen :: "u8 list \<Rightarrow> nat" where
  "strlen b \<equiv> length (cstr b)"

text \<open>\<open>strncat (dst, src, n)\<close> into an array.\<close>

definition strncat :: "u8 list \<Rightarrow> u8 list \<Rightarrow> nat \<Rightarrow> u8 list" where
  "strncat dst src n = buf_write (strlen dst) (take n (cstr src) @ [0]) dst"

lemma cstr_append_NUL [simp]: "0 \<notin> set s \<Longrightarrow> cstr (s @ 0 # r) = s"
  by (auto simp: cstr_def takeWhile_append)

lemma cstr_no_NUL [simp]: "0 \<notin> set (cstr b)"
  by (auto simp: cstr_def dest: set_takeWhileD)

lemma strlen_lt: "0 \<in> set b \<Longrightarrow> strlen b < length b"
  unfolding cstr_def by (induction b) auto

lemma strlen_lt_NUL: "strlen b < length b \<Longrightarrow> 0 \<in> set b"
  unfolding cstr_def by (induction b) (auto split: if_splits)

lemma cstr_split: "0 \<in> set b \<Longrightarrow> \<exists>r. b = cstr b @ 0 # r"
proof (induction b)
  case (Cons x b)
  then show ?case by (cases "x = 0") (auto simp: cstr_def)
qed simp

section \<open>Memory mapped I/O as a history\<close>

text \<open>
  A device is whatever answers register reads.  Its answer may depend on every access made
  so far, so a device is a function from the history of accesses (latest first) and the
  register being read to the value read.  A driver state carries the history; theorems that
  hold for every device function hold for every behaviour of the hardware.
\<close>

datatype 'r io_event = Rd 'r u32 | Wr 'r u32

type_synonym 'r history = "'r io_event list"
type_synonym 'r device = "'r history \<Rightarrow> 'r \<Rightarrow> u32"

fun writes :: "'r history \<Rightarrow> ('r \<times> u32) list" where
  "writes [] = []"
| "writes (Rd r v # es) = writes es"
| "writes (Wr r v # es) = (r, v) # writes es"

text \<open>The value last written to a register.\<close>

definition last_write :: "'r history \<Rightarrow> 'r \<Rightarrow> u32 option" where
  "last_write h r = map_of (writes h) r"

lemma last_write_simps [simp]:
  "last_write [] r = None"
  "last_write (Rd r' v # h) r = last_write h r"
  "last_write (Wr r' v # h) r = (if r' = r then Some v else last_write h r)"
  by (auto simp: last_write_def)

section \<open>A Hoare calculus for the state monad\<close>

definition modify :: "('s \<Rightarrow> 's) \<Rightarrow> ('s, unit) state" where
  "modify f = State (\<lambda>s. ((), f s))"

definition gets :: "('s \<Rightarrow> 'a) \<Rightarrow> ('s, 'a) state" where
  "gets f = State (\<lambda>s. (f s, s))"

text \<open>Sequencing of routines that may fail: \<open>ret = m(); if (ret) return ret; \<dots>\<close>.\<close>

definition bindE :: "('s, 'e + 'a) state \<Rightarrow> ('a \<Rightarrow> ('s, 'e + 'b) state) \<Rightarrow> ('s, 'e + 'b) state" where
  "bindE m f = do { r \<leftarrow> m; case r of Inl e \<Rightarrow> State_Monad.return (Inl e) | Inr x \<Rightarrow> f x }"

lemma run_state_modify [simp]: "run_state (modify f) s = ((), f s)"
  by (simp add: modify_def)

lemma run_state_gets [simp]: "run_state (gets f) s = (f s, s)"
  by (simp add: gets_def)

lemma run_state_if [simp]:
  "run_state (if b then m else n) s = (if b then run_state m s else run_state n s)"
  by simp

lemma run_state_bindE:
  "run_state (bindE m f) s =
     (case run_state m s of (Inl e, s') \<Rightarrow> (Inl e, s') | (Inr x, s') \<Rightarrow> run_state (f x) s')"
  by (auto simp: bindE_def split: prod.splits sum.splits)

definition triple :: "('s \<Rightarrow> bool) \<Rightarrow> ('s, 'a) state \<Rightarrow> ('a \<Rightarrow> 's \<Rightarrow> bool) \<Rightarrow> bool" where
  "triple P m Q \<longleftrightarrow> (\<forall>s. P s \<longrightarrow> (case run_state m s of (a, s') \<Rightarrow> Q a s'))"

text \<open>\<open>keeps I m\<close>: the routine \<open>m\<close> preserves the invariant \<open>I\<close>, on every path.\<close>

definition keeps :: "('s \<Rightarrow> bool) \<Rightarrow> ('s, 'a) state \<Rightarrow> bool" where
  "keeps I m \<longleftrightarrow> triple I m (\<lambda>_. I)"

named_theorems keeps_rules \<open>compositional rules for invariants\<close>

lemma tripleI: "(\<And>s a s'. P s \<Longrightarrow> run_state m s = (a, s') \<Longrightarrow> Q a s') \<Longrightarrow> triple P m Q"
  by (auto simp: triple_def split: prod.splits)

lemma tripleD: "triple P m Q \<Longrightarrow> P s \<Longrightarrow> run_state m s = (a, s') \<Longrightarrow> Q a s'"
  by (auto simp: triple_def)

lemma triple_bind:
  "triple P m R \<Longrightarrow> (\<And>x. triple (R x) (f x) Q) \<Longrightarrow> triple P (m \<bind> f) Q"
  by (fastforce simp: triple_def split: prod.splits)

lemma triple_weaken:
  "triple P' m Q' \<Longrightarrow> (\<And>s. P s \<Longrightarrow> P' s) \<Longrightarrow> (\<And>a s. Q' a s \<Longrightarrow> Q a s) \<Longrightarrow> triple P m Q"
  by (fastforce simp: triple_def split: prod.splits)

lemma keepsD: "keeps I m \<Longrightarrow> run_state m s = (a, s') \<Longrightarrow> I s \<Longrightarrow> I s'"
  by (auto simp: keeps_def dest: tripleD)

lemma keepsD_snd: "keeps I m \<Longrightarrow> I s \<Longrightarrow> I (snd (run_state m s))"
  by (cases "run_state m s") (auto dest: keepsD)

lemma keepsI: "(\<And>s a s'. run_state m s = (a, s') \<Longrightarrow> I s \<Longrightarrow> I s') \<Longrightarrow> keeps I m"
  unfolding keeps_def by (rule tripleI) blast

lemma keeps_return [keeps_rules]: "keeps I (State_Monad.return x)"
  by (rule keepsI) simp

lemma keeps_gets [keeps_rules]: "keeps I (gets f)"
  by (rule keepsI) simp

lemma keeps_get [keeps_rules]: "keeps I State_Monad.get"
  by (rule keepsI) simp

lemma keeps_modify [keeps_rules]: "(\<And>s. I s \<Longrightarrow> I (f s)) \<Longrightarrow> keeps I (modify f)"
  by (rule keepsI) auto

lemma keeps_bind [keeps_rules]:
  "keeps I m \<Longrightarrow> (\<And>x. keeps I (f x)) \<Longrightarrow> keeps I (m \<bind> f)"
  unfolding keeps_def by (rule triple_bind)

lemma keeps_bindE [keeps_rules]:
  "keeps I m \<Longrightarrow> (\<And>x. keeps I (f x)) \<Longrightarrow> keeps I (bindE m f)"
  unfolding bindE_def by (intro keeps_bind) (auto intro: keeps_return split: sum.splits)

lemma keeps_if [keeps_rules]:
  "(b \<Longrightarrow> keeps I m) \<Longrightarrow> (\<not> b \<Longrightarrow> keeps I n) \<Longrightarrow> keeps I (if b then m else n)"
  by simp

lemma keeps_case_sum [keeps_rules]:
  "(\<And>e. r = Inl e \<Longrightarrow> keeps I (f e)) \<Longrightarrow> (\<And>x. r = Inr x \<Longrightarrow> keeps I (g x)) \<Longrightarrow>
   keeps I (case r of Inl e \<Rightarrow> f e | Inr x \<Rightarrow> g x)"
  by (cases r) auto

lemma keeps_case_option [keeps_rules]:
  "(r = None \<Longrightarrow> keeps I f) \<Longrightarrow> (\<And>x. r = Some x \<Longrightarrow> keeps I (g x)) \<Longrightarrow>
   keeps I (case r of None \<Rightarrow> f | Some x \<Rightarrow> g x)"
  by (cases r) auto

lemma keeps_case_prod [keeps_rules]:
  "(\<And>a b. p = (a, b) \<Longrightarrow> keeps I (f a b)) \<Longrightarrow> keeps I (case p of (a, b) \<Rightarrow> f a b)"
  by (cases p) auto

text \<open>A routine establishes its postcondition in its last steps, whatever came before.\<close>

lemma triple_skip: "(\<And>x. triple (\<lambda>_. True) (f x) Q) \<Longrightarrow> triple P (m \<bind> f) Q"
  by (rule triple_bind [where R = "\<lambda>_ _. True"]) (auto simp: triple_def)

lemma triple_keeps_bind:
  "keeps P m \<Longrightarrow> (\<And>x. triple P (f x) Q) \<Longrightarrow> triple P (m \<bind> f) Q"
  unfolding keeps_def by (rule triple_bind)

lemma triple_return: "(\<And>s. P s \<Longrightarrow> Q x s) \<Longrightarrow> triple P (State_Monad.return x) Q"
  by (simp add: triple_def)

lemma triple_post_mono: "triple P m Q' \<Longrightarrow> (\<And>a s. Q' a s \<Longrightarrow> Q a s) \<Longrightarrow> triple P m Q"
  by (erule triple_weaken)

lemma keeps_conj:
  "keeps I m \<Longrightarrow> keeps J m \<Longrightarrow> keeps (\<lambda>s. I s \<and> J s) m"
  by (rule keepsI) (auto dest: keepsD)

section \<open>Register access\<close>

text \<open>
  The part of a driver state that records register accesses.  Driver records extend it.
\<close>

record 'r bus =
  io :: "'r history"

definition reg_rd :: "'r device \<Rightarrow> 'r \<Rightarrow> (('r, 'z) bus_scheme, u32) state" where
  "reg_rd d r = do {
     h \<leftarrow> gets io;
     let v = d h r;
     modify (\<lambda>s. s\<lparr>io := Rd r v # io s\<rparr>);
     State_Monad.return v }"

definition reg_wr :: "'r \<Rightarrow> u32 \<Rightarrow> (('r, 'z) bus_scheme, unit) state" where
  "reg_wr r v = modify (\<lambda>s. s\<lparr>io := Wr r v # io s\<rparr>)"

text \<open>A read-modify-write, \<open>REG32(r) = f(REG32(r))\<close>.\<close>

definition reg_rmw :: "'r device \<Rightarrow> 'r \<Rightarrow> (u32 \<Rightarrow> u32) \<Rightarrow> (('r, 'z) bus_scheme, unit) state" where
  "reg_rmw d r f = do { v \<leftarrow> reg_rd d r; reg_wr r (f v) }"

lemma run_state_reg_rd [simp]:
  "run_state (reg_rd d r) s = (d (io s) r, s\<lparr>io := Rd r (d (io s) r) # io s\<rparr>)"
  by (simp add: reg_rd_def Let_def)

lemma run_state_reg_wr [simp]: "run_state (reg_wr r v) s = ((), s\<lparr>io := Wr r v # io s\<rparr>)"
  by (simp add: reg_wr_def)

lemma run_state_reg_rmw [simp]:
  "run_state (reg_rmw d r f) s =
     ((), s\<lparr>io := Wr r (f (d (io s) r)) # Rd r (d (io s) r) # io s\<rparr>)"
  by (simp add: reg_rmw_def)

lemma keeps_reg_rd [keeps_rules]:
  "(\<And>s v. I s \<Longrightarrow> I (s\<lparr>io := Rd r v # io s\<rparr>)) \<Longrightarrow> keeps I (reg_rd d r)"
  by (rule keepsI) auto

lemma keeps_reg_wr [keeps_rules]:
  "(\<And>s. I s \<Longrightarrow> I (s\<lparr>io := Wr r v # io s\<rparr>)) \<Longrightarrow> keeps I (reg_wr r v)"
  by (rule keepsI) auto

text \<open>A register that reads back what was last written to it.\<close>

definition holds_value :: "'r device \<Rightarrow> 'r \<Rightarrow> bool" where
  "holds_value d r \<longleftrightarrow> (\<forall>h v. last_write h r = Some v \<longrightarrow> d h r = v)"

lemma holds_valueD: "holds_value d r \<Longrightarrow> last_write h r = Some v \<Longrightarrow> d h r = v"
  by (simp add: holds_value_def)

section \<open>Polling with a deadline\<close>

text \<open>
  The kernel macro \<open>read_poll_timeout (op, val, cond, \<dots>)\<close> reads with \<open>op\<close> until the
  condition holds or the deadline passes, and then reads once more.  How many reads fit
  before the deadline depends on the clock, so it is a parameter (\<open>n\<close>).  The result is the
  last value read, which the macro leaves in \<open>val\<close>, and whether the condition held for it.
\<close>

fun read_poll_timeout :: "nat \<Rightarrow> ('s, u32) state \<Rightarrow> (u32 \<Rightarrow> bool) \<Rightarrow> ('s, u32 \<times> bool) state" where
  "read_poll_timeout 0 op c = do { v \<leftarrow> op; State_Monad.return (v, c v) }"
| "read_poll_timeout (Suc n) op c =
     do { v \<leftarrow> op; if c v then State_Monad.return (v, True) else read_poll_timeout n op c }"

lemma keeps_read_poll_timeout [keeps_rules]:
  "keeps I op \<Longrightarrow> keeps I (read_poll_timeout n op c)"
  by (induction n) (auto intro!: keeps_rules)

lemma read_poll_timeout_cond:
  "run_state (read_poll_timeout n op c) s = ((v, ok), s') \<Longrightarrow> ok = c v"
  by (induction n arbitrary: s) (auto split: prod.splits if_splits)

section \<open>Sums over lists\<close>

text \<open>Changing the summand of one element.\<close>

lemma sum_list_upd:
  "distinct ds \<Longrightarrow> d \<in> set ds \<Longrightarrow> (\<And>x. x \<noteq> d \<Longrightarrow> g x = f x) \<Longrightarrow> (\<Sum>x\<leftarrow>ds. g x) + f d = (\<Sum>x\<leftarrow>ds. f x) + (g d :: nat)"
proof (induction ds)
  case (Cons a ds)
  show ?case
  proof (cases "a = d")
    case True
    then have "(\<Sum>x\<leftarrow>ds. g x) = (\<Sum>x\<leftarrow>ds. f x)"
      using Cons.prems by (intro arg_cong [of _ _ sum_list] map_cong refl) (metis distinct.simps(2))
    then show ?thesis using True by simp
  next
    case False
    then show ?thesis using Cons by auto
  qed
qed simp

section \<open>Systems driven by events\<close>

text \<open>
  A component that reacts to a sequence of events: a step function folded over the events.
  A property that holds initially and is kept by each admissible event holds after every
  run of admissible events, and at every point of it.
\<close>

locale event_system =
  fixes step :: "'e \<Rightarrow> 's \<Rightarrow> 's"
    and ok :: "'e \<Rightarrow> bool"
    and inv :: "'s \<Rightarrow> bool"
  assumes step_inv: "ok e \<Longrightarrow> inv s \<Longrightarrow> inv (step e s)"
begin

lemma run_inv: "list_all ok es \<Longrightarrow> inv s \<Longrightarrow> inv (fold step es s)"
  by (induction es arbitrary: s) (auto intro: step_inv)

lemma run_prefix_inv: "list_all ok es \<Longrightarrow> inv s \<Longrightarrow> inv (fold step (take n es) s)"
  by (rule run_inv) (auto simp: list_all_iff dest: in_set_takeD)

end

end
