(* ===== verification/Spinand.thy ===== *)
theory Spinand
  imports Bsp_Prelude
begin

text \<open>
  The read-only SPI-NAND driver, \<open>drivers/mtd/rtl9607c-spinand-ro.c\<close>: the serial
  controller (\<open>sn_*\<close>), the BCH engine (\<open>bch_decode\<close>), the MTD entry points
  (\<open>nand_read_oob\<close>, \<open>nand_isbad\<close>, \<open>nand_erase_denied\<close>, the OOB layout) and the probe.

  The hardware is a parameter: \<open>dev\<close> answers register reads as a function of the history
  of accesses, \<open>bch_engine\<close> is what the BCH engine writes into the DMA buffer after it has
  been triggered, \<open>polls\<close> is the number of status reads that fit into the 2 ms deadline and
  \<open>dma\<close> the bus address of the buffer.  The driver mutex serialises the entry points, so
  each of them is one atomic routine.  Delays and log messages are not modelled.
\<close>

section \<open>State and registers\<close>

abbreviation PAGE_BYTES :: nat where "PAGE_BYTES \<equiv> 2048"
abbreviation OOB_BYTES :: nat where "OOB_BYTES \<equiv> 64"
abbreviation BLOCK_BYTES :: nat where "BLOCK_BYTES \<equiv> 131072"
abbreviation CHIP_BYTES :: nat where "CHIP_BYTES \<equiv> 134217728"
abbreviation SCRATCH_OFF :: nat where "SCRATCH_OFF \<equiv> 2176"
abbreviation BUF_BYTES :: nat where "BUF_BYTES \<equiv> 4096"

datatype nreg =
    SN_CFG | SN_CS | SN_WCMD | SN_RCMD | SN_RDATA | SN_WDATA | SN_STATUS
  | ECC_CFG | ECC_TRIG | ECC_DATA | ECC_TAG | ECC_STATUS | ECC_IRQ

record nand_env =
  dev :: "nreg device"
  bch_engine :: "nreg history \<Rightarrow> u8 list \<Rightarrow> u8 list"
  polls :: nat
  dma :: u32

record phoebus_nand =
  trace :: "nreg history"
  buf :: "u8 list"
  dma_live :: bool
  pages :: u64
  raw_pages :: u64
  corrected :: u64
  failed :: u64
  timeouts :: u64
  bad_queries :: u64
  marker_reads :: u64
  bch_sectors :: u64
  last_page :: u32
  last_ecc :: u32
  last_ecc_page :: u32
  poisoned :: bool
  ecc_corrected :: u32
  ecc_failed :: u32

type_synonym 'a nand_m = "(phoebus_nand, 'a) state"

definition nand_zero :: "nreg history \<Rightarrow> phoebus_nand" where
  "nand_zero h = \<lparr>trace = h, buf = [], dma_live = False, pages = 0, raw_pages = 0,
     corrected = 0, failed = 0, timeouts = 0, bad_queries = 0, marker_reads = 0,
     bch_sectors = 0, last_page = 0, last_ecc = 0, last_ecc_page = 0, poisoned = False,
     ecc_corrected = 0, ecc_failed = 0\<rparr>"

record mtd_partition =
  part_name :: string
  part_offset :: nat
  part_size :: nat
  part_writeable_masked :: bool

definition stock_parts :: "mtd_partition list" where
  "stock_parts =
    [\<lparr>part_name = ''boot'', part_offset = 0, part_size = 0x100000, part_writeable_masked = True\<rparr>,
     \<lparr>part_name = ''env'', part_offset = 0x100000, part_size = 0x100000, part_writeable_masked = True\<rparr>,
     \<lparr>part_name = ''ubi_device'', part_offset = 0x200000, part_size = 0x3300000, part_writeable_masked = True\<rparr>,
     \<lparr>part_name = ''ubi_device_1'', part_offset = 0x3500000, part_size = 0x3300000, part_writeable_masked = True\<rparr>,
     \<lparr>part_name = ''userconfig'', part_offset = 0x6800000, part_size = 0x800000, part_writeable_masked = True\<rparr>,
     \<lparr>part_name = ''tp_data'', part_offset = 0x7000000, part_size = 0x800000, part_writeable_masked = True\<rparr>,
     \<lparr>part_name = ''paniclog'', part_offset = 0x7800000, part_size = 0x400000, part_writeable_masked = True\<rparr>,
     \<lparr>part_name = ''defaults'', part_offset = 0x7c00000, part_size = 0x400000, part_writeable_masked = True\<rparr>]"

section \<open>The serial controller\<close>

definition rd :: "nand_env \<Rightarrow> nreg \<Rightarrow> u32 nand_m" where
  "rd e r = do {
     h \<leftarrow> gets trace;
     let v = dev e h r;
     modify (\<lambda>n. n\<lparr>trace := Rd r v # trace n\<rparr>);
     State_Monad.return v }"

definition wr :: "nreg \<Rightarrow> u32 \<Rightarrow> unit nand_m" where
  "wr r v = modify (\<lambda>n. n\<lparr>trace := Wr r v # trace n\<rparr>)"

definition poison :: "phoebus_nand \<Rightarrow> phoebus_nand" where
  "poison n = n\<lparr>timeouts := timeouts n + 1, poisoned := True\<rparr>"

definition sn_wait :: "nand_env \<Rightarrow> (errno + unit) nand_m" where
  "sn_wait e = do {
     (v, ok) \<leftarrow> read_poll_timeout (polls e) (rd e SN_STATUS) (\<lambda>v. v AND BIT 3 = 0);
     if ok then State_Monad.return (Inr ())
     else do { modify poison; State_Monad.return (Inl ETIMEDOUT) } }"

definition sn_tx :: "nand_env \<Rightarrow> u32 \<Rightarrow> nat \<Rightarrow> (errno + unit) nand_m" where
  "sn_tx e w n = bindE (sn_wait e) (\<lambda>_. do {
     wr SN_WCMD (of_nat n - 1);
     wr SN_WDATA w;
     sn_wait e })"

text \<open>
  \<open>sn_rx\<close> returns its result together with the bytes it has stored so far: the C routine
  stores into the caller's buffer chunk by chunk, and keeps what it stored when it fails.
\<close>

fun sn_rx :: "nand_env \<Rightarrow> nat \<Rightarrow> ((errno + unit) \<times> u8 list) nand_m" where
  "sn_rx e n =
     (if n = 0 then State_Monad.return (Inr (), [])
      else let chunk = min n 4 in do {
        wr SN_RCMD (of_nat chunk - 1);
        ret \<leftarrow> sn_wait e;
        case ret of
          Inl err \<Rightarrow> State_Monad.return (Inl err, [])
        | Inr _ \<Rightarrow> do {
            w \<leftarrow> rd e SN_RDATA;
            (ret', bs) \<leftarrow> sn_rx e (n - chunk);
            State_Monad.return (ret', map (\<lambda>i. ucast (drop_bit (24 - i * 8) w)) [0..<chunk] @ bs) } })"

declare sn_rx.simps [simp del]

definition sn_feature :: "nand_env \<Rightarrow> u8 \<Rightarrow> (errno + u8) nand_m" where
  "sn_feature e addr = do {
     wr SN_CS 0;
     ret \<leftarrow> bindE (sn_tx e (push_bit 24 0x0f OR push_bit 16 (ucast addr)) 2) (\<lambda>_. do {
       (r, bs) \<leftarrow> sn_rx e 1;
       State_Monad.return (case r of Inl err \<Rightarrow> Inl err
                                   | Inr _ \<Rightarrow> Inr (case bs of [] \<Rightarrow> 0 | b # _ \<Rightarrow> b)) });
     wr SN_CS 1;
     State_Monad.return ret }"

fun sn_ready :: "nand_env \<Rightarrow> nat \<Rightarrow> (errno + unit) nand_m" where
  "sn_ready e 0 = do { modify poison; State_Monad.return (Inl ETIMEDOUT) }"
| "sn_ready e (Suc tries) = bindE (sn_feature e 0xc0) (\<lambda>status.
     if status AND 1 = 0 then State_Monad.return (Inr ()) else sn_ready e tries)"

definition sn_load_page :: "nand_env \<Rightarrow> u32 \<Rightarrow> (errno + unit) nand_m" where
  "sn_load_page e page = do {
     p \<leftarrow> gets poisoned;
     if p then State_Monad.return (Inl EIO)
     else do {
       modify (\<lambda>n. n\<lparr>last_page := page\<rparr>);
       wr SN_CS 0;
       ret \<leftarrow> sn_tx e (push_bit 24 0x13 OR page) 4;
       wr SN_CS 1;
       bindE (State_Monad.return ret) (\<lambda>_. sn_ready e 200) } }"

definition sn_cache_read :: "nand_env \<Rightarrow> u32 \<Rightarrow> nat \<Rightarrow> nat \<Rightarrow> (errno + unit) nand_m" where
  "sn_cache_read e column off n = do {
     wr SN_CS 0;
     ret \<leftarrow> bindE (sn_tx e (0x03000000 OR push_bit 8 column) 4) (\<lambda>_. do {
       (r, bs) \<leftarrow> sn_rx e n;
       modify (\<lambda>n. n\<lparr>buf := buf_write off bs (buf n)\<rparr>);
       State_Monad.return r });
     wr SN_CS 1;
     State_Monad.return ret }"

definition sn_page :: "nand_env \<Rightarrow> u32 \<Rightarrow> (errno + unit) nand_m" where
  "sn_page e page =
     bindE (sn_load_page e page) (\<lambda>_.
     bindE (sn_cache_read e 0 0 (PAGE_BYTES + OOB_BYTES)) (\<lambda>_. do {
       modify (\<lambda>n. n\<lparr>pages := pages n + 1\<rparr>);
       State_Monad.return (Inr ()) }))"

section \<open>The BCH engine\<close>

definition erased_sector :: "u8 list \<Rightarrow> u8 list \<Rightarrow> int" where
  "erased_sector data tag =
     (let flips = sum_list (map (\<lambda>b. hweight8 (NOT b)) (take 512 data))
                + sum_list (map (\<lambda>b. hweight8 (NOT b)) (take 16 tag))
      in if flips \<le> 4 then int flips else - 1)"

definition copy_tag_out :: "nat \<Rightarrow> u8 list \<Rightarrow> u8 list" where
  "copy_tag_out sector b =
     (let b1 = buf_write SCRATCH_OFF (slice (PAGE_BYTES + sector * 6) 6 b) b
      in buf_write (SCRATCH_OFF + 6) (slice (PAGE_BYTES + 24 + sector * 10) 10 b1) b1)"

definition fill_erased :: "nat \<Rightarrow> u8 list \<Rightarrow> u8 list" where
  "fill_erased sector b =
     buf_write (PAGE_BYTES + 24 + sector * 10) (replicate 10 0xff)
       (buf_write (PAGE_BYTES + sector * 6) (replicate 6 0xff)
         (buf_write (sector * 512) (replicate 512 0xff) b))"

definition count_corrected :: "nat \<Rightarrow> phoebus_nand \<Rightarrow> phoebus_nand" where
  "count_corrected k n = n\<lparr>ecc_corrected := ecc_corrected n + of_nat k,
                           corrected := corrected n + of_nat k\<rparr>"

definition count_failed :: "phoebus_nand \<Rightarrow> phoebus_nand" where
  "count_failed n = n\<lparr>ecc_failed := ecc_failed n + 1, failed := failed n + 1\<rparr>"

text \<open>
  One turn of the sector loop: \<open>Inl\<close> is the early return on a timeout, \<open>Inr None\<close> an
  uncorrectable sector (\<open>ecc_error = true; continue\<close>), \<open>Inr (Some k)\<close> a sector with \<open>k\<close>
  corrected bits.
\<close>

definition bch_sector :: "nand_env \<Rightarrow> nat \<Rightarrow> (errno + nat option) nand_m" where
  "bch_sector e sector = do {
     modify (\<lambda>n. n\<lparr>buf := copy_tag_out sector (buf n)\<rparr>);
     ret \<leftarrow> gets (\<lambda>n. erased_sector (slice (sector * 512) 512 (buf n)) (slice SCRATCH_OFF 16 (buf n)));
     if 0 \<le> ret then do {
       modify (\<lambda>n. count_corrected (nat ret) (n\<lparr>buf := fill_erased sector (buf n)\<rparr>));
       State_Monad.return (Inr (Some (nat ret))) }
     else do {
       cfg \<leftarrow> rd e ECC_CFG;
       wr ECC_CFG ((cfg AND NOT (BIT 29 OR BIT 28)) OR BIT 20);
       wr ECC_IRQ (BIT 0);
       wr ECC_TAG (dma e + of_nat SCRATCH_OFF);
       wr ECC_DATA (dma e + of_nat (sector * 512));
       modify (\<lambda>n. n\<lparr>bch_sectors := bch_sectors n + 1, last_ecc_page := last_page n\<rparr>);
       wr ECC_TRIG 0;
       modify (\<lambda>n. n\<lparr>buf := bch_engine e (trace n) (buf n)\<rparr>);
       (status, ok) \<leftarrow> read_poll_timeout (polls e) (rd e ECC_STATUS) (\<lambda>v. v AND 3 = 0);
       modify (\<lambda>n. n\<lparr>last_ecc := status\<rparr>);
       if \<not> ok then do { modify poison; State_Monad.return (Inl ETIMEDOUT) }
       else if status AND BIT 8 \<noteq> 0 then do { modify count_failed; State_Monad.return (Inr None) }
       else let bits = unat (drop_bit 12 status AND 0xff) in
         if 6 < bits then do { modify count_failed; State_Monad.return (Inr None) }
         else do {
           modify (\<lambda>n. count_corrected bits
             (n\<lparr>buf := buf_write (PAGE_BYTES + sector * 6) (slice SCRATCH_OFF 6 (buf n)) (buf n)\<rparr>));
           State_Monad.return (Inr (Some bits)) } } }"

fun bch_loop :: "nand_env \<Rightarrow> nat list \<Rightarrow> nat \<Rightarrow> bool \<Rightarrow> (errno + nat) nand_m" where
  "bch_loop e [] max_bits ecc_error =
     State_Monad.return (if ecc_error then Inl EBADMSG else Inr max_bits)"
| "bch_loop e (sector # sectors) max_bits ecc_error = bindE (bch_sector e sector) (\<lambda>r.
     case r of None \<Rightarrow> bch_loop e sectors max_bits True
             | Some bits \<Rightarrow> bch_loop e sectors (max max_bits bits) ecc_error)"

definition bch_decode :: "nand_env \<Rightarrow> (errno + nat) nand_m" where
  "bch_decode e = bch_loop e [0..<4] 0 False"


section \<open>MTD entry points\<close>

datatype oob_mode = MTD_OPS_PLACE_OOB | MTD_OPS_AUTO_OOB | MTD_OPS_RAW | MTD_OPS_UNKNOWN nat

text \<open>
  \<open>struct mtd_oob_ops\<close>; \<open>datbuf\<close> and \<open>oobbuf\<close> are the caller's buffers.
\<close>

record mtd_oob_ops =
  ops_mode :: oob_mode
  ops_len :: nat
  ops_ooblen :: nat
  ops_ooboffs :: nat
  datbuf :: "u8 list"
  oobbuf :: "u8 list"
  retlen :: nat
  oobretlen :: nat

definition read_one :: "nand_env \<Rightarrow> oob_mode \<Rightarrow> u32 \<Rightarrow> (errno + nat) nand_m" where
  "read_one e mode page = bindE (sn_page e page) (\<lambda>_.
     if mode \<noteq> MTD_OPS_RAW then bch_decode e
     else do { modify (\<lambda>n. n\<lparr>raw_pages := raw_pages n + 1\<rparr>); State_Monad.return (Inr 0) })"

definition take_data :: "u8 list \<Rightarrow> nat \<Rightarrow> nat \<Rightarrow> mtd_oob_ops \<Rightarrow> mtd_oob_ops" where
  "take_data b off chunk ops =
     (if chunk = 0 then ops
      else ops\<lparr>datbuf := buf_write (retlen ops) (slice off chunk b) (datbuf ops),
               retlen := retlen ops + chunk\<rparr>)"

definition take_oob :: "u8 list \<Rightarrow> nat \<Rightarrow> nat \<Rightarrow> mtd_oob_ops \<Rightarrow> mtd_oob_ops" where
  "take_oob b oob_off chunk ops =
     (if chunk = 0 then ops
      else ops\<lparr>oobbuf := buf_write (oobretlen ops)
                 (slice (PAGE_BYTES + oob_off + (if ops_mode ops = MTD_OPS_AUTO_OOB then 2 else 0)) chunk b)
                 (oobbuf ops),
               oobretlen := oobretlen ops + chunk\<rparr>)"

function nand_read_loop :: "nand_env \<Rightarrow> nat \<Rightarrow> nat \<Rightarrow> nat \<Rightarrow> nat \<Rightarrow> nat \<Rightarrow> u32 \<Rightarrow> nat \<Rightarrow> bool
    \<Rightarrow> mtd_oob_ops \<Rightarrow> ((errno + nat) \<times> mtd_oob_ops) nand_m" where
  "nand_read_loop e avail data_left oob_left off oob_off page max_bits ecc_error ops =
     (if data_left = 0 \<and> oob_left = 0 then
        State_Monad.return (if ecc_error then Inl EBADMSG else Inr max_bits, ops)
      else if 65536 \<le> page then State_Monad.return (Inl EINVAL, ops)
      else do {
        ret \<leftarrow> read_one e (ops_mode ops) page;
        let ecc_error' = (ecc_error \<or> ret = Inl EBADMSG);
        let ret' = (if ret = Inl EBADMSG then Inr 0 else ret);
        case ret' of
          Inl err \<Rightarrow> State_Monad.return (Inl err, ops)
        | Inr bits \<Rightarrow> do {
            b \<leftarrow> gets buf;
            let chunk = min data_left (PAGE_BYTES - off);
            let oob_chunk = min oob_left (avail - oob_off);
            nand_read_loop e avail (data_left - chunk) (oob_left - oob_chunk) 0 0 (page + 1)
              (max max_bits bits) ecc_error' (take_oob b oob_off oob_chunk (take_data b off chunk ops)) } })"
  by pat_completeness auto

lemma page_step_decreases: "\<not> 65536 \<le> (page :: u32) \<Longrightarrow> 65536 - unat (page + 1) < 65536 - unat page"
proof -
  assume "\<not> 65536 \<le> page"
  then have "unat page < 65536"
    by (simp add: word_le_nat_alt not_le)
  moreover from this have "unat (page + 1) = unat page + 1"
    by (simp add: unat_word_ariths)
  ultimately show ?thesis by simp
qed

termination nand_read_loop
  by (relation "measure (\<lambda>(e, avail, data_left, oob_left, off, oob_off, page, max_bits, ecc_error, ops).
        65536 - unat page)") (auto simp: page_step_decreases)

declare nand_read_loop.simps [simp del]

definition nand_read_oob :: "nand_env \<Rightarrow> nat \<Rightarrow> mtd_oob_ops \<Rightarrow> ((errno + nat) \<times> mtd_oob_ops) nand_m" where
  "nand_read_oob e from ops =
     (let avail = (if ops_mode ops = MTD_OPS_AUTO_OOB then 20 else OOB_BYTES) in
      if ops_mode ops \<noteq> MTD_OPS_RAW \<and> ops_mode ops \<noteq> MTD_OPS_PLACE_OOB \<and> ops_mode ops \<noteq> MTD_OPS_AUTO_OOB
      then State_Monad.return (Inl EINVAL, ops)
      else if ops_ooblen ops \<noteq> 0 \<and> avail \<le> ops_ooboffs ops then State_Monad.return (Inl EINVAL, ops)
      else nand_read_loop e avail (ops_len ops) (ops_ooblen ops) (from mod PAGE_BYTES) (ops_ooboffs ops)
             (of_nat (from div PAGE_BYTES)) 0 False (ops\<lparr>retlen := 0, oobretlen := 0\<rparr>))"

definition nand_erase_denied :: "(errno + unit) nand_m" where
  "nand_erase_denied = State_Monad.return (Inl EROFS)"

definition marker_bad :: "phoebus_nand \<Rightarrow> bool" where
  "marker_bad n \<longleftrightarrow> buf n ! PAGE_BYTES \<noteq> 0xff"

definition nand_isbad :: "nand_env \<Rightarrow> nat \<Rightarrow> (errno + bool) nand_m" where
  "nand_isbad e pos = do {
     let page = of_nat (pos div BLOCK_BYTES) * 64;
     modify (\<lambda>n. n\<lparr>bad_queries := bad_queries n + 1\<rparr>);
     bindE (sn_load_page e page) (\<lambda>_.
     bindE (sn_cache_read e (of_nat PAGE_BYTES) PAGE_BYTES 1) (\<lambda>_. do {
       modify (\<lambda>n. n\<lparr>marker_reads := marker_reads n + 1\<rparr>);
       bad \<leftarrow> gets marker_bad;
       if \<not> bad then State_Monad.return (Inr False)
       else bindE (sn_page e page) (\<lambda>_. do {
         r \<leftarrow> bch_decode e;
         case r of
           Inl err \<Rightarrow> State_Monad.return (if err = EBADMSG then Inr True else Inl err)
         | Inr _ \<Rightarrow> do { b \<leftarrow> gets marker_bad; State_Monad.return (Inr b) } }) })) }"

record mtd_oob_region =
  region_offset :: nat
  region_length :: nat

definition oob_free :: "nat \<Rightarrow> errno + mtd_oob_region" where
  "oob_free section = (if section \<noteq> 0 then Inl ERANGE else Inr \<lparr>region_offset = 2, region_length = 20\<rparr>)"

definition oob_ecc :: "nat \<Rightarrow> errno + mtd_oob_region" where
  "oob_ecc section = (if section \<noteq> 0 then Inl ERANGE else Inr \<lparr>region_offset = 24, region_length = 40\<rparr>)"

text \<open>The values \<open>telemetry_show\<close> prints, with their keys, in order.\<close>

definition telemetry_show :: "phoebus_nand \<Rightarrow> (string \<times> nat) list" where
  "telemetry_show n =
     [(''readonly'', 1), (''physical_offsets'', 1), (''skip_bbt'', 0), (''pages'', unat (pages n)),
      (''raw_pages'', unat (raw_pages n)), (''bch_sectors'', unat (bch_sectors n)),
      (''corrected'', unat (corrected n)), (''failed'', unat (failed n)),
      (''timeouts'', unat (timeouts n)), (''bad_queries'', unat (bad_queries n)),
      (''marker_reads'', unat (marker_reads n)), (''poisoned'', (if poisoned n then 1 else 0)),
      (''last_page'', unat (last_page n)), (''last_ecc_page'', unat (last_ecc_page n)),
      (''last_ecc'', unat (last_ecc n))]"

section \<open>Probe\<close>

text \<open>
  What the probe obtains from the kernel: the results of the allocations and mappings, and
  \<open>mtd_device_register\<close>, which calls back into the driver while it registers.
\<close>

record probe_env =
  kzalloc_ok :: bool
  sn_map :: "errno option"
  ecc_map :: "errno option"
  dma_mask :: "errno option"
  dma_buf :: "u8 list option"
  mtd_device_register :: "(errno + unit) nand_m"

definition phoebus_nand_probe :: "nand_env \<Rightarrow> probe_env \<Rightarrow> (errno + unit) nand_m" where
  "phoebus_nand_probe e k =
     (if \<not> kzalloc_ok k then State_Monad.return (Inl ENOMEM) else
      case sn_map k of Some err \<Rightarrow> State_Monad.return (Inl err) | None \<Rightarrow>
      case ecc_map k of Some err \<Rightarrow> State_Monad.return (Inl err) | None \<Rightarrow> do {
        modify (\<lambda>n. nand_zero (trace n));
        cfg \<leftarrow> rd e SN_CFG;
        wr SN_CFG (cfg AND NOT (BIT 20));
        wr SN_CS 0;
        ret \<leftarrow> sn_tx e 0x9f000000 2;
        (ret', id) \<leftarrow> (case ret of
            Inl err \<Rightarrow> State_Monad.return (Inl err, [])
          | Inr _ \<Rightarrow> sn_rx e 3);
        wr SN_CS 1;
        case ret' of Inl err \<Rightarrow> State_Monad.return (Inl err) | Inr _ \<Rightarrow> do {
        _ \<leftarrow> rd e SN_CFG;
        _ \<leftarrow> rd e ECC_CFG;
        if id ! 0 \<noteq> 0xc8 \<or> id ! 1 \<noteq> 0x01 then State_Monad.return (Inl ENODEV)
        else bindE (sn_feature e 0xb0) (\<lambda>config.
          if config AND 0x10 \<noteq> 0 then State_Monad.return (Inl EOPNOTSUPP)
          else case dma_mask k of Some err \<Rightarrow> State_Monad.return (Inl err) | None \<Rightarrow>
          case dma_buf k of None \<Rightarrow> State_Monad.return (Inl ENOMEM) | Some b \<Rightarrow> do {
            modify (\<lambda>n. n\<lparr>buf := b, dma_live := True\<rparr>);
            r \<leftarrow> mtd_device_register k;
            case r of
              Inl err \<Rightarrow> do {
                modify (\<lambda>n. if \<not> poisoned n then n\<lparr>dma_live := False\<rparr> else n);
                State_Monad.return (Inl err) }
            | Inr _ \<Rightarrow> State_Monad.return (Inr ()) }) } })"

end
