(* ===== verification/Spinand_Inv.thy ===== *)
theory Spinand_Inv
  imports Spinand
begin

text \<open>
  Properties of the SPI-NAND driver that hold for every behaviour of the controller: what
  it may write to the chip, that the chip select is always released, when the driver
  poisons itself and what it does afterwards, and the agreement of its counters.
\<close>

section \<open>The turns of the read loop\<close>

text \<open>The read loop unfolded once, and induction over its turns.\<close>

lemma nand_read_loop_cases [consumes 1, case_names complete range fail continue]:
  assumes "run_state (nand_read_loop e avail dl ol off ooff page mb err ops) n = (x, n')"
  obtains "dl = 0" "ol = 0" "x = (if err then Inl EBADMSG else Inr mb, ops)" "n' = n"
  | "dl \<noteq> 0 \<or> ol \<noteq> 0" "65536 \<le> page" "x = (Inl EINVAL, ops)" "n' = n"
  | er where "dl \<noteq> 0 \<or> ol \<noteq> 0" "\<not> 65536 \<le> page" "er \<noteq> EBADMSG" "x = (Inl er, ops)"
      "run_state (read_one e (ops_mode ops) page) n = (Inl er, n')"
  | ret bits n1 where "dl \<noteq> 0 \<or> ol \<noteq> 0" "\<not> 65536 \<le> page"
      "ret = Inl EBADMSG \<and> bits = 0 \<or> ret = Inr bits"
      "run_state (read_one e (ops_mode ops) page) n = (ret, n1)"
      "run_state (nand_read_loop e avail (dl - min dl (PAGE_BYTES - off))
         (ol - min ol (avail - ooff)) 0 0 (page + 1) (max mb bits) (err \<or> ret = Inl EBADMSG)
         (take_oob (buf n1) ooff (min ol (avail - ooff))
           (take_data (buf n1) off (min dl (PAGE_BYTES - off)) ops))) n1 = (x, n')"
proof -
  obtain ret n1 where one: "run_state (read_one e (ops_mode ops) page) n = (ret, n1)" by force
  consider "dl = 0 \<and> ol = 0" | "\<not> (dl = 0 \<and> ol = 0)" "65536 \<le> page"
    | "\<not> (dl = 0 \<and> ol = 0)" "\<not> 65536 \<le> page" by blast
  then show thesis
  proof cases
    case 1
    with assms that(1) show ?thesis by (subst (asm) nand_read_loop.simps) auto
  next
    case 2
    with assms that(2) show ?thesis by (subst (asm) nand_read_loop.simps) auto
  next
    case 3
    show ?thesis
    proof (cases ret)
      case (Inl er)
      with assms 3 one that(3) [of er] that(4) [of ret 0 n1] show ?thesis
        by (subst (asm) nand_read_loop.simps) (cases "er = EBADMSG"; auto simp: Let_def)
    next
      case (Inr bits)
      with assms 3 one that(4) [of ret bits n1] show ?thesis
        by (subst (asm) nand_read_loop.simps) (auto simp: Let_def)
    qed
  qed
qed

lemma nand_read_loop_induct [case_names turn]:
  assumes "\<And>dl ol off ooff page mb err ops.
    (\<And>dl ol off ooff mb err ops. \<not> 65536 \<le> page \<Longrightarrow> P dl ol off ooff (page + 1) mb err ops) \<Longrightarrow>
    P dl ol off ooff page mb err (ops :: mtd_oob_ops)"
  shows "P dl ol off ooff (page :: u32) mb err ops"
proof (induction "65536 - unat page" arbitrary: dl ol off ooff page mb err ops rule: less_induct)
  case less
  show ?case by (rule assms) (rule less, simp add: page_step_decreases)
qed

lemma keeps_nand_read_loop [keeps_rules]:
  assumes "\<And>mode page. unat page < 65536 \<Longrightarrow> keeps I (read_one e mode page)"
  shows "keeps I (nand_read_loop e avail dl ol off ooff page mb err ops)"
proof (induction dl ol off ooff page mb err ops rule: nand_read_loop_induct)
  case (turn dl ol off ooff page mb err ops)
  show ?case
  proof (rule keepsI)
    fix n x n'
    assume run: "run_state (nand_read_loop e avail dl ol off ooff page mb err ops) n = (x, n')" and I: "I n"
    have one: "keeps I (read_one e (ops_mode ops) page)" if "\<not> 65536 \<le> page"
      using that by (intro assms) (simp add: word_le_nat_alt)
    from run show "I n'"
    proof (cases rule: nand_read_loop_cases)
      case (continue ret bits n1)
      then have "I n1" using keepsD [OF one continue(4)] I by simp
      then show ?thesis using keepsD [OF turn continue(5)] continue(2) by simp
    qed (use I keepsD [OF one] in auto)
  qed
qed

section \<open>Confinement of register writes\<close>

definition confined :: "(nreg \<Rightarrow> u32 \<Rightarrow> bool) \<Rightarrow> phoebus_nand \<Rightarrow> bool" where
  "confined G n \<longleftrightarrow> (\<forall>(r, v) \<in> set (writes (trace n)). G r v)"

text \<open>
  The writes a read-only driver may make: only the opcodes PAGE READ TO CACHE (13h), READ
  FROM CACHE (03h), GET FEATURE (0Fh) and READ ID (9Fh) reach the chip, and only pages the
  128 MiB part has are loaded.
\<close>

definition read_only_write :: "nreg \<Rightarrow> u32 \<Rightarrow> bool" where
  "read_only_write r v \<longleftrightarrow>
     (r = SN_WDATA \<longrightarrow>
        (drop_bit 24 v = 0x13 \<and> v AND 0xffffff < 65536) \<or> drop_bit 24 v \<in> {0x03, 0x0f, 0x9f})"

named_theorems confined_rules \<open>register writes of the controller routines\<close>

lemma trace_poison [simp]: "trace (poison n) = trace n"
  and trace_count_failed [simp]: "trace (count_failed n) = trace n"
  and trace_count_corrected [simp]: "trace (count_corrected k n) = trace n"
  by (simp_all add: poison_def count_failed_def count_corrected_def)

lemma confined_rd [confined_rules]: "keeps (confined G) (rd e r)"
  unfolding rd_def Let_def by (intro keeps_rules) (simp add: confined_def)

lemma confined_wr [confined_rules]: "G r v \<Longrightarrow> keeps (confined G) (wr r v)"
  unfolding wr_def by (intro keeps_rules) (auto simp: confined_def)

lemma confined_sn_wait [confined_rules]: "keeps (confined G) (sn_wait e)"
  unfolding sn_wait_def by (intro keeps_rules confined_rules) (simp add: confined_def)

lemma confined_sn_tx [confined_rules]:
  "(\<And>v. G SN_WCMD v) \<Longrightarrow> G SN_WDATA w \<Longrightarrow> keeps (confined G) (sn_tx e w n)"
  unfolding sn_tx_def by (intro keeps_rules confined_rules)

lemma confined_sn_rx [confined_rules]:
  "(\<And>v. G SN_RCMD v) \<Longrightarrow> keeps (confined G) (sn_rx e n)"
proof (induction e n rule: sn_rx.induct)
  case (1 e n)
  then show ?case
    by (subst sn_rx.simps) (auto simp: Let_def intro!: keeps_rules confined_rules)
qed

lemma confined_sn_feature [confined_rules]:
  "(\<And>r v. r \<noteq> SN_WDATA \<Longrightarrow> G r v) \<Longrightarrow> G SN_WDATA (push_bit 24 0x0f OR push_bit 16 (ucast addr)) \<Longrightarrow>
   keeps (confined G) (sn_feature e addr)"
  unfolding sn_feature_def by (intro keeps_rules confined_rules) simp_all

lemma confined_sn_ready [confined_rules]:
  "(\<And>r v. r \<noteq> SN_WDATA \<Longrightarrow> G r v) \<Longrightarrow> G SN_WDATA 0x0fc00000 \<Longrightarrow> keeps (confined G) (sn_ready e tries)"
  by (induction tries)
    (auto intro!: keeps_rules confined_rules simp: confined_def push_bit_eq_mult)


lemma load_opcode [simp]: "unat p < 65536 \<Longrightarrow> drop_bit 24 (push_bit 24 0x13 OR p :: u32) = 0x13"
  by (simp add: drop_bit_small)

lemma load_operand [simp]: "unat p < 65536 \<Longrightarrow> (push_bit 24 0x13 OR p :: u32) AND 0xffffff = p"
  using and_mask_small [of p 24] by (simp add: bit.conj_disj_distrib2 mask_eq_exp_minus_1)

lemma feature_opcode [simp]:
  "drop_bit 24 (push_bit 24 0x0f OR push_bit 16 (ucast (a :: u8)) :: u32) = 0x0f"
  using unat_push_bit_lt [of "ucast a :: u32" 8 16] unsigned_less [of a, where 'a = nat]
  by (simp add: drop_bit_small)

lemma cache_opcode [simp]: "unat c < 65536 \<Longrightarrow> drop_bit 24 (0x03000000 OR push_bit 8 c :: u32) = 3"
  using unat_push_bit_lt [of c 16 8] by (simp add: drop_bit_small)

lemma read_only_other [simp]: "r \<noteq> SN_WDATA \<Longrightarrow> read_only_write r v"
  by (simp add: read_only_write_def)

lemma read_only_load: "unat p < 65536 \<Longrightarrow> read_only_write SN_WDATA (push_bit 24 0x13 OR p)"
  unfolding read_only_write_def load_opcode load_operand by (simp add: word_less_nat_alt)

lemma read_only_feature: "read_only_write SN_WDATA (push_bit 24 0x0f OR push_bit 16 (ucast (a :: u8)))"
  unfolding read_only_write_def feature_opcode by simp

lemma read_only_cache: "unat c < 65536 \<Longrightarrow> read_only_write SN_WDATA (0x03000000 OR push_bit 8 c)"
  unfolding read_only_write_def cache_opcode by simp

lemma read_only_status: "read_only_write SN_WDATA 0x0fc00000"
  by (simp add: read_only_write_def)

lemmas read_only_words = read_only_load read_only_feature read_only_cache read_only_status

abbreviation read_only :: "phoebus_nand \<Rightarrow> bool" where
  "read_only \<equiv> confined read_only_write"

lemma read_only_sn_load_page [confined_rules]:
  "unat page < 65536 \<Longrightarrow> keeps read_only (sn_load_page e page)"
  unfolding sn_load_page_def
  by (intro keeps_rules confined_rules read_only_words) (auto simp: confined_def)

lemma read_only_sn_cache_read [confined_rules]:
  "unat c < 65536 \<Longrightarrow> keeps read_only (sn_cache_read e c off n)"
  unfolding sn_cache_read_def
  by (intro keeps_rules confined_rules read_only_words) (auto simp: confined_def)

lemma read_only_sn_page [confined_rules]:
  "unat page < 65536 \<Longrightarrow> keeps read_only (sn_page e page)"
  unfolding sn_page_def by (intro keeps_rules confined_rules) (auto simp: confined_def)

lemma read_only_bch_sector [confined_rules]: "keeps read_only (bch_sector e sector)"
  unfolding bch_sector_def Let_def
  by (intro keeps_rules confined_rules) (auto simp: confined_def)

lemma read_only_bch_loop [confined_rules]: "keeps read_only (bch_loop e sectors m err)"
  by (induction sectors arbitrary: m err) (auto intro!: keeps_rules confined_rules)

lemma read_only_bch_decode [confined_rules]: "keeps read_only (bch_decode e)"
  unfolding bch_decode_def by (intro confined_rules)

lemma read_only_read_one [confined_rules]:
  "unat page < 65536 \<Longrightarrow> keeps read_only (read_one e mode page)"
  unfolding read_one_def by (intro keeps_rules confined_rules) (auto simp: confined_def)

lemma read_only_nand_read_loop [confined_rules]:
  "keeps read_only (nand_read_loop e avail dl ol off ooff page mb err ops)"
  by (intro keeps_rules confined_rules)


lemma read_only_nand_isbad [confined_rules]:
  "pos < CHIP_BYTES \<Longrightarrow> keeps read_only (nand_isbad e pos)"
proof -
  assume "pos < CHIP_BYTES"
  then have "pos div BLOCK_BYTES * 64 < 65536" by auto
  then have "unat (of_nat (pos div BLOCK_BYTES) * 64 :: u32) < 65536"
    by (simp add: unat_word_ariths unat_of_nat)
  then show ?thesis
    unfolding nand_isbad_def Let_def
    by (intro keeps_rules confined_rules) (auto simp: confined_def)
qed

section \<open>The chip select is released\<close>

definition cs_free :: "phoebus_nand \<Rightarrow> bool" where
  "cs_free n \<longleftrightarrow> last_write (trace n) SN_CS = Some 1"

named_theorems cs_rules \<open>routines that leave the chip select released\<close>

lemma cs_release: "keeps cs_free (f ()) \<Longrightarrow> triple P (wr SN_CS 1 \<bind> f) (\<lambda>_. cs_free)"
  unfolding keeps_def
  by (rule triple_bind [where R = "\<lambda>_. cs_free"]) (auto simp: triple_def wr_def cs_free_def)

lemma cs_free_rd [cs_rules]: "keeps cs_free (rd e r)"
  unfolding rd_def Let_def by (intro keeps_rules) (simp add: cs_free_def)

lemma cs_free_wr [cs_rules]: "r \<noteq> SN_CS \<Longrightarrow> keeps cs_free (wr r v)"
  unfolding wr_def by (intro keeps_rules) (simp add: cs_free_def)

lemma keeps_from_True: "triple (\<lambda>_. True) m (\<lambda>_. I) \<Longrightarrow> keeps I m"
  unfolding keeps_def by (erule triple_weaken) simp_all

lemma cs_free_sn_feature [cs_rules]: "keeps cs_free (sn_feature e addr)"
  unfolding sn_feature_def
  by (rule keeps_from_True, (rule cs_release | rule triple_skip)+) (rule keeps_return)

lemma cs_free_sn_ready [cs_rules]: "keeps cs_free (sn_ready e tries)"
  by (induction tries) (auto intro!: keeps_rules cs_rules, simp add: cs_free_def)

lemma cs_free_sn_load_page [cs_rules]: "keeps cs_free (sn_load_page e page)"
proof -
  have "triple (\<lambda>_. True) (do { modify (\<lambda>n. n\<lparr>last_page := page\<rparr>); wr SN_CS 0;
       ret \<leftarrow> sn_tx e (push_bit 24 0x13 OR page) 4; wr SN_CS 1;
       bindE (State_Monad.return ret) (\<lambda>_. sn_ready e 200) }) (\<lambda>_. cs_free)"
    by ((rule cs_release | rule triple_skip)+) (intro keeps_rules cs_rules)
  then show ?thesis
    unfolding sn_load_page_def
    by - (rule keeps_bind [OF keeps_gets], rule keeps_if, rule keeps_return, erule keeps_from_True)
qed

lemma cs_free_sn_cache_read [cs_rules]: "keeps cs_free (sn_cache_read e c off n)"
  unfolding sn_cache_read_def
  by (rule keeps_from_True, (rule cs_release | rule triple_skip)+) (rule keeps_return)

lemma cs_free_sn_page [cs_rules]: "keeps cs_free (sn_page e page)"
  unfolding sn_page_def by (intro keeps_rules cs_rules) (simp add: cs_free_def)

lemma cs_free_bch_sector [cs_rules]: "keeps cs_free (bch_sector e sector)"
  unfolding bch_sector_def Let_def
  by (intro keeps_rules cs_rules) (auto simp: cs_free_def)

lemma cs_free_bch_loop [cs_rules]: "keeps cs_free (bch_loop e sectors m err)"
  by (induction sectors arbitrary: m err) (auto intro!: keeps_rules cs_rules)

lemma cs_free_read_one [cs_rules]: "keeps cs_free (read_one e mode page)"
  unfolding read_one_def bch_decode_def by (intro keeps_rules cs_rules) (simp add: cs_free_def)

lemma cs_free_nand_read_loop [cs_rules]:
  "keeps cs_free (nand_read_loop e avail dl ol off ooff page mb err ops)"
  by (intro keeps_rules cs_rules)

lemma cs_free_nand_isbad [cs_rules]: "keeps cs_free (nand_isbad e pos)"
  unfolding nand_isbad_def Let_def bch_decode_def
  by (intro keeps_rules cs_rules) (auto simp: cs_free_def)


section \<open>Poisoning\<close>

text \<open>
  From a healthy state, a routine poisons the driver exactly when it reports a timeout.
\<close>

definition poison_iff :: "('a \<Rightarrow> bool) \<Rightarrow> 'a nand_m \<Rightarrow> bool" where
  "poison_iff t m \<longleftrightarrow> triple (\<lambda>n. \<not> poisoned n) m (\<lambda>r n. poisoned n \<longleftrightarrow> t r)"

abbreviation timed_out :: "errno + 'a \<Rightarrow> bool" where
  "timed_out r \<equiv> r = Inl ETIMEDOUT"

abbreviation honest :: "(errno + 'a) nand_m \<Rightarrow> bool" where
  "honest \<equiv> poison_iff timed_out"

abbreviation healthy :: "phoebus_nand \<Rightarrow> bool" where
  "healthy n \<equiv> \<not> poisoned n"

named_theorems poison_rules \<open>when the driver poisons itself\<close>

lemma poison_iff_bind:
  "keeps healthy m \<Longrightarrow> (\<And>x. poison_iff t (f x)) \<Longrightarrow> poison_iff t (m \<bind> f)"
  unfolding poison_iff_def by (rule triple_keeps_bind)

lemma poison_iff_return: "\<not> t x \<Longrightarrow> poison_iff t (State_Monad.return x)"
  unfolding poison_iff_def by (rule triple_return) simp

lemma poison_iff_if:
  "(b \<Longrightarrow> poison_iff t m) \<Longrightarrow> (\<not> b \<Longrightarrow> poison_iff t n) \<Longrightarrow> poison_iff t (if b then m else n)"
  by simp

lemma poison_iff_poison: "t x \<Longrightarrow> poison_iff t (modify poison \<bind> (\<lambda>_. State_Monad.return x))"
  by (auto simp: poison_iff_def triple_def poison_def)

lemma honest_bindE: "honest m \<Longrightarrow> (\<And>x. honest (f x)) \<Longrightarrow> honest (bindE m f)"
  by (fastforce simp: poison_iff_def triple_def run_state_bindE split: prod.splits sum.splits)

text \<open>A result handed through a step that does not touch the flag.\<close>

lemma poison_iff_then:
  assumes "poison_iff t m" and "\<And>x p. keeps (\<lambda>n. poisoned n = p) (g x)"
    and "\<And>x n. t' (fst (run_state (g x) n)) = t x"
  shows "poison_iff t' (m \<bind> g)"
  unfolding poison_iff_def
proof (rule tripleI)
  fix n r n'
  assume healthy: "healthy n" and run: "run_state (m \<bind> g) n = (r, n')"
  obtain x n1 where m: "run_state m n = (x, n1)" by force
  with run have g: "run_state (g x) n1 = (r, n')" by simp
  from assms(1) healthy m have "poisoned n1 = t x" by (auto simp: poison_iff_def dest: tripleD)
  moreover have "poisoned n' = poisoned n1" using keepsD [OF assms(2) g] by simp
  moreover have "t' r = t x" using assms(3) [of x n1] g by simp
  ultimately show "poisoned n' = t' r" by simp
qed

lemmas poison_steps = poison_iff_poison poison_iff_bind poison_iff_return poison_iff_if honest_bindE

lemma keeps_flag_rd [poison_rules]: "keeps (\<lambda>n. poisoned n = p) (rd e r)"
  unfolding rd_def Let_def by (intro keeps_rules) simp

lemma keeps_flag_wr [poison_rules]: "keeps (\<lambda>n. poisoned n = p) (wr r v)"
  unfolding wr_def by (intro keeps_rules) simp

lemma healthy_rd [poison_rules]: "keeps healthy (rd e r)"
  and healthy_wr [poison_rules]: "keeps healthy (wr r v)"
  using keeps_flag_rd [of False] keeps_flag_wr [of False] by simp_all

lemma honest_sn_wait [poison_rules]: "honest (sn_wait e)"
  unfolding sn_wait_def
  by (intro poison_iff_bind keeps_read_poll_timeout poison_rules)
    (auto intro!: poison_iff_return poison_iff_poison)

lemma honest_sn_tx [poison_rules]: "honest (sn_tx e w n)"
  unfolding sn_tx_def by (intro honest_bindE poison_iff_bind poison_rules)

lemma poison_sn_rx [poison_rules]: "poison_iff (\<lambda>x. timed_out (fst x)) (sn_rx e n)"
proof (induction e n rule: sn_rx.induct)
  case (1 e n)
  show ?case
  proof (cases "n = 0")
    case True
    then show ?thesis by (subst sn_rx.simps) (simp add: poison_iff_return)
  next
    case False
    let ?rest = "\<lambda>chunk. do { w \<leftarrow> rd e SN_RDATA; (ret', bs) \<leftarrow> sn_rx e (n - chunk);
      State_Monad.return (ret', map (\<lambda>i. ucast (drop_bit (24 - i * 8) w) :: u8) [0..<chunk] @ bs) }"
    have rest: "poison_iff (\<lambda>x. timed_out (fst x)) (?rest (min n 4))"
      by (intro poison_iff_bind poison_rules poison_iff_then [OF 1])
        (auto intro: keeps_rules simp: False)
    have wait: "poison_iff (\<lambda>x. timed_out (fst x))
        (sn_wait e \<bind> (\<lambda>ret. case ret of Inl err \<Rightarrow> State_Monad.return (Inl err, [])
                                        | Inr _ \<Rightarrow> ?rest (min n 4)))"
      unfolding poison_iff_def
      by (rule triple_bind [OF honest_sn_wait [unfolded poison_iff_def]])
        (insert rest, auto simp: poison_iff_def triple_def split: sum.splits)
    show ?thesis
      by (subst sn_rx.simps) (simp add: False Let_def poison_iff_bind poison_rules wait)
  qed
qed


lemma honest_finish:
  "honest m \<Longrightarrow> honest (do { ret \<leftarrow> m; wr r v; State_Monad.return ret })"
  by (erule poison_iff_then) (auto intro!: keeps_rules poison_rules split: prod.splits)

lemma healthy_modify [poison_rules]:
  "(\<And>n. poisoned (f n) = poisoned n) \<Longrightarrow> keeps healthy (modify f)"
  by (intro keeps_rules) simp

lemma honest_rx_map:
  "(\<And>r bs. timed_out (f r bs) = timed_out r) \<Longrightarrow>
   honest (sn_rx e n \<bind> (\<lambda>(r, bs). modify (g bs) \<bind> (\<lambda>_. State_Monad.return (f r bs))))"
  if "\<And>bs n. poisoned (g bs n) = poisoned n"
  using that by (intro poison_iff_then [OF poison_sn_rx]) (auto intro!: keeps_rules split: prod.splits)

lemma honest_sn_feature [poison_rules]: "honest (sn_feature e addr)"
proof -
  have "honest (sn_rx e 1 \<bind> (\<lambda>(r, bs). State_Monad.return
     (case r of Inl err \<Rightarrow> Inl err | Inr x \<Rightarrow> Inr (case bs of [] \<Rightarrow> 0 | b # x \<Rightarrow> b))))"
    by (rule poison_iff_then [OF poison_sn_rx]) (auto intro: keeps_rules split: sum.splits prod.splits)
  then show ?thesis
    unfolding sn_feature_def
    by - (rule poison_iff_bind [OF healthy_wr], rule honest_finish, rule honest_bindE [OF honest_sn_tx])
qed

lemma honest_sn_ready [poison_rules]: "honest (sn_ready e tries)"
  by (induction tries) (auto intro!: honest_bindE poison_rules poison_iff_return poison_iff_poison)

lemma sn_load_tail:
  "do { ret \<leftarrow> sn_tx e w 4; wr SN_CS 1; bindE (State_Monad.return ret) (\<lambda>_. sn_ready e 200) }
     = bindE (do { ret \<leftarrow> sn_tx e w 4; wr SN_CS 1; State_Monad.return ret }) (\<lambda>_. sn_ready e 200)"
  by (simp add: bindE_def)

lemma honest_sn_load_page [poison_rules]: "honest (sn_load_page e page)"
  unfolding sn_load_page_def sn_load_tail
  by (rule poison_iff_bind [OF keeps_gets], rule poison_iff_if, rule poison_iff_return, simp,
      rule poison_iff_bind [OF healthy_modify], simp, rule poison_iff_bind [OF healthy_wr])
    (intro honest_bindE honest_finish poison_rules)

lemma honest_sn_cache_read [poison_rules]: "honest (sn_cache_read e c off n)"
proof -
  have "honest (sn_rx e n \<bind> (\<lambda>(r, bs). modify (\<lambda>n. n\<lparr>buf := buf_write off bs (buf n)\<rparr>) \<bind>
      (\<lambda>_. State_Monad.return r)))"
    by (rule honest_rx_map) simp_all
  then show ?thesis
    unfolding sn_cache_read_def
    by - (rule poison_iff_bind [OF healthy_wr], rule honest_finish, rule honest_bindE [OF honest_sn_tx])
qed

lemma honest_sn_page [poison_rules]: "honest (sn_page e page)"
  unfolding sn_page_def
  by (intro honest_bindE poison_iff_bind poison_rules poison_iff_return) simp_all

lemma poisoned_counts [simp]:
  "poisoned (count_corrected k n) = poisoned n" "poisoned (count_failed n) = poisoned n"
  by (simp_all add: count_corrected_def count_failed_def)

lemma honest_bch_sector [poison_rules]: "honest (bch_sector e sector)"
  unfolding bch_sector_def Let_def
  by (intro poison_iff_poison poison_iff_bind keeps_gets keeps_read_poll_timeout poison_iff_if
      poison_iff_return poison_rules)
    (auto simp: Let_def intro!: poison_iff_poison poison_iff_bind poison_iff_return poison_rules)

lemma honest_bch_loop [poison_rules]: "honest (bch_loop e sectors m err)"
  by (induction sectors arbitrary: m err)
    (auto intro!: honest_bindE poison_rules poison_iff_return split: option.splits)

lemma honest_read_one [poison_rules]: "honest (read_one e mode page)"
  unfolding read_one_def bch_decode_def
  by (intro honest_bindE poison_iff_if poison_iff_bind poison_rules poison_iff_return) simp_all

lemma poison_nand_read_loop [poison_rules]:
  "poison_iff (\<lambda>x. timed_out (fst x)) (nand_read_loop e avail dl ol off ooff page mb err ops)"
proof (induction dl ol off ooff page mb err ops rule: nand_read_loop_induct)
  case (turn dl ol off ooff page mb err ops)
  show ?case
    unfolding poison_iff_def
  proof (rule tripleI)
    fix n x n'
    assume healthy: "healthy n"
      and run: "run_state (nand_read_loop e avail dl ol off ooff page mb err ops) n = (x, n')"
    from run show "poisoned n' = timed_out (fst x)"
    proof (cases rule: nand_read_loop_cases)
      case (fail er)
      with healthy honest_read_one show ?thesis by (fastforce simp: poison_iff_def dest: tripleD)
    next
      case (continue ret bits n1)
      then have "healthy n1"
        using healthy tripleD [OF honest_read_one [unfolded poison_iff_def] _ continue(4)] by auto
      with continue turn show ?thesis
        unfolding poison_iff_def by (blast dest: tripleD)
    qed (use healthy in auto)
  qed
qed


section \<open>Invariants of the bookkeeping fields\<close>

text \<open>
  An invariant of the driver's fields that survives register accesses, new buffer contents
  and each of the driver's own counters survives every entry point.
\<close>

locale nand_frame =
  fixes I :: "phoebus_nand \<Rightarrow> bool"
  assumes frame_trace: "I n \<Longrightarrow> I (n\<lparr>trace := h\<rparr>)"
    and frame_buf: "I n \<Longrightarrow> I (n\<lparr>buf := b\<rparr>)"
    and frame_poison: "I n \<Longrightarrow> I (poison n)"
    and frame_last: "I n \<Longrightarrow> I (n\<lparr>last_page := p\<rparr>)" "I n \<Longrightarrow> I (n\<lparr>last_ecc := v\<rparr>)"
      "I n \<Longrightarrow> I (n\<lparr>bch_sectors := c, last_ecc_page := p\<rparr>)"
    and frame_counts: "I n \<Longrightarrow> I (n\<lparr>pages := c\<rparr>)" "I n \<Longrightarrow> I (n\<lparr>raw_pages := c\<rparr>)"
      "I n \<Longrightarrow> I (n\<lparr>bad_queries := c\<rparr>)" "I n \<Longrightarrow> I (n\<lparr>marker_reads := c\<rparr>)"
    and frame_corrected: "I n \<Longrightarrow> I (count_corrected k n)"
    and frame_failed: "I n \<Longrightarrow> I (count_failed n)"
begin

lemmas frame_fields = frame_trace frame_buf frame_poison frame_last frame_counts frame_corrected frame_failed

lemma keeps_rd: "keeps I (rd e r)"
  unfolding rd_def Let_def by (intro keeps_rules) (rule frame_trace)

lemma keeps_wr: "keeps I (wr r v)"
  unfolding wr_def by (intro keeps_rules) (rule frame_trace)

lemma keeps_sn_wait: "keeps I (sn_wait e)"
  unfolding sn_wait_def by (intro keeps_rules keeps_rd) (rule frame_poison)

lemma keeps_sn_tx: "keeps I (sn_tx e w n)"
  unfolding sn_tx_def by (intro keeps_rules keeps_sn_wait keeps_wr)

lemma keeps_sn_rx: "keeps I (sn_rx e n)"
proof (induction e n rule: sn_rx.induct)
  case (1 e n)
  then show ?case
    by (subst sn_rx.simps) (auto simp: Let_def intro!: keeps_rules keeps_rd keeps_wr keeps_sn_wait)
qed

lemmas keeps_serial = keeps_rd keeps_wr keeps_sn_wait keeps_sn_tx keeps_sn_rx

lemma keeps_sn_feature: "keeps I (sn_feature e addr)"
  unfolding sn_feature_def by (intro keeps_rules keeps_serial)

lemma keeps_sn_ready: "keeps I (sn_ready e tries)"
  by (induction tries) (auto intro!: keeps_rules keeps_sn_feature intro: frame_poison)

lemma keeps_sn_load_page: "keeps I (sn_load_page e page)"
  unfolding sn_load_page_def
  by (intro keeps_rules keeps_serial keeps_sn_ready) (rule frame_last)

lemma keeps_sn_cache_read: "keeps I (sn_cache_read e c off n)"
  unfolding sn_cache_read_def by (intro keeps_rules keeps_serial) (rule frame_buf)

lemma keeps_sn_page: "keeps I (sn_page e page)"
  unfolding sn_page_def by (intro keeps_rules keeps_sn_load_page keeps_sn_cache_read) (rule frame_counts)

lemma keeps_bch_sector: "keeps I (bch_sector e sector)"
  unfolding bch_sector_def Let_def
  by (intro keeps_rules keeps_serial frame_fields)

lemma keeps_bch_decode: "keeps I (bch_decode e)"
proof -
  have "keeps I (bch_loop e sectors m err)" for sectors m err
    by (induction sectors arbitrary: m err) (auto intro!: keeps_rules keeps_bch_sector)
  then show ?thesis by (simp add: bch_decode_def)
qed

lemma keeps_read_one: "keeps I (read_one e mode page)"
  unfolding read_one_def by (intro keeps_rules keeps_sn_page keeps_bch_decode frame_fields)

lemma keeps_nand_read_oob: "keeps I (nand_read_oob e from ops)"
  unfolding nand_read_oob_def Let_def by (intro keeps_rules keeps_read_one)

lemma keeps_nand_isbad: "keeps I (nand_isbad e pos)"
  unfolding nand_isbad_def Let_def
  by (intro keeps_rules keeps_sn_load_page keeps_sn_cache_read keeps_sn_page keeps_bch_decode frame_fields)

end

definition stats_agree :: "phoebus_nand \<Rightarrow> bool" where
  "stats_agree n \<longleftrightarrow> ecc_corrected n = ucast (corrected n) \<and> ecc_failed n = ucast (failed n)"

interpretation stats: nand_frame stats_agree
  by unfold_locales
    (auto simp: stats_agree_def poison_def count_corrected_def count_failed_def ucast_add_down
      ucast_of_nat_down)

interpretation sticky: nand_frame poisoned
  by unfold_locales (auto simp: poison_def count_corrected_def count_failed_def)

section \<open>Bounds on the reported bit flips\<close>

lemma erased_sector_cases:
  "erased_sector data tag =
     (let flips = sum_list (map (\<lambda>b. hweight8 (NOT b)) (take 512 data @ take 16 tag))
      in if flips \<le> 4 then int flips else - 1)"
  by (simp add: erased_sector_def Let_def)

lemma bch_sector_bits:
  "triple (\<lambda>_. True) (bch_sector e sector) (\<lambda>r _. \<forall>k. r = Inr (Some k) \<longrightarrow> k \<le> 6)"
  unfolding bch_sector_def Let_def
  by (rule tripleI)
    (auto simp: Let_def erased_sector_def split: prod.splits if_splits)

lemma bch_loop_bits:
  "m \<le> 6 \<Longrightarrow> triple (\<lambda>_. True) (bch_loop e sectors m err) (\<lambda>r _. \<forall>k. r = Inr k \<longrightarrow> k \<le> 6)"
proof (induction sectors arbitrary: m err)
  case Nil
  then show ?case by (auto intro!: triple_return)
next
  case (Cons s sectors)
  note sector = tripleD [OF bch_sector_bits [of e s]]
  show ?case
  proof (rule tripleI, intro allI impI)
    fix n r n' k
    assume run: "run_state (bch_loop e (s # sectors) m err) n = (r, n')" and "r = Inr k"
    then obtain b n1 where one: "run_state (bch_sector e s) n = (Inr b, n1)"
      by (auto simp: run_state_bindE split: prod.splits sum.splits)
    show "k \<le> 6"
    proof (cases b)
      case None
      with run one \<open>r = Inr k\<close> show ?thesis
        using tripleD [OF Cons.IH [OF Cons.prems]] by (auto simp: run_state_bindE)
    next
      case (Some j)
      with sector one Cons.prems have "max m j \<le> 6" by auto
      from tripleD [OF Cons.IH [OF this]] run one Some \<open>r = Inr k\<close> show ?thesis
        by (auto simp: run_state_bindE)
    qed
  qed
qed

lemma read_one_bits:
  "run_state (read_one e mode page) n = (Inr k, n') \<Longrightarrow> k \<le> 6"
  using tripleD [OF bch_loop_bits [of 0 e "[0..<4]" False]]
  by (auto simp: read_one_def bch_decode_def run_state_bindE split: prod.splits sum.splits if_splits)

lemma nand_read_loop_bits:
  "mb \<le> 6 \<Longrightarrow> run_state (nand_read_loop e avail dl ol off ooff page mb err ops) n = ((Inr k, ops'), n') \<Longrightarrow>
   k \<le> 6"
proof (induction dl ol off ooff page mb err ops arbitrary: n rule: nand_read_loop_induct)
  case (turn dl ol off ooff page mb err ops)
  from turn.prems(2) show ?case
  proof (cases rule: nand_read_loop_cases)
    case (continue ret bits n1)
    then have "max mb bits \<le> 6" using turn.prems(1) read_one_bits by auto
    then show ?thesis using turn.IH [OF continue(2) _ continue(5)] by simp
  qed (use turn.prems in \<open>auto split: if_splits\<close>)
qed

end
