(* ===== verification/Spinand_Read.thy ===== *)
theory Spinand_Read
  imports Spinand_Inv
begin

text \<open>
  What a read returns: the lengths the read loop reports, and that a raw read of a chip
  that answers the serial protocol delivers exactly the bytes stored on the chip.
\<close>

section \<open>The read loop delivers what a page read put into the buffer\<close>

lemma take_data_simps [simp]:
  "ops_mode (take_data b off c ops) = ops_mode ops"
  "retlen (take_data b off c ops) = retlen ops + c"
  "oobretlen (take_data b off c ops) = oobretlen ops"
  "oobbuf (take_data b off c ops) = oobbuf ops"
  by (simp_all add: take_data_def)

lemma take_oob_simps [simp]:
  "ops_mode (take_oob b off c ops) = ops_mode ops"
  "oobretlen (take_oob b off c ops) = oobretlen ops + c"
  "retlen (take_oob b off c ops) = retlen ops"
  "datbuf (take_oob b off c ops) = datbuf ops"
  by (simp_all add: take_oob_def)

text \<open>
  A loop that ends without a hard error has delivered everything that was asked for; a loop
  that stops early has delivered no more than that.
\<close>

lemma nand_read_loop_lengths:
  assumes "run_state (nand_read_loop e avail dl ol off ooff page mb err ops) n = ((r, ops'), n')"
    and "off < PAGE_BYTES" and "0 < avail"
  shows "retlen ops \<le> retlen ops' \<and> retlen ops' \<le> retlen ops + dl \<and>
         oobretlen ops \<le> oobretlen ops' \<and> oobretlen ops' \<le> oobretlen ops + ol \<and>
         ((\<exists>k. r = Inr k) \<or> r = Inl EBADMSG \<longrightarrow>
            retlen ops' = retlen ops + dl \<and> oobretlen ops' = oobretlen ops + ol)"
  using assms
proof (induction dl ol off ooff page mb err ops arbitrary: n rule: nand_read_loop_induct)
  case (turn dl ol off ooff page mb err ops)
  from turn.prems(1) show ?case
  proof (cases rule: nand_read_loop_cases)
    case (continue ret bits n1)
    from turn.IH [OF continue(2) continue(5)] turn.prems(3) show ?thesis by auto
  qed auto
qed

text \<open>The byte at address \<open>a\<close> of a device whose pages hold \<open>data\<close>.\<close>

definition flat :: "(u32 \<Rightarrow> u8 list) \<Rightarrow> nat \<Rightarrow> u8" where
  "flat data a = data (of_nat (a div PAGE_BYTES)) ! (a mod PAGE_BYTES)"

lemma flat_page:
  assumes "off < PAGE_BYTES" and "i < PAGE_BYTES - off" and "unat page < 65536"
  shows "flat data (unat page * PAGE_BYTES + off + i) = data page ! (off + i)"
proof -
  have "(p * PAGE_BYTES + off + i) div PAGE_BYTES = p \<and> (p * PAGE_BYTES + off + i) mod PAGE_BYTES = off + i" for p
    using assms by (auto simp: add.assoc)
  then show ?thesis by (simp add: flat_def)
qed

text \<open>
  \<open>delivers e mode J data\<close>: from any state satisfying \<open>J\<close>, reading a page of the chip in
  this mode succeeds, leaves \<open>J\<close> intact and the page's data in the buffer.
\<close>

definition delivers :: "nand_env \<Rightarrow> oob_mode \<Rightarrow> (phoebus_nand \<Rightarrow> bool) \<Rightarrow> (u32 \<Rightarrow> u8 list) \<Rightarrow> bool" where
  "delivers e mode J data \<longleftrightarrow>
     (\<forall>page n. J n \<longrightarrow> unat page < 65536 \<longrightarrow>
        (\<exists>k n'. run_state (read_one e mode page) n = (Inr k, n') \<and> J n' \<and>
           length (buf n') = BUF_BYTES \<and> slice 0 PAGE_BYTES (buf n') = data page))"

lemma nth_take_data:
  assumes "retlen ops + c \<le> length (datbuf ops)" and "off + c \<le> length b" and "i < length (datbuf ops)"
  shows "datbuf (take_data b off c ops) ! i =
     (if retlen ops \<le> i \<and> i < retlen ops + c then b ! (off + (i - retlen ops)) else datbuf ops ! i)"
  using assms by (auto simp: take_data_def nth_buf_write)

lemma length_take_data [simp]:
  assumes "retlen ops + c \<le> length (datbuf ops)" and "off + c \<le> length b"
  shows "length (datbuf (take_data b off c ops)) = length (datbuf ops)"
  using assms by (simp add: take_data_def)

lemma nand_read_loop_delivers:
  assumes del: "delivers e mode J data"
    and "J n" and "ops_mode ops = mode" and "off < PAGE_BYTES"
    and "unat page * PAGE_BYTES + off + dl \<le> CHIP_BYTES"
    and "retlen ops + dl \<le> length (datbuf ops)" and "unat page \<le> 65536"
  shows "\<exists>k ops' n'. run_state (nand_read_loop e avail dl 0 off ooff page mb False ops) n = ((Inr k, ops'), n') \<and>
     retlen ops' = retlen ops + dl \<and> length (datbuf ops') = length (datbuf ops) \<and>
     (\<forall>i < length (datbuf ops). datbuf ops' ! i =
        (if retlen ops \<le> i \<and> i < retlen ops + dl
         then flat data (unat page * PAGE_BYTES + off + (i - retlen ops)) else datbuf ops ! i))"
  using assms(2-)
proof (induction dl arbitrary: n ops off ooff page mb rule: less_induct)
  case (less dl)
  show ?case
  proof (cases "dl = 0")
    case True
    then show ?thesis by (subst nand_read_loop.simps) auto
  next
    case False
    let ?c = "min dl (PAGE_BYTES - off)"
    have page: "unat page < 65536" using less.prems False by auto
    then have page': "\<not> 65536 \<le> page" and suc: "unat (page + 1) = unat page + 1"
      by (simp_all add: word_le_nat_alt unat_word_ariths)
    obtain k n1 where one: "run_state (read_one e mode page) n = (Inr k, n1)" and "J n1"
      and len: "length (buf n1) = BUF_BYTES" and dat: "slice 0 PAGE_BYTES (buf n1) = data page"
      using del less.prems(1) page unfolding delivers_def by blast
    define ops1 where "ops1 = take_data (buf n1) off ?c ops"
    have c: "0 < ?c" "?c \<le> dl" "off + ?c \<le> PAGE_BYTES" using False less.prems by auto
    have buf: "buf n1 ! (off + i) = flat data (unat page * PAGE_BYTES + off + i)" if "i < ?c" for i
    proof -
      have "buf n1 ! (off + i) = slice 0 PAGE_BYTES (buf n1) ! (off + i)"
        using that c len by (subst nth_slice) auto
      also have "\<dots> = flat data (unat page * PAGE_BYTES + off + i)"
        using that less.prems page by (simp add: dat flat_page)
      finally show ?thesis .
    qed
    have lens: "length (datbuf ops1) = length (datbuf ops)" "retlen ops1 = retlen ops + ?c"
      using less.prems c len by (simp_all add: ops1_def)
    have "\<exists>k' ops' n'. run_state (nand_read_loop e avail (dl - ?c) 0 0 0 (page + 1) (max mb k) False ops1) n1
          = ((Inr k', ops'), n') \<and> retlen ops' = retlen ops1 + (dl - ?c) \<and>
          length (datbuf ops') = length (datbuf ops1) \<and>
          (\<forall>i < length (datbuf ops1). datbuf ops' ! i =
             (if retlen ops1 \<le> i \<and> i < retlen ops1 + (dl - ?c)
              then flat data (unat (page + 1) * PAGE_BYTES + 0 + (i - retlen ops1)) else datbuf ops1 ! i))"
    proof (rule less.IH)
      show "unat (page + 1) * PAGE_BYTES + 0 + (dl - ?c) \<le> CHIP_BYTES"
        using less.prems page suc by (cases "dl \<le> PAGE_BYTES - off") auto
    qed (use \<open>J n1\<close> less.prems c lens page suc in \<open>auto simp: ops1_def\<close>)
    then obtain k' ops' n' where
      rest: "run_state (nand_read_loop e avail (dl - ?c) 0 0 0 (page + 1) (max mb k) False ops1) n1
          = ((Inr k', ops'), n')" "retlen ops' = retlen ops1 + (dl - ?c)"
        "length (datbuf ops') = length (datbuf ops1)"
      and bytes: "\<And>i. i < length (datbuf ops1) \<Longrightarrow> datbuf ops' ! i =
             (if retlen ops1 \<le> i \<and> i < retlen ops1 + (dl - ?c)
              then flat data (unat (page + 1) * PAGE_BYTES + (i - retlen ops1)) else datbuf ops1 ! i)"
      by auto
    have run: "run_state (nand_read_loop e avail dl 0 off ooff page mb False ops) n = ((Inr k', ops'), n')"
      using False page' one less.prems rest(1)
      by (subst nand_read_loop.simps) (simp add: Let_def ops1_def take_oob_def)
    have "datbuf ops' ! i = (if retlen ops \<le> i \<and> i < retlen ops + dl
         then flat data (unat page * PAGE_BYTES + off + (i - retlen ops)) else datbuf ops ! i)"
      if "i < length (datbuf ops)" for i
    proof -
      have "datbuf ops1 ! i = (if retlen ops \<le> i \<and> i < retlen ops + ?c
          then buf n1 ! (off + (i - retlen ops)) else datbuf ops ! i)"
        using that less.prems c len by (simp add: ops1_def nth_take_data)
      moreover have "unat (page + 1) * PAGE_BYTES + (i - (retlen ops + ?c)) =
          unat page * PAGE_BYTES + off + (i - retlen ops)"
        if "retlen ops + ?c \<le> i" "i < retlen ops + dl"
        using that suc c less.prems by (auto simp: min_def split: if_splits)
      moreover have "buf n1 ! (off + (i - retlen ops)) = flat data (unat page * PAGE_BYTES + off + (i - retlen ops))"
        if "retlen ops \<le> i" "i < retlen ops + ?c"
        using that by (intro buf) linarith
      ultimately show ?thesis
        using bytes [of i] that lens c by auto
    qed
    with run rest lens c show ?thesis by auto
  qed
qed


section \<open>A chip that answers the serial protocol\<close>

text \<open>Bytes clocked out of the chip since the last command, and in the last transfer.\<close>

fun rx_total :: "nreg history \<Rightarrow> nat" where
  "rx_total [] = 0"
| "rx_total (Rd r v # h) = rx_total h"
| "rx_total (Wr r v # h) =
     (if r = SN_WDATA then 0 else if r = SN_RCMD then rx_total h + unat v + 1 else rx_total h)"

definition rx_chunk :: "nreg history \<Rightarrow> nat" where
  "rx_chunk h = (case last_write h SN_RCMD of None \<Rightarrow> 0 | Some v \<Rightarrow> unat v + 1)"

text \<open>The page last loaded into the chip's cache register.\<close>

fun cached_page :: "nreg history \<Rightarrow> u32" where
  "cached_page [] = 0"
| "cached_page (Rd r v # h) = cached_page h"
| "cached_page (Wr r v # h) =
     (if r = SN_WDATA \<and> drop_bit 24 v = 0x13 then v AND 0xffffff else cached_page h)"

text \<open>
  A chip holding the page images \<open>img\<close>, behind a controller that is never busy: GET FEATURE
  answers a status byte with the operation-in-progress bit clear, READ FROM CACHE streams
  the cached page from the given column on, most significant byte of each word first.
\<close>

definition serves :: "nreg device \<Rightarrow> (u32 \<Rightarrow> u8 list) \<Rightarrow> bool" where
  "serves d img \<longleftrightarrow>
     (\<forall>h. d h SN_STATUS AND BIT 3 = 0) \<and>
     (\<forall>h w. last_write h SN_WDATA = Some w \<longrightarrow>
        (drop_bit 24 w = 0x0f \<longrightarrow> ucast (drop_bit 24 (d h SN_RDATA)) AND (1 :: u8) = 0) \<and>
        (drop_bit 24 w = 0x03 \<longrightarrow>
          (\<forall>i < rx_chunk h. let a = unat (drop_bit 8 w AND 0xffff) + (rx_total h - rx_chunk h) + i in
             a < PAGE_BYTES + OOB_BYTES \<longrightarrow>
             ucast (drop_bit (24 - i * 8) (d h SN_RDATA)) = img (cached_page h) ! a)))"

lemma serves_idle: "serves (dev e) img \<Longrightarrow>
  run_state (sn_wait e) n = (Inr (), n\<lparr>trace := Rd SN_STATUS (dev e (trace n) SN_STATUS) # trace n\<rparr>)"
  by (cases "polls e") (simp_all add: sn_wait_def rd_def Let_def serves_def)

lemma serves_sn_tx:
  assumes "serves (dev e) img"
  obtains h where "run_state (sn_tx e w k) n = (Inr (), n\<lparr>trace := h\<rparr>)"
    "last_write h SN_WDATA = Some w" "rx_total h = 0"
    "cached_page h = (if drop_bit 24 w = 0x13 then w AND 0xffffff else cached_page (trace n))"
  using that by (auto simp: sn_tx_def run_state_bindE serves_idle [OF assms] wr_def)

lemma serves_sn_rx:
  assumes "serves (dev e) img" and "length (img (cached_page (trace n))) = PAGE_BYTES + OOB_BYTES"
    and "last_write (trace n) SN_WDATA = Some w" and "drop_bit 24 w = 0x03"
    and "col = unat (drop_bit 8 w AND 0xffff)" and "col + rx_total (trace n) + k \<le> PAGE_BYTES + OOB_BYTES"
  shows "\<exists>h. run_state (sn_rx e k) n =
       ((Inr (), slice (col + rx_total (trace n)) k (img (cached_page (trace n)))), n\<lparr>trace := h\<rparr>) \<and>
     cached_page h = cached_page (trace n)"
  using assms
proof (induction k arbitrary: n rule: less_induct)
  case (less k)
  show ?case
  proof (cases "k = 0")
    case True
    then show ?thesis by (subst sn_rx.simps) (auto simp: slice_def intro!: exI [of _ "trace n"])
  next
    case False
    let ?c = "min k 4" let ?t = "rx_total (trace n)" let ?p = "img (cached_page (trace n))"
    define h1 where "h1 = Rd SN_STATUS (dev e (Wr SN_RCMD (of_nat ?c - 1) # trace n) SN_STATUS)
        # Wr SN_RCMD (of_nat ?c - 1) # trace n"
    define h2 where "h2 = Rd SN_RDATA (dev e h1 SN_RDATA) # h1"
    have c: "0 < ?c" "?c \<le> 4" "?c \<le> k" using False by auto
    then have ord: "unat (of_nat ?c - 1 :: u32) + 1 = ?c"
      by (subst unat_sub) (auto simp: word_le_nat_alt unat_of_nat)
    have h1: "last_write h1 SN_WDATA = Some w" "rx_chunk h1 = ?c" "rx_total h1 = ?t + ?c"
        "cached_page h1 = cached_page (trace n)"
      using less.prems(3) ord by (simp_all add: h1_def rx_chunk_def)
    have byte: "ucast (drop_bit (24 - i * 8) (dev e h1 SN_RDATA)) = ?p ! (col + ?t + i)" if "i < ?c" for i
      using less.prems(1) h1 that less.prems(4,5,6) c
      unfolding serves_def by (simp add: Let_def)
    have chunk: "map (\<lambda>i. ucast (drop_bit (24 - i * 8) (dev e h1 SN_RDATA))) [0..<?c] = slice (col + ?t) ?c ?p"
      using byte less.prems(2,6) c by (intro nth_equalityI) (auto simp: slice_def)
    have "\<exists>h. run_state (sn_rx e (k - ?c)) (n\<lparr>trace := h2\<rparr>) =
         ((Inr (), slice (col + rx_total h2) (k - ?c) (img (cached_page h2))), n\<lparr>trace := h\<rparr>) \<and>
       cached_page h = cached_page h2"
      using less.IH [of "k - ?c" "n\<lparr>trace := h2\<rparr>"] less.prems h1 c
      by (simp add: h2_def)
    then obtain h where rest: "run_state (sn_rx e (k - ?c)) (n\<lparr>trace := h2\<rparr>) =
         ((Inr (), slice (col + ?t + ?c) (k - ?c) ?p), n\<lparr>trace := h\<rparr>)"
       and h: "cached_page h = cached_page (trace n)"
      using h1 by (auto simp: h2_def add.assoc)
    have split: "slice (col + ?t) ?c ?p @ slice (col + ?t + ?c) (k - ?c) ?p = slice (col + ?t) k ?p"
      using c by (simp add: slice_append)
    show ?thesis
    proof (intro exI conjI)
      show "run_state (sn_rx e k) n = ((Inr (), slice (col + ?t) k ?p), n\<lparr>trace := h\<rparr>)"
        by (subst sn_rx.simps)
          (simp add: False Let_def serves_idle [OF less.prems(1)] wr_def rd_def h1_def [symmetric]
            h2_def [symmetric] rest chunk split)
    qed (rule h)
  qed
qed


lemma serves_status:
  "serves d img \<Longrightarrow> last_write h SN_WDATA = Some w \<Longrightarrow> drop_bit 24 w = 0x0f \<Longrightarrow>
   ucast (drop_bit 24 (d h SN_RDATA)) AND (1 :: u8) = 0"
  unfolding serves_def by blast

lemma sn_rx_0: "sn_rx e 0 = State_Monad.return (Inr (), [])"
  by (subst sn_rx.simps) simp

lemma serves_sn_feature:
  assumes "serves (dev e) img"
  obtains b h where "run_state (sn_feature e addr) n = (Inr b, n\<lparr>trace := h\<rparr>)" "b AND 1 = 0"
    "cached_page h = cached_page (trace n)"
proof -
  let ?w = "push_bit 24 0x0f OR push_bit 16 (ucast addr) :: u32"
  let ?n0 = "n\<lparr>trace := Wr SN_CS 0 # trace n\<rparr>"
  obtain h where tx: "run_state (sn_tx e ?w 2) ?n0 = (Inr (), ?n0\<lparr>trace := h\<rparr>)"
    and h1: "last_write h SN_WDATA = Some ?w"
    and "cached_page h = (if drop_bit 24 ?w = 0x13 then ?w AND 0xffffff else cached_page (trace ?n0))"
    by (rule serves_sn_tx [OF assms])
  from this(3) have h2: "cached_page h = cached_page (trace n)"
    unfolding feature_opcode by simp
  define h1 where "h1 = Rd SN_STATUS (dev e (Wr SN_RCMD 0 # h) SN_STATUS) # Wr SN_RCMD 0 # h"
  define b where "b = (ucast (drop_bit 24 (dev e h1 SN_RDATA)) :: u8)"
  have rx: "run_state (sn_rx e 1) (n\<lparr>trace := h\<rparr>) =
      ((Inr (), [b]), n\<lparr>trace := Rd SN_RDATA (dev e h1 SN_RDATA) # h1\<rparr>)"
    by (subst sn_rx.simps)
      (simp add: Let_def serves_idle [OF assms] wr_def rd_def h1_def b_def sn_rx_0)
  have "last_write h1 SN_WDATA = Some ?w" by (simp add: h1_def h1)
  from serves_status [OF assms this feature_opcode] have "b AND 1 = 0" by (simp only: b_def)
  moreover have "run_state (sn_feature e addr) n =
      (Inr b, n\<lparr>trace := Wr SN_CS 1 # Rd SN_RDATA (dev e h1 SN_RDATA) # h1\<rparr>)"
    using tx rx by (simp add: sn_feature_def wr_def run_state_bindE)
  ultimately show thesis
    using that h2 by (auto simp: h1_def)
qed

lemma serves_sn_load_page:
  assumes "serves (dev e) img" and "healthy n" and "unat page < 65536"
  obtains h where "run_state (sn_load_page e page) n = (Inr (), n\<lparr>last_page := page, trace := h\<rparr>)"
    "cached_page h = page"
proof -
  let ?w = "push_bit 24 0x13 OR page :: u32"
  let ?n0 = "n\<lparr>last_page := page, trace := Wr SN_CS 0 # trace n\<rparr>"
  obtain h where tx: "run_state (sn_tx e ?w 4) ?n0 = (Inr (), ?n0\<lparr>trace := h\<rparr>)"
    and h: "cached_page h = (if drop_bit 24 ?w = 0x13 then ?w AND 0xffffff else cached_page (trace ?n0))"
    by (rule serves_sn_tx [OF assms(1)])
  let ?n1 = "n\<lparr>last_page := page, trace := Wr SN_CS 1 # h\<rparr>"
  obtain b h1 where f: "run_state (sn_feature e 0xc0) ?n1 = (Inr b, ?n1\<lparr>trace := h1\<rparr>)"
    and b: "b AND 1 = 0" and h1: "cached_page h1 = cached_page (trace ?n1)"
    by (rule serves_sn_feature [OF assms(1)])
  from f b have ready: "run_state (sn_ready e 200) ?n1 = (Inr (), n\<lparr>last_page := page, trace := h1\<rparr>)"
    using sn_ready.simps(2) [of e 199] by (simp add: run_state_bindE)
  have "run_state (sn_load_page e page) n = (Inr (), n\<lparr>last_page := page, trace := h1\<rparr>)"
    using tx ready assms(2) by (simp add: sn_load_page_def wr_def bindE_def)
  moreover have "cached_page h1 = page"
    using h1 unfolding h load_opcode [OF assms(3)] load_operand [OF assms(3)]
    by (simp add: h [unfolded load_opcode [OF assms(3)] load_operand [OF assms(3)]])
  ultimately show thesis by (rule that)
qed


lemma serves_sn_cache_read:
  assumes "serves (dev e) img" and "cached_page (trace n) = page"
    and "length (img page) = PAGE_BYTES + OOB_BYTES"
  obtains h where "run_state (sn_cache_read e 0 0 (PAGE_BYTES + OOB_BYTES)) n =
    (Inr (), n\<lparr>buf := buf_write 0 (img page) (buf n), trace := h\<rparr>)"
proof -
  let ?n0 = "n\<lparr>trace := Wr SN_CS 0 # trace n\<rparr>"
  obtain h where tx: "run_state (sn_tx e 0x03000000 4) ?n0 = (Inr (), ?n0\<lparr>trace := h\<rparr>)"
    and w: "last_write h SN_WDATA = Some 0x03000000" and tot: "rx_total h = 0"
    and c: "cached_page h = (if drop_bit 24 (0x03000000 :: u32) = 0x13
        then 0x03000000 AND 0xffffff else cached_page (trace ?n0))"
    by (rule serves_sn_tx [OF assms(1)])
  from c assms(2) have page: "cached_page h = page" by simp
  obtain h1 where rx: "run_state (sn_rx e (PAGE_BYTES + OOB_BYTES)) (n\<lparr>trace := h\<rparr>) =
      ((Inr (), slice 0 (PAGE_BYTES + OOB_BYTES) (img page)), n\<lparr>trace := h1\<rparr>)"
    using serves_sn_rx [OF assms(1), of "n\<lparr>trace := h\<rparr>" "0x03000000" 0 "PAGE_BYTES + OOB_BYTES"]
      w tot page assms(3) by auto
  have "slice 0 (PAGE_BYTES + OOB_BYTES) (img page) = img page"
    using assms(3) by (simp add: slice_def)
  with tx rx have "run_state (sn_cache_read e 0 0 (PAGE_BYTES + OOB_BYTES)) n =
      (Inr (), n\<lparr>buf := buf_write 0 (img page) (buf n), trace := Wr SN_CS 1 # h1\<rparr>)"
    by (simp add: sn_cache_read_def wr_def run_state_bindE)
  then show thesis by (rule that)
qed

text \<open>A full page read from such a chip puts the whole page image at the start of the buffer.\<close>

lemma serves_sn_page:
  assumes "serves (dev e) img" and "healthy n" and "unat page < 65536"
    and "length (img page) = PAGE_BYTES + OOB_BYTES" and "length (buf n) = BUF_BYTES"
  obtains n' where "run_state (sn_page e page) n = (Inr (), n')" "healthy n'"
    "length (buf n') = BUF_BYTES" "slice 0 (PAGE_BYTES + OOB_BYTES) (buf n') = img page"
proof -
  obtain h where load: "run_state (sn_load_page e page) n = (Inr (), n\<lparr>last_page := page, trace := h\<rparr>)"
    and h: "cached_page h = page"
    by (rule serves_sn_load_page [OF assms(1-3)])
  let ?n1 = "n\<lparr>last_page := page, trace := h\<rparr>"
  have "cached_page (trace ?n1) = page" using h by simp
  then obtain h1 where cache: "run_state (sn_cache_read e 0 0 (PAGE_BYTES + OOB_BYTES)) ?n1 =
      (Inr (), ?n1\<lparr>buf := buf_write 0 (img page) (buf ?n1), trace := h1\<rparr>)"
    by (rule serves_sn_cache_read [OF assms(1) _ assms(4)])
  have "slice 0 (PAGE_BYTES + OOB_BYTES) (buf_write 0 (img page) (buf n)) = img page"
    using assms(4,5) slice_buf_write_same [of 0 "img page" "buf n"] by simp
  with load cache assms(2,4,5) show thesis
    by (intro that [of "n\<lparr>last_page := page, buf := buf_write 0 (img page) (buf n), trace := h1,
        pages := pages n + 1\<rparr>"]) (auto simp: sn_page_def run_state_bindE)
qed

lemma serves_delivers_raw:
  assumes "serves (dev e) img" and "\<And>p. length (img p) = PAGE_BYTES + OOB_BYTES"
  shows "delivers e MTD_OPS_RAW (\<lambda>n. healthy n \<and> length (buf n) = BUF_BYTES) (\<lambda>p. take PAGE_BYTES (img p))"
  unfolding delivers_def
proof (intro allI impI)
  fix page n
  assume n: "healthy n \<and> length (buf n) = BUF_BYTES" and "unat (page :: u32) < 65536"
  then obtain n' where page: "run_state (sn_page e page) n = (Inr (), n')" "healthy n'"
      "length (buf n') = BUF_BYTES" "slice 0 (PAGE_BYTES + OOB_BYTES) (buf n') = img page"
    using serves_sn_page [OF assms(1) _ _ assms(2)] by blast
  from page(4) have "slice 0 PAGE_BYTES (buf n') = take PAGE_BYTES (img page)"
    by (metis slice_def drop0 min_def le_add1 take_take)
  with page show "\<exists>k n'. run_state (read_one e MTD_OPS_RAW page) n = (Inr k, n') \<and>
      (healthy n' \<and> length (buf n') = BUF_BYTES) \<and> length (buf n') = BUF_BYTES \<and>
      slice 0 PAGE_BYTES (buf n') = take PAGE_BYTES (img page)"
    by (simp add: read_one_def run_state_bindE)
qed


section \<open>Sequences of calls\<close>

text \<open>The MTD core calls the driver's entry points in any order; it checks block addresses first.\<close>

datatype nand_call = ReadOob nat mtd_oob_ops | IsBad nat | Erase

fun nand_step :: "nand_env \<Rightarrow> nand_call \<Rightarrow> phoebus_nand \<Rightarrow> phoebus_nand" where
  "nand_step e (ReadOob from ops) n = snd (run_state (nand_read_oob e from ops) n)"
| "nand_step e (IsBad pos) n = snd (run_state (nand_isbad e pos) n)"
| "nand_step e Erase n = snd (run_state nand_erase_denied n)"

fun call_ok :: "nand_call \<Rightarrow> bool" where
  "call_ok (IsBad pos) = (pos < CHIP_BYTES)"
| "call_ok _ = True"

definition nand_inv :: "phoebus_nand \<Rightarrow> bool" where
  "nand_inv n \<longleftrightarrow> read_only n \<and> cs_free n \<and> stats_agree n"

lemma keeps_nand_inv:
  "keeps read_only m \<Longrightarrow> keeps cs_free m \<Longrightarrow> keeps stats_agree m \<Longrightarrow> keeps nand_inv m"
  unfolding nand_inv_def [abs_def] by (intro keeps_conj)

lemma nand_inv_read_oob: "keeps nand_inv (nand_read_oob e from ops)"
  unfolding nand_read_oob_def Let_def
  by (intro keeps_if keeps_return keeps_nand_inv confined_rules cs_rules
      stats.keeps_nand_read_oob [unfolded nand_read_oob_def Let_def] keeps_rules stats.keeps_read_one)

lemma nand_inv_isbad: "pos < CHIP_BYTES \<Longrightarrow> keeps nand_inv (nand_isbad e pos)"
  by (intro keeps_nand_inv confined_rules cs_rules stats.keeps_nand_isbad)

interpretation calls: event_system "nand_step e" call_ok nand_inv
proof
  fix c n
  assume "call_ok c" and "nand_inv n"
  then show "nand_inv (nand_step e c n)"
    by (cases c) (auto simp: nand_erase_denied_def intro!: keepsD_snd nand_inv_read_oob nand_inv_isbad)
qed

lemma nand_read_oob_raw:
  assumes "serves (dev e) img" and "\<And>p. length (img p) = PAGE_BYTES + OOB_BYTES"
    and "healthy n" and "length (buf n) = BUF_BYTES"
    and "ops_mode ops = MTD_OPS_RAW" and "ops_ooblen ops = 0"
    and "from + ops_len ops \<le> CHIP_BYTES" and "ops_len ops \<le> length (datbuf ops)"
  shows "\<exists>k ops' n'. run_state (nand_read_oob e from ops) n = ((Inr k, ops'), n') \<and>
     retlen ops' = ops_len ops \<and>
     (\<forall>i < ops_len ops. datbuf ops' ! i = flat img (from + i))"
proof -
  let ?page = "of_nat (from div PAGE_BYTES) :: u32" and ?ops = "ops\<lparr>retlen := 0, oobretlen := 0\<rparr>"
  let ?data = "\<lambda>p. take PAGE_BYTES (img p)"
  have "from div PAGE_BYTES \<le> 65536" using assms(7) by auto
  then have page: "unat ?page = from div PAGE_BYTES" by (simp add: unat_of_nat)
  have addr: "unat ?page * PAGE_BYTES + from mod PAGE_BYTES = from" by (simp add: page)
  have flat: "flat ?data a = flat img a" for a by (simp add: flat_def)
  obtain k ops' n' where
    "run_state (nand_read_loop e OOB_BYTES (ops_len ops) 0 (from mod PAGE_BYTES) (ops_ooboffs ops)
       ?page 0 False ?ops) n = ((Inr k, ops'), n')" "retlen ops' = ops_len ops"
    "\<forall>i < ops_len ops. datbuf ops' ! i = flat ?data (from + i)"
    using nand_read_loop_delivers [OF serves_delivers_raw [OF assms(1,2)], of n ?ops "from mod PAGE_BYTES"
        ?page "ops_len ops" OOB_BYTES "ops_ooboffs ops" 0] assms(3-) addr page by auto
  then show ?thesis
    using assms(5,6) by (auto simp: nand_read_oob_def Let_def flat)
qed

section \<open>Partition borders\<close>

fun scanl_sizes :: "nat \<Rightarrow> nat list \<Rightarrow> nat list" where
  "scanl_sizes a [] = [a]"
| "scanl_sizes a (x # xs) = a # scanl_sizes (a + x) xs"

section \<open>Which routines can report uncorrectable data\<close>

text \<open>Only the BCH decoder returns \<open>-EBADMSG\<close>; the serial routines return \<open>-EIO\<close> or \<open>-ETIMEDOUT\<close>.\<close>

definition no_badmsg :: "(errno + 'a) nand_m \<Rightarrow> bool" where
  "no_badmsg m \<longleftrightarrow> (\<forall>n. fst (run_state m n) \<noteq> Inl EBADMSG)"

lemma no_badmsg_bindE: "no_badmsg m \<Longrightarrow> (\<And>x. no_badmsg (f x)) \<Longrightarrow> no_badmsg (bindE m f)"
  unfolding no_badmsg_def run_state_bindE
  by (auto split: prod.splits sum.splits) (metis fst_conv)+

lemma no_badmsg_bind: "(\<And>x. no_badmsg (f x)) \<Longrightarrow> no_badmsg (m \<bind> f)"
  unfolding no_badmsg_def by (auto split: prod.splits)

lemma no_badmsg_return: "x \<noteq> Inl EBADMSG \<Longrightarrow> no_badmsg (State_Monad.return x)"
  by (simp add: no_badmsg_def)

lemma no_badmsg_finish: "no_badmsg m \<Longrightarrow> no_badmsg (do { ret \<leftarrow> m; wr r v; State_Monad.return ret })"
  unfolding no_badmsg_def by (auto simp: wr_def split: prod.splits) (metis fst_conv)

lemma no_badmsg_wait: "no_badmsg (sn_wait e)"
  unfolding sn_wait_def by (auto intro!: no_badmsg_bind no_badmsg_return split: prod.splits)

lemma no_badmsg_tx: "no_badmsg (sn_tx e w k)"
  unfolding sn_tx_def by (intro no_badmsg_bindE no_badmsg_bind no_badmsg_wait)

lemma sn_rx_no_badmsg: "fst (fst (run_state (sn_rx e k) n)) \<noteq> Inl EBADMSG"
proof (induction e k arbitrary: n rule: sn_rx.induct)
  case (1 e k)
  have wait: "run_state (sn_wait e) m = (Inl err, m') \<Longrightarrow> err \<noteq> EBADMSG" for m err m'
    using no_badmsg_wait [of e] unfolding no_badmsg_def by (metis fst_conv)
  have rest: "run_state (sn_rx e (k - min k 4)) m = ((Inl err, bs), m') \<Longrightarrow> k \<noteq> 0 \<Longrightarrow> err \<noteq> EBADMSG" for m err bs m'
    using 1 [of "min k 4" m] by auto
  show ?case
    by (subst sn_rx.simps) (auto simp: Let_def split: prod.splits sum.splits dest!: wait rest)
qed

lemma no_badmsg_rx_map:
  "(\<And>r bs. f r bs = Inl EBADMSG \<Longrightarrow> r = Inl EBADMSG) \<Longrightarrow>
   no_badmsg (sn_rx e k \<bind> (\<lambda>(r, bs). modify (g bs) \<bind> (\<lambda>_. State_Monad.return (f r bs))))"
  unfolding no_badmsg_def using sn_rx_no_badmsg [of e k] by (auto split: prod.splits) (metis fst_conv)

lemma no_badmsg_feature: "no_badmsg (sn_feature e addr)"
proof -
  have "no_badmsg (sn_rx e 1 \<bind> (\<lambda>(r, bs). State_Monad.return
     (case r of Inl err \<Rightarrow> Inl err | Inr x \<Rightarrow> Inr (case bs of [] \<Rightarrow> 0 | b # x \<Rightarrow> b))))"
    unfolding no_badmsg_def using sn_rx_no_badmsg [of e 1]
    by (auto split: prod.splits sum.splits) (metis fst_conv)
  then show ?thesis
    unfolding sn_feature_def
    by - (rule no_badmsg_bind, rule no_badmsg_finish, rule no_badmsg_bindE [OF no_badmsg_tx])
qed

lemma no_badmsg_ready: "no_badmsg (sn_ready e tries)"
  by (induction tries) (auto intro!: no_badmsg_bind no_badmsg_bindE no_badmsg_feature no_badmsg_return)

lemma no_badmsg_if: "no_badmsg m \<Longrightarrow> no_badmsg m' \<Longrightarrow> no_badmsg (if b then m else m')"
  by simp

lemma no_badmsg_load: "no_badmsg (sn_load_page e page)"
  unfolding sn_load_page_def sn_load_tail
  by (rule no_badmsg_bind, rule no_badmsg_if, rule no_badmsg_return, simp,
      rule no_badmsg_bind, rule no_badmsg_bind, rule no_badmsg_bindE)
    (rule no_badmsg_finish [OF no_badmsg_tx], rule no_badmsg_ready)

lemma no_badmsg_cache: "no_badmsg (sn_cache_read e c off k)"
  unfolding sn_cache_read_def
  by (rule no_badmsg_bind, rule no_badmsg_finish, rule no_badmsg_bindE [OF no_badmsg_tx])
    (rule no_badmsg_rx_map)

lemma no_badmsg_page: "no_badmsg (sn_page e page)"
  unfolding sn_page_def
  by (intro no_badmsg_bindE no_badmsg_load no_badmsg_cache no_badmsg_bind no_badmsg_return) simp

lemma no_badmsgD: "no_badmsg m \<Longrightarrow> run_state m n = (Inl err, n') \<Longrightarrow> err \<noteq> EBADMSG"
  unfolding no_badmsg_def by (metis fst_conv)

section \<open>Erased sectors\<close>


text \<open>The number of cleared bits, and the sixteen tag and BCH bytes that belong to a sector.\<close>

definition zero_bits :: "u8 list \<Rightarrow> nat" where
  "zero_bits bs = sum_list (map (\<lambda>b. hweight8 (NOT b)) bs)"

definition sector_tag :: "nat \<Rightarrow> u8 list \<Rightarrow> u8 list" where
  "sector_tag s b = slice (PAGE_BYTES + s * 6) 6 b @ slice (PAGE_BYTES + 24 + s * 10) 10 b"

lemma copy_tag_out_spec:
  assumes "length b = BUF_BYTES" and "s < 4"
  shows "length (copy_tag_out s b) = BUF_BYTES" and "slice SCRATCH_OFF 16 (copy_tag_out s b) = sector_tag s b"
    and "a + k \<le> SCRATCH_OFF \<Longrightarrow> slice a k (copy_tag_out s b) = slice a k b"
proof -
  let ?t1 = "slice (PAGE_BYTES + s * 6) 6 b"
  let ?b1 = "buf_write SCRATCH_OFF ?t1 b"
  have b1: "length ?b1 = BUF_BYTES" "length ?t1 = 6" using assms by simp_all
  let ?t2 = "slice (PAGE_BYTES + 24 + s * 10) 10 ?b1"
  have t2: "?t2 = slice (PAGE_BYTES + 24 + s * 10) 10 b"
    using assms b1 by (intro slice_buf_write_other) auto
  have l2: "length ?t2 = 10" using assms b1 by simp
  show "length (copy_tag_out s b) = BUF_BYTES"
    using assms b1 l2 by (simp add: copy_tag_out_def Let_def)
  have "slice SCRATCH_OFF 6 (copy_tag_out s b) = ?t1"
    unfolding copy_tag_out_def Let_def
    using assms b1 l2 slice_buf_write_same [of SCRATCH_OFF ?t1 b]
    by (subst slice_buf_write_other) auto
  moreover have "slice (SCRATCH_OFF + 6) 10 (copy_tag_out s b) = ?t2"
    unfolding copy_tag_out_def Let_def
    using assms b1 l2 slice_buf_write_same [of "SCRATCH_OFF + 6" ?t2 ?b1] by simp
  ultimately show "slice SCRATCH_OFF 16 (copy_tag_out s b) = sector_tag s b"
    using slice_append [of SCRATCH_OFF 6 "copy_tag_out s b" 10] t2 by (simp add: sector_tag_def)
  assume "a + k \<le> SCRATCH_OFF"
  then show "slice a k (copy_tag_out s b) = slice a k b"
    unfolding copy_tag_out_def Let_def using assms b1 l2 by (simp add: slice_buf_write_other)
qed

lemma fill_erased_spec:
  assumes "length b = BUF_BYTES" and "s < 4"
  shows "slice (s * 512) 512 (fill_erased s b) = replicate 512 0xff"
    and "t < 4 \<Longrightarrow> t \<noteq> s \<Longrightarrow> slice (t * 512) 512 (fill_erased s b) = slice (t * 512) 512 b"
proof -
  show "slice (s * 512) 512 (fill_erased s b) = replicate 512 0xff"
    using assms slice_buf_write_same [of "s * 512" "replicate 512 0xff" b]
    by (simp add: fill_erased_def slice_buf_write_other)
  assume t: "t < 4" "t \<noteq> s"
  then have "t * 512 + 512 \<le> s * 512 \<or> s * 512 + 512 \<le> t * 512" by arith
  with t assms show "slice (t * 512) 512 (fill_erased s b) = slice (t * 512) 512 b"
    by (simp add: fill_erased_def slice_buf_write_other)
qed

section \<open>Properties\<close>

text \<open>
  C1: The driver is read-only.  Whatever the controller answers, after any sequence of
  calls by the MTD core every word the driver has sent to the chip is a READ ID, GET
  FEATURE, READ FROM CACHE or PAGE READ command, only pages of the 128 MiB chip have been
  addressed, the chip select is released, and the MTD error statistics agree with the
  driver's own telemetry counters.
\<close>

theorem nand_read_only:
  assumes "list_all call_ok cs" and "nand_inv n"
  shows "nand_inv (fold (nand_step e) cs n)"
  using assms by (rule calls.run_inv)

theorem nand_read_only_witness:
  "nand_inv (fold (nand_step \<lparr>dev = \<lambda>_ _. 0, bch_engine = \<lambda>_ b. b, polls = 3, dma = 0\<rparr>)
     [IsBad 131072, Erase] ((nand_zero [Wr SN_CS 1])\<lparr>buf := replicate 4096 0\<rparr>))"
  by (rule nand_read_only)
    (simp_all add: nand_inv_def confined_def cs_free_def stats_agree_def nand_zero_def read_only_write_def)

text \<open>
  C3: The driver disables itself on a timeout and only then.  Starting healthy, a read
  poisons the driver exactly when it returns \<open>-ETIMEDOUT\<close>.
\<close>

theorem nand_timeout_poisons:
  assumes "\<not> poisoned n" and "run_state (nand_read_oob e from ops) n = ((r, ops'), n')"
  shows "poisoned n' \<longleftrightarrow> r = Inl ETIMEDOUT"
proof -
  have "poison_iff (\<lambda>x. timed_out (fst x)) (nand_read_oob e from ops)"
    unfolding nand_read_oob_def Let_def
    by (intro poison_iff_if poison_iff_return poison_nand_read_loop) simp_all
  from tripleD [OF this [unfolded poison_iff_def] assms] show ?thesis by simp
qed


definition busy_env :: nand_env where
  "busy_env = \<lparr>dev = \<lambda>_ _. 8, bch_engine = \<lambda>_ b. b, polls = 0, dma = 0\<rparr>"

definition raw_ops :: "nat \<Rightarrow> mtd_oob_ops" where
  "raw_ops k = \<lparr>ops_mode = MTD_OPS_RAW, ops_len = k, ops_ooblen = 0, ops_ooboffs = 0,
     datbuf = replicate k 0, oobbuf = [], retlen = 0, oobretlen = 0\<rparr>"

lemma busy_read:
  "fst (run_state (nand_read_oob busy_env 0 (raw_ops 4)) (nand_zero [])) =
     (Inl ETIMEDOUT, (raw_ops 4)\<lparr>retlen := 0, oobretlen := 0\<rparr>)"
  by (subst nand_read_oob_def)
    (simp add: nand_read_loop.simps [of _ _ 4] raw_ops_def read_one_def sn_page_def sn_load_page_def
      sn_tx_def sn_wait_def busy_env_def rd_def wr_def run_state_bindE nand_zero_def BIT_def)

theorem nand_timeout_poisons_witness:
  "fst (fst (run_state (nand_read_oob busy_env 0 (raw_ops 4)) (nand_zero []))) = Inl ETIMEDOUT \<and>
   poisoned (snd (run_state (nand_read_oob busy_env 0 (raw_ops 4)) (nand_zero [])))"
  using nand_timeout_poisons [of "nand_zero []" busy_env 0 "raw_ops 4"] busy_read
  by (cases "run_state (nand_read_oob busy_env 0 (raw_ops 4)) (nand_zero [])") (auto simp: nand_zero_def)

text \<open>
  C4: A poisoned driver is silent.  Any request it would otherwise serve fails with \<open>-EIO\<close>,
  delivers nothing, and touches no register, so a BCH engine that is still running is never
  triggered again.
\<close>

theorem nand_poisoned_silent:
  assumes "poisoned n" and "from < CHIP_BYTES" and "ops_len ops \<noteq> 0 \<or> ops_ooblen ops \<noteq> 0"
    and "ops_mode ops \<in> {MTD_OPS_RAW, MTD_OPS_PLACE_OOB, MTD_OPS_AUTO_OOB}"
    and "ops_ooblen ops \<noteq> 0 \<Longrightarrow> ops_ooboffs ops < 20"
  shows "run_state (nand_read_oob e from ops) n = ((Inl EIO, ops\<lparr>retlen := 0, oobretlen := 0\<rparr>), n) \<and>
         run_state (nand_isbad e pos) n = (Inl EIO, n\<lparr>bad_queries := bad_queries n + 1\<rparr>)"
proof
  have load: "run_state (sn_load_page e page) m = (Inl EIO, m)" if "poisoned m" for page m
    using that by (simp add: sn_load_page_def)
  have one: "run_state (read_one e mode page) n = (Inl EIO, n)" for mode page
    using assms(1) by (simp add: read_one_def sn_page_def run_state_bindE load)
  have "from div PAGE_BYTES < 65536" using assms(2) by auto
  then have "\<not> 65536 \<le> (of_nat (from div PAGE_BYTES) :: u32)"
    by (simp add: word_le_nat_alt unat_of_nat)
  then show "run_state (nand_read_oob e from ops) n = ((Inl EIO, ops\<lparr>retlen := 0, oobretlen := 0\<rparr>), n)"
    using assms(3-5) by (subst nand_read_oob_def) (auto simp: Let_def nand_read_loop.simps one)
  show "run_state (nand_isbad e pos) n = (Inl EIO, n\<lparr>bad_queries := bad_queries n + 1\<rparr>)"
    using assms(1) by (simp add: nand_isbad_def Let_def run_state_bindE load)
qed

theorem nand_poisoned_silent_witness:
  "run_state (nand_read_oob busy_env 2048 (raw_ops 8)) ((nand_zero [])\<lparr>poisoned := True\<rparr>) =
     ((Inl EIO, (raw_ops 8)\<lparr>retlen := 0, oobretlen := 0\<rparr>), (nand_zero [])\<lparr>poisoned := True\<rparr>)"
  by (rule nand_poisoned_silent [THEN conjunct1]) (simp_all add: raw_ops_def)

text \<open>
  C5: A read that does not fail hard is complete and within the correction budget.  If
  \<open>nand_read_oob\<close> succeeds, or reports uncorrectable data with \<open>-EBADMSG\<close>, all requested data
  and OOB bytes have been delivered; on success the reported bit flips are at most the six
  bits the code corrects; on any other error no more than requested was delivered.
\<close>

theorem nand_read_complete:
  assumes "run_state (nand_read_oob e from ops) n = ((r, ops'), n')"
  shows "(r = Inr k \<longrightarrow> k \<le> 6 \<and> retlen ops' = ops_len ops \<and> oobretlen ops' = ops_ooblen ops) \<and>
         (r = Inl EBADMSG \<longrightarrow> retlen ops' = ops_len ops \<and> oobretlen ops' = ops_ooblen ops) \<and>
         (r = Inl err \<longrightarrow> err = EINVAL \<or> retlen ops' \<le> ops_len ops \<and> oobretlen ops' \<le> ops_ooblen ops)"
proof -
  let ?avail = "if ops_mode ops = MTD_OPS_AUTO_OOB then 20 else OOB_BYTES"
  let ?loop = "nand_read_loop e ?avail (ops_len ops) (ops_ooblen ops) (from mod PAGE_BYTES) (ops_ooboffs ops)
             (of_nat (from div PAGE_BYTES)) 0 False (ops\<lparr>retlen := 0, oobretlen := 0\<rparr>)"
  consider "r = Inl EINVAL" | "run_state ?loop n = ((r, ops'), n')"
    using assms unfolding nand_read_oob_def Let_def by (auto split: if_splits)
  then show ?thesis
  proof cases
    case 2
    from nand_read_loop_lengths [OF 2] show ?thesis
      using 2 by (auto dest: nand_read_loop_bits [of 0, rotated])
  qed auto
qed



definition blank_chip :: nand_env where
  "blank_chip = \<lparr>dev = \<lambda>h r. if r = SN_RDATA \<and> map_option (drop_bit 24) (last_write h SN_WDATA) = Some 3
       then 0xa5a5a5a5 else 0, bch_engine = \<lambda>_ b. b, polls = 0, dma = 0\<rparr>"

lemma blank_chip_serves: "serves (dev blank_chip) (\<lambda>_. replicate (PAGE_BYTES + OOB_BYTES) 0xa5)"
proof -
  have byte: "ucast (drop_bit (24 - i * 8) (0xa5a5a5a5 :: u32)) = (0xa5 :: u8)" for i :: nat
  proof -
    consider "i = 0" | "i = 1" | "i = 2" | "3 \<le> i" by linarith
    then show ?thesis by cases simp_all
  qed
  show ?thesis
    unfolding serves_def blank_chip_def by (auto simp: Let_def byte nth_replicate simp del: replicate.simps)
qed


theorem nand_read_complete_witness:
  "\<exists>k ops' n'. run_state (nand_read_oob blank_chip 2046 (raw_ops 4)) ((nand_zero [])\<lparr>buf := replicate 4096 0\<rparr>) =
     ((Inr k, ops'), n') \<and> k \<le> 6 \<and> retlen ops' = 4"
proof -
  obtain k ops' n' where run: "run_state (nand_read_oob blank_chip 2046 (raw_ops 4))
      ((nand_zero [])\<lparr>buf := replicate 4096 0\<rparr>) = ((Inr k, ops'), n')"
    using nand_read_oob_raw [OF blank_chip_serves, of "(nand_zero [])\<lparr>buf := replicate 4096 0\<rparr>"
      "raw_ops 4" 2046] by (auto simp: nand_zero_def raw_ops_def simp del: replicate.simps)
  from nand_read_complete [OF this, of k] have "k \<le> 6 \<and> retlen ops' = 4"
    by (simp add: raw_ops_def)
  with run show ?thesis by blast
qed


text \<open>
  C6: Erased sectors never reach the decoder.  A sector whose 512 data bytes and 16 tag and
  BCH bytes together have at most four cleared bits is reported with exactly that number of
  bit flips, becomes all ones, leaves the data of the other sectors alone, and is handled
  without any access to the controller or the BCH engine.
\<close>

theorem bch_erased_sector:
  assumes "length (buf n) = BUF_BYTES" and "s < 4"
    and "zero_bits (slice (s * 512) 512 (buf n)) + zero_bits (sector_tag s (buf n)) = k" and "k \<le> 4"
  shows "\<exists>n'. run_state (bch_sector e s) n = (Inr (Some k), n') \<and> trace n' = trace n \<and>
     corrected n' = corrected n + of_nat k \<and>
     slice (s * 512) 512 (buf n') = replicate 512 0xff \<and>
     (\<forall>t < 4. t \<noteq> s \<longrightarrow> slice (t * 512) 512 (buf n') = slice (t * 512) 512 (buf n))"
proof -
  let ?b = "copy_tag_out s (buf n)"
  note copy = copy_tag_out_spec [OF assms(1,2)]
  have data: "slice (t * 512) 512 ?b = slice (t * 512) 512 (buf n)" if "t < 4" for t
    using that by (intro copy(3)) simp
  have lens: "length (slice (s * 512) 512 (buf n)) = 512" "length (sector_tag s (buf n)) = 16"
    using assms(1,2) by (simp_all add: sector_tag_def)
  have "erased_sector (slice (s * 512) 512 ?b) (slice SCRATCH_OFF 16 ?b) = int k"
    using assms(2-4) lens by (simp add: data copy(2) erased_sector_def zero_bits_def Let_def)
  then have "run_state (bch_sector e s) n =
      (Inr (Some k), count_corrected k (n\<lparr>buf := fill_erased s ?b\<rparr>))"
    by (simp add: bch_sector_def)
  with fill_erased_spec [OF copy(1) assms(2)] data assms(2) show ?thesis
    by (simp add: count_corrected_def)
qed

theorem bch_erased_sector_witness:
  "\<exists>n'. run_state (bch_sector busy_env 1) ((nand_zero [])\<lparr>buf := replicate 4096 0xff\<rparr>) = (Inr (Some 0), n') \<and>
     trace n' = [] \<and> slice 512 512 (buf n') = replicate 512 0xff"
proof -
  let ?n = "(nand_zero [])\<lparr>buf := replicate 4096 0xff\<rparr>"
  have "zero_bits (slice (1 * 512) 512 (buf ?n)) + zero_bits (sector_tag 1 (buf ?n)) = 0"
    by (simp add: zero_bits_def sector_tag_def slice_def hweight8_eq_0_iff sum_list_replicate
        del: replicate.simps)
  from bch_erased_sector [OF _ _ this, of busy_env] show ?thesis
    by (auto simp: nand_zero_def simp del: replicate.simps)
qed



text \<open>
  The stock partition table tiles the chip.  The partitions start at offset 0, each
  begins where the one before it ends, the last ends at the chip's 128 MiB, every border is
  an erase block border, and every partition is masked read-only.
\<close>

theorem stock_parts_tile:
  "map part_offset stock_parts = butlast (scanl_sizes 0 (map part_size stock_parts)) \<and>
   last (scanl_sizes 0 (map part_size stock_parts)) = CHIP_BYTES \<and>
   list_all (\<lambda>p. BLOCK_BYTES dvd part_offset p \<and> BLOCK_BYTES dvd part_size p \<and>
     0 < part_size p \<and> part_writeable_masked p) stock_parts"
  by (simp add: stock_parts_def)

end
