(* ===== verification/Boot_Leds.thy ===== *)
theory Boot_Leds
  imports Bsp_Prelude
begin

text \<open>
  The boot LED sequence (\<open>arch/mips/rtl9607c/leds-boot.c\<close>): a delayed work item that flashes
  the LEDs once, turns them off, then blinks the first one until userspace reports ready.
  The work item, the sysfs writes and the removal of the device interleave freely, as a step
  relation.
\<close>

section \<open>State and operations\<close>

datatype brightness = LED_OFF | LED_FULL

text \<open>
  \<open>led\<close> is the brightness last set on each of the seven LEDs, if any; \<open>pending\<close> is the delay in
  milliseconds of the scheduled work item.
\<close>

record phoebus_boot_leds =
  led :: "brightness option list"
  pending :: "nat option"
  phase :: u32
  ready :: bool
  on :: bool

definition led_set_brightness_sync :: "nat \<Rightarrow> brightness \<Rightarrow> phoebus_boot_leds \<Rightarrow> phoebus_boot_leds" where
  "led_set_brightness_sync i v boot = boot\<lparr>led := (led boot)[i := Some v]\<rparr>"

text \<open>The loop over all LEDs, which runs in the first two phases.\<close>

definition flash_leds :: "phoebus_boot_leds \<Rightarrow> phoebus_boot_leds" where
  "flash_leds boot = fold (\<lambda>i. led_set_brightness_sync i
      (if phase boot = 0 \<and> i \<noteq> 5 then LED_FULL else LED_OFF)) [0..<length (led boot)] boot"

definition boot_led_work :: "phoebus_boot_leds \<Rightarrow> phoebus_boot_leds" where
  "boot_led_work boot =
     (if phase boot < 2 then
        (let boot = flash_leds boot in boot\<lparr>phase := phase boot + 1, pending := Some 300\<rparr>)
      else if ready boot then
        (led_set_brightness_sync 0 LED_FULL boot)\<lparr>phase := 3, pending := None\<rparr>
      else
        (let boot = boot\<lparr>on := \<not> on boot\<rparr>;
             boot = led_set_brightness_sync 0 (if on boot then LED_FULL else LED_OFF) boot
         in boot\<lparr>pending := Some 250\<rparr>))"

text \<open>\<open>kstrtobool\<close> is a parameter: nothing when the text is not a truth value.\<close>

definition userspace_ready_store :: "(string \<Rightarrow> bool option) \<Rightarrow> string \<Rightarrow> phoebus_boot_leds
    \<Rightarrow> (errno + nat) \<times> phoebus_boot_leds" where
  "userspace_ready_store kstrtobool buf boot =
     (if kstrtobool buf = None \<or> kstrtobool buf = Some False then (Inl EINVAL, boot)
      else (Inr (length buf), boot\<lparr>ready := True\<rparr>))"

definition userspace_ready_show :: "phoebus_boot_leds \<Rightarrow> bool" where
  "userspace_ready_show boot = ready boot"

definition phase_show :: "phoebus_boot_leds \<Rightarrow> u32" where
  "phase_show boot = phase boot"

definition boot_led_cancel :: "phoebus_boot_leds \<Rightarrow> phoebus_boot_leds" where
  "boot_led_cancel boot = boot\<lparr>pending := None\<rparr>"

text \<open>
  Probing: \<open>alloc\<close> says whether the allocation succeeds, \<open>of_led i\<close> is the error of looking up
  LED \<open>i\<close> and \<open>action\<close> the result of registering the cleanup, which runs at once on failure.
\<close>

fun get_leds :: "(nat \<Rightarrow> errno option) \<Rightarrow> nat list \<Rightarrow> errno option" where
  "get_leds of_led [] = None"
| "get_leds of_led (i # is) = (case of_led i of Some e \<Rightarrow> Some e | None \<Rightarrow> get_leds of_led is)"

definition boot_led_probe :: "bool \<Rightarrow> (nat \<Rightarrow> errno option) \<Rightarrow> errno option \<Rightarrow> errno + phoebus_boot_leds" where
  "boot_led_probe alloc of_led action =
     (if \<not> alloc then Inl ENOMEM
      else case get_leds of_led [0..<7] of Some e \<Rightarrow> Inl e
        | None \<Rightarrow> (case action of Some e \<Rightarrow> Inl e
          | None \<Rightarrow> Inr \<lparr>led = replicate 7 None, pending = Some 0, phase = 0, ready = False, on = False\<rparr>))"

section \<open>Interleavings\<close>

inductive boot_step :: "(string \<Rightarrow> bool option) \<Rightarrow> phoebus_boot_leds \<Rightarrow> phoebus_boot_leds \<Rightarrow> bool" for k where
  work: "pending b = Some ms \<Longrightarrow> boot_step k b (boot_led_work b)"
| store: "boot_step k b (snd (userspace_ready_store k buf b))"
| cancel: "boot_step k b (boot_led_cancel b)"

inductive boot_reach :: "(string \<Rightarrow> bool option) \<Rightarrow> phoebus_boot_leds \<Rightarrow> bool" for k where
  probed: "boot_led_probe True of_led None = Inr b \<Longrightarrow> boot_reach k b"
| stepped: "boot_reach k b \<Longrightarrow> boot_step k b b' \<Longrightarrow> boot_reach k b'"

inductive_simps boot_step_iff: "boot_step k b b'"
inductive_cases boot_reachE: "boot_reach k b"

text \<open>What holds in each phase.\<close>

definition phase_inv :: "phoebus_boot_leds \<Rightarrow> bool" where
  "phase_inv b \<longleftrightarrow>
     phase b = 0 \<and> pending b \<in> {Some 0, None} \<and> led b = replicate 7 None \<and> \<not> on b
   \<or> phase b = 1 \<and> pending b \<in> {Some 300, None} \<and> \<not> on b
       \<and> led b = map (\<lambda>i. Some (if i = 5 then LED_OFF else LED_FULL)) [0..<7]
   \<or> phase b = 2 \<and> pending b \<in> {Some 300, Some 250, None}
       \<and> led b = Some (if on b then LED_FULL else LED_OFF) # replicate 6 (Some LED_OFF)
   \<or> phase b = 3 \<and> pending b = None \<and> ready b \<and> led b = Some LED_FULL # replicate 6 (Some LED_OFF)"

lemma led_fold:
  "n \<le> length (led b) \<Longrightarrow> fold (\<lambda>i. led_set_brightness_sync i (f i)) [0..<n] b =
     b\<lparr>led := map (\<lambda>i. Some (f i)) [0..<n] @ drop n (led b)\<rparr>"
proof (induction n)
  case (Suc n)
  then show ?case
    by (simp add: led_set_brightness_sync_def list_update_append Cons_nth_drop_Suc [symmetric])
qed simp

lemma flash_leds_eq:
  "flash_leds b = b\<lparr>led := map (\<lambda>i. Some (if phase b = 0 \<and> i \<noteq> 5 then LED_FULL else LED_OFF)) [0..<length (led b)]\<rparr>"
  by (simp add: flash_leds_def led_fold)

lemma phase_inv_work:
  assumes "phase_inv b" and "pending b = Some ms"
  shows "phase_inv (boot_led_work b)"
proof -
  consider (flash) "phase b = 0" "length (led b) = 7" "\<not> on b"
    | (dark) "phase b = 1" "length (led b) = 7" "\<not> on b"
    | (blink) "phase b = 2" "led b = Some (if on b then LED_FULL else LED_OFF) # replicate 6 (Some LED_OFF)"
    using assms by (auto simp: phase_inv_def)
  then show ?thesis
  proof cases
    case flash
    then show ?thesis by (simp add: boot_led_work_def flash_leds_eq phase_inv_def)
  next
    case dark
    then show ?thesis by (simp add: boot_led_work_def flash_leds_eq phase_inv_def numeral_eq_Suc)
  next
    case blink
    then show ?thesis by (simp add: boot_led_work_def led_set_brightness_sync_def Let_def phase_inv_def)
  qed
qed

lemma phase_inv_ready: "phase_inv b \<Longrightarrow> phase_inv (b\<lparr>ready := True\<rparr>)"
  unfolding phase_inv_def by (elim disjE) simp_all

lemma phase_inv_step: "boot_step k b b' \<Longrightarrow> phase_inv b \<Longrightarrow> phase_inv b'"
proof (induction rule: boot_step.induct)
  case (work b ms)
  then show ?case by (simp add: phase_inv_work)
next
  case (store b buf)
  then show ?case by (simp add: phase_inv_ready userspace_ready_store_def)
next
  case (cancel b)
  then show ?case by (auto simp: phase_inv_def boot_led_cancel_def)
qed

lemma phase_inv_probe: "boot_led_probe a of_led act = Inr b \<Longrightarrow> phase_inv b"
  by (auto simp: boot_led_probe_def phase_inv_def split: if_splits option.splits)

lemma phase_inv_reach: "boot_reach k b \<Longrightarrow> phase_inv b"
  by (induction rule: boot_reach.induct) (auto intro: phase_inv_probe phase_inv_step)

section \<open>Properties\<close>

lemma work_flash: "phase b < 2 \<Longrightarrow> phase (boot_led_work b) = phase b + 1 \<and> pending (boot_led_work b) \<noteq> None
    \<and> ready (boot_led_work b) = ready b"
  by (simp add: boot_led_work_def flash_leds_eq Let_def)

lemma work_ready: "phase b = 2 \<Longrightarrow> ready b \<Longrightarrow> phase (boot_led_work b) = 3 \<and> pending (boot_led_work b) = None"
  by (simp add: boot_led_work_def led_set_brightness_sync_def)

text \<open>
  C15: however the work item, the sysfs writes and a cancellation interleave, the sixth LED is
  never lit, the phase is at most three, and in the last phase userspace has reported ready,
  no work is scheduled and exactly the first LED is lit.
\<close>

theorem boot_leds_safe:
  assumes "boot_reach k b"
  shows "led b ! 5 \<noteq> Some LED_FULL \<and> phase b \<le> 3
    \<and> (phase b = 3 \<longrightarrow> ready b \<and> pending b = None \<and> led b = Some LED_FULL # replicate 6 (Some LED_OFF))"
  using phase_inv_reach [OF assms] unfolding phase_inv_def by (elim disjE) (simp_all add: nth_Cons')

lemma reach_work: "boot_reach k b \<Longrightarrow> pending b \<noteq> None \<Longrightarrow> boot_reach k (boot_led_work b)"
  by (auto intro: boot_reach.stepped boot_step.work)

lemma reach_first:
  "boot_reach k \<lparr>led = replicate 7 None, pending = Some 0, phase = 0, ready = False, on = False\<rparr>"
  by (rule boot_reach.probed [where of_led = "\<lambda>_. None"])
    (simp add: boot_led_probe_def upt_rec)

theorem boot_leds_safe_witness:
  "led (boot_led_work \<lparr>led = replicate 7 None, pending = Some 0, phase = 0, ready = False, on = False\<rparr>) ! 5
     \<noteq> Some LED_FULL"
  using boot_leds_safe [OF reach_work [OF reach_first [of "\<lambda>_. None"]]] by simp

text \<open>
  C16: once userspace has reported ready and the work item is scheduled, at most three further
  runs of the work item reach the final phase and stop it; until then it keeps rescheduling
  itself.
\<close>

theorem boot_leds_finish:
  assumes "boot_reach k b" and "ready b" and "pending b \<noteq> None"
  shows "\<exists>n\<le>3. phase ((boot_led_work ^^ n) b) = 3 \<and> pending ((boot_led_work ^^ n) b) = None
    \<and> (\<forall>m<n. pending ((boot_led_work ^^ m) b) \<noteq> None)"
proof -
  consider "phase b = 2" | "phase b = 1" | "phase b = 0"
    using phase_inv_reach [OF assms(1)] assms(3) by (auto simp: phase_inv_def)
  then show ?thesis
  proof cases
    case 1
    with assms show ?thesis
      by (intro exI [of _ 1]) (auto simp: work_ready)
  next
    case 2
    with assms work_flash [of b] show ?thesis
      by (intro exI [of _ 2]) (auto simp: work_ready less_Suc_eq numeral_2_eq_2)
  next
    case 3
    with assms work_flash [of b] work_flash [of "boot_led_work b"] show ?thesis
      by (intro exI [of _ 3]) (auto simp: work_ready less_Suc_eq numeral_3_eq_3)
  qed
qed

lemma reach_ready:
  "boot_reach (\<lambda>_. Some True) \<lparr>led = replicate 7 None, pending = Some 0, phase = 0, ready = True, on = False\<rparr>"
  using boot_reach.stepped [OF reach_first boot_step.store [of "\<lambda>_. Some True" _ "''1''"]]
  by (simp add: userspace_ready_store_def)

theorem boot_leds_finish_witness:
  "\<exists>n\<le>3. phase ((boot_led_work ^^ n)
      \<lparr>led = replicate 7 None, pending = Some 0, phase = 0, ready = True, on = False\<rparr>) = 3"
  using boot_leds_finish [OF reach_ready] by auto

end
