(* ===== verification/Platform.thy ===== *)
theory Platform
  imports Bsp_Prelude
begin

text \<open>
  Board support of the RTL9607C (\<open>arch/mips/rtl9607c/setup.c\<close> and \<open>hwmon.c\<close>): the reboot
  reason kept in a register that survives a reset, the memory regions announced to the
  kernel at boot, and the temperature sensor.
\<close>

section \<open>Reboot reason\<close>

definition STICK_REGISTER :: u32 where
  "STICK_REGISTER = 0xb800121c"

definition reason_mapping :: "u32 list" where
  "reason_mapping = [0xb, 0xa, 0xc, 0xd, 0x9]"

definition set_reboot_reason_07c :: "int \<Rightarrow> ((u32, 'z) bus_scheme, unit) state" where
  "set_reboot_reason_07c reason =
     (if 0 \<le> reason \<and> reason < int (length reason_mapping)
      then reg_wr STICK_REGISTER (reason_mapping ! nat reason)
      else State_Monad.return ())"

text \<open>The search loop of \<open>__07c_get_reboot_reason\<close>, from index \<open>i\<close> on.\<close>

fun find_reason :: "u32 \<Rightarrow> u32 list \<Rightarrow> int \<Rightarrow> int" where
  "find_reason val [] i = - 1"
| "find_reason val (m # ms) i = (if m = val then i else find_reason val ms (i + 1))"

definition get_reboot_reason_07c :: "u32 device \<Rightarrow> ((u32, 'z) bus_scheme, int) state" where
  "get_reboot_reason_07c d = do {
     val \<leftarrow> reg_rd d STICK_REGISTER;
     State_Monad.return (find_reason val reason_mapping 0) }"

text \<open>\<open>gcr\<close> says whether \<open>mips_gcr_base\<close> is set, which tells this SoC from older ones.\<close>

definition rtk_soc_reboot_reason_set :: "bool \<Rightarrow> int \<Rightarrow> ((u32, 'z) bus_scheme, unit) state" where
  "rtk_soc_reboot_reason_set gcr reason =
     (if gcr then set_reboot_reason_07c reason else State_Monad.return ())"

definition rtk_soc_reboot_reason_get :: "u32 device \<Rightarrow> bool \<Rightarrow> ((u32, 'z) bus_scheme, int) state" where
  "rtk_soc_reboot_reason_get d gcr =
     (if gcr then get_reboot_reason_07c d else State_Monad.return (- 1))"

section \<open>Restart and halt\<close>

text \<open>
  The functions that other drivers may provide in place of the weak empty ones, as actions on the
  registers.
\<close>

record restart_hooks =
  force_stop_wlan_hw :: "(u32 bus, unit) state"
  rtk_pcie_host_shutdown :: "(u32 bus, unit) state"
  rtk_nand_reset :: "(u32 bus, unit) state"

definition plat_pcie_shutdown :: "restart_hooks \<Rightarrow> (u32 bus, unit) state" where
  "plat_pcie_shutdown k = do {
     reg_wr 0xb8005240 0xf0000000;
     reg_wr 0xb8005260 0xf0000000;
     rtk_pcie_host_shutdown k }"

text \<open>The first \<open>n\<close> rounds of the endless loop that triggers the watchdog reset.\<close>

fun restart_rounds :: "nat \<Rightarrow> (u32 bus, unit) state" where
  "restart_rounds 0 = State_Monad.return ()"
| "restart_rounds (Suc n) = do { reg_wr 0xb8003268 (BIT 31); restart_rounds n }"

definition plat_machine_restart :: "restart_hooks \<Rightarrow> nat \<Rightarrow> (u32 bus, unit) state" where
  "plat_machine_restart k n = do {
     force_stop_wlan_hw k;
     plat_pcie_shutdown k;
     rtk_nand_reset k;
     restart_rounds n }"

text \<open>What a halt does before it loops forever.\<close>

definition plat_machine_halt :: "restart_hooks \<Rightarrow> (u32 bus, unit) state" where
  "plat_machine_halt k = do {
     force_stop_wlan_hw k;
     plat_pcie_shutdown k;
     rtk_nand_reset k }"

section \<open>Memory regions\<close>

text \<open>The calls \<open>plat_mem_setup\<close> makes into the kernel, in order.\<close>

datatype plat_call =
    Dt_setup_arch
  | Early_init_dt_scan_memory
  | Memblock_add nat nat
  | Rtk_core_init

record plat_res =
  ioport_resource :: "nat \<times> nat"
  iomem_resource :: "nat \<times> nat"

text \<open>A flattened device tree as \<open>of_scan_flat_dt\<close> walks it: the depth and name of each node.\<close>

type_synonym dt_nodes = "(nat \<times> string) list"

fun early_init_dt_find_memory :: "nat \<times> string \<Rightarrow> bool \<Rightarrow> bool" where
  "early_init_dt_find_memory (depth, uname) memory_dtb =
     (memory_dtb \<or> (depth = 1 \<and> uname = ''memory@0''))"

definition SZ_LOWMEM :: nat where
  "SZ_LOWMEM = 320 * 2 ^ 20"

definition plat_mem_setup :: "dt_nodes \<Rightarrow> nat \<Rightarrow> bool \<Rightarrow> nat \<Rightarrow> plat_res \<times> plat_call list" where
  "plat_mem_setup dt cpu_mem_size highmem HIGHMEM_START =
     (\<lparr>ioport_resource = (0x14000000, 0x1fffffff), iomem_resource = (0x14000000, 0x1fffffff)\<rparr>,
      [Dt_setup_arch] @
      (if fold early_init_dt_find_memory dt False then [Early_init_dt_scan_memory]
       else if cpu_mem_size \<le> SZ_LOWMEM then [Memblock_add 0 cpu_mem_size]
       else Memblock_add 0 SZ_LOWMEM #
         (if highmem then [Memblock_add HIGHMEM_START (cpu_mem_size - SZ_LOWMEM)] else [])) @
      [Rtk_core_init])"

fun memblocks :: "plat_call list \<Rightarrow> (nat \<times> nat) list" where
  "memblocks [] = []"
| "memblocks (Memblock_add b n # cs) = (b, n) # memblocks cs"
| "memblocks (_ # cs) = memblocks cs"

section \<open>Temperature sensor\<close>

datatype hwmon_sensor_types = hwmon_temp | hwmon_other nat
datatype hwmon_attr = hwmon_temp_input | hwmon_temp_label | hwmon_attr_other nat

definition phoebus_visible :: "hwmon_sensor_types \<Rightarrow> hwmon_attr \<Rightarrow> nat \<Rightarrow> nat" where
  "phoebus_visible type attr channel =
     (if type = hwmon_temp \<and> (attr = hwmon_temp_input \<or> attr = hwmon_temp_label) then 292 else 0)"

text \<open>
  \<open>thermal\<close> is the outcome of \<open>dal_dal9607c_switch_thermal_get\<close>: nothing when it fails, the
  integer and fraction parts otherwise.
\<close>

definition phoebus_read :: "(32 word \<times> 32 word) option \<Rightarrow> hwmon_sensor_types \<Rightarrow> hwmon_attr \<Rightarrow> int
    \<Rightarrow> errno + int" where
  "phoebus_read thermal type attr channel =
     (if type \<noteq> hwmon_temp \<or> attr \<noteq> hwmon_temp_input \<or> channel \<noteq> 0 then Inl EOPNOTSUPP
      else case thermal of None \<Rightarrow> Inl EAGAIN
        | Some (integer, fraction) \<Rightarrow>
            let micro = (scast integer * 1000000 + scast fraction :: 64 word)
            in if sint micro < - 100000000 \<or> sint micro > 250000000 then Inl ERANGE
               else Inr (c_div (sint micro) 1000))"

definition phoebus_read_string :: "hwmon_sensor_types \<Rightarrow> hwmon_attr \<Rightarrow> int \<Rightarrow> errno + string" where
  "phoebus_read_string type attr channel =
     (if type \<noteq> hwmon_temp \<or> attr \<noteq> hwmon_temp_label \<or> channel \<noteq> 0 then Inl EOPNOTSUPP
      else Inr ''SoC Temperature'')"

section \<open>Properties\<close>

lemma find_reason_nth:
  "distinct ms \<Longrightarrow> k < length ms \<Longrightarrow> find_reason (ms ! k) ms i = i + int k"
proof (induction ms arbitrary: k i)
  case (Cons m ms)
  then show ?case by (cases k) (auto simp: in_set_conv_nth)
qed simp

lemma distinct_reason_mapping: "distinct reason_mapping"
  by (simp add: reason_mapping_def)

lemma sint_scast_up: "sint (scast (w :: 32 word) :: 64 word) = sint w"
proof -
  have "sint (scast w :: 64 word) = signed_take_bit 63 (sint w)"
    by transfer simp
  also have "\<dots> = sint w"
    using sint_ge [of w] sint_lt [of w] by (intro signed_take_bit_int_eq_self) simp_all
  finally show ?thesis .
qed

text \<open>The 64 bit arithmetic of the sensor cannot wrap around.\<close>

lemma sint_micro:
  "sint (scast (i :: 32 word) * 1000000 + scast (f :: 32 word) :: 64 word) = sint i * 1000000 + sint f"
proof -
  have mul: "sint (scast i * 1000000 :: 64 word) = sint i * 1000000"
    using sint_ge [of i] sint_lt [of i]
    by (simp add: sint_word_ariths sint_scast_up signed_take_bit_int_eq_self)
  show ?thesis
    using sint_ge [of i] sint_lt [of i] sint_ge [of f] sint_lt [of f]
    by (simp add: sint_word_ariths(1) mul sint_scast_up signed_take_bit_int_eq_self)
qed

lemma c_div_near: "0 < b \<Longrightarrow> \<bar>b * c_div a b - a\<bar> < b"
proof -
  assume b: "0 < b"
  have "\<bar>b * (\<bar>a\<bar> div b) - \<bar>a\<bar>\<bar> < b"
    using b pos_mod_bound [of b "\<bar>a\<bar>"] pos_mod_sign [of b "\<bar>a\<bar>"]
    by (simp add: minus_mod_eq_mult_div [symmetric])
  then show ?thesis
    using b by (cases "a < 0") (auto simp: c_div_def sgn_if)
qed

lemma c_div_mono_bounds:
  "0 < b \<Longrightarrow> - (b * m) \<le> a \<Longrightarrow> a \<le> b * n \<Longrightarrow> 0 \<le> m \<Longrightarrow> 0 \<le> n \<Longrightarrow> - m \<le> c_div a b \<and> c_div a b \<le> n"
proof -
  assume a: "0 < b" "- (b * m) \<le> a" "a \<le> b * n" "0 \<le> m" "0 \<le> n"
  have neg: "- a div b \<le> m" if "a < 0"
    using a zdiv_mono1 [of "- a" "b * m" b] by simp
  have pos: "a div b \<le> n" if "0 \<le> a"
    using a zdiv_mono1 [of a "b * n" b] by simp
  show ?thesis
    using a neg pos pos_imp_zdiv_nonneg_iff [of b a] pos_imp_zdiv_nonneg_iff [of b "- a"]
    by (cases "a < 0") (auto simp: c_div_def sgn_if)
qed

text \<open>An action that leaves the value of a register alone.\<close>

definition leaves :: "u32 \<Rightarrow> (u32 bus, unit) state \<Rightarrow> bool" where
  "leaves r m \<longleftrightarrow> (\<forall>s. last_write (io (snd (run_state m s))) r = last_write (io s) r)"

definition hooks_leave :: "u32 \<Rightarrow> restart_hooks \<Rightarrow> bool" where
  "hooks_leave r k \<longleftrightarrow> leaves r (force_stop_wlan_hw k) \<and> leaves r (rtk_pcie_host_shutdown k) \<and> leaves r (rtk_nand_reset k)"

lemma leaves_bind: "leaves r m \<Longrightarrow> leaves r k \<Longrightarrow> leaves r (do { m; k })"
  by (simp add: leaves_def split_beta)

lemma leaves_return: "leaves r (State_Monad.return ())"
  by (simp add: leaves_def)

lemma leaves_wr: "r' \<noteq> r \<Longrightarrow> leaves r (reg_wr r' v)"
  by (simp add: leaves_def)

lemma leaves_rounds: "leaves STICK_REGISTER (restart_rounds n)"
  by (induction n) (auto intro!: leaves_bind leaves_wr leaves_return simp: STICK_REGISTER_def)

lemma leaves_restart: "hooks_leave STICK_REGISTER k \<Longrightarrow> leaves STICK_REGISTER (plat_machine_restart k n)"
  unfolding plat_machine_restart_def plat_pcie_shutdown_def hooks_leave_def
  by (auto intro!: leaves_bind leaves_wr leaves_rounds [unfolded STICK_REGISTER_def] simp: STICK_REGISTER_def)

text \<open>
  C12: on a SoC whose sticky register reads back what was written, a supported reboot reason
  set before a restart is the one reported afterwards, however long the reset takes; an
  unsupported one leaves the register alone.
\<close>

theorem reboot_reason_roundtrip:
  assumes "holds_value d STICK_REGISTER" and "hooks_leave STICK_REGISTER k"
  shows "if 0 \<le> reason \<and> reason < 5
    then fst (run_state (do { rtk_soc_reboot_reason_set True reason; plat_machine_restart k n; rtk_soc_reboot_reason_get d True }) s) = reason
    else run_state (rtk_soc_reboot_reason_set True reason) s = ((), s)"
proof -
  have len: "length reason_mapping = 5" by (simp add: reason_mapping_def)
  have kept: "last_write (io (snd (run_state (plat_machine_restart k n) s))) STICK_REGISTER = last_write (io s) STICK_REGISTER" for s
    using leaves_restart [OF assms(2)] by (simp add: leaves_def)
  have "d (io (snd (run_state (plat_machine_restart k n) (s\<lparr>io := Wr STICK_REGISTER v # io s\<rparr>)))) STICK_REGISTER = v" for v
    by (rule holds_valueD [OF assms(1)]) (simp add: kept)
  then show ?thesis
    using find_reason_nth [OF distinct_reason_mapping, of "nat reason" 0]
    by (auto simp: len rtk_soc_reboot_reason_set_def rtk_soc_reboot_reason_get_def split_beta
        set_reboot_reason_07c_def get_reboot_reason_07c_def)
qed

text \<open>The weak functions of the file itself.\<close>

definition weak_hooks :: restart_hooks where
  "weak_hooks = \<lparr>force_stop_wlan_hw = State_Monad.return (), rtk_pcie_host_shutdown = State_Monad.return (),
     rtk_nand_reset = State_Monad.return ()\<rparr>"

lemma weak_hooks_leave: "hooks_leave r weak_hooks"
  by (simp add: hooks_leave_def weak_hooks_def leaves_return)

lemma holds_value_last: "holds_value (\<lambda>h r. case last_write h r of Some v \<Rightarrow> v | None \<Rightarrow> x) r"
  by (simp add: holds_value_def)

theorem reboot_reason_roundtrip_witness:
  "fst (run_state (do { rtk_soc_reboot_reason_set True 3; plat_machine_restart weak_hooks 2;
       rtk_soc_reboot_reason_get (\<lambda>h r. case last_write h r of Some v \<Rightarrow> v | None \<Rightarrow> 0) True })
     \<lparr>io = []\<rparr>) = 3"
  using reboot_reason_roundtrip [OF holds_value_last [of 0] weak_hooks_leave, of 3 2 "\<lparr>io = []\<rparr>"] by simp

lemma fold_find_memory:
  "fold early_init_dt_find_memory dt b \<longleftrightarrow> b \<or> (1, ''memory@0'') \<in> set dt"
proof (induction dt arbitrary: b)
  case (Cons n dt)
  then show ?case by (cases n) (simp add: eq_commute disj_assoc)
qed simp

text \<open>
  C13: when the device tree does not describe memory, the regions announced to the kernel stay
  clear of the I/O window \<open>0x14000000 \<dots> 0x1fffffff\<close> and add up to the installed memory (with high
  memory support; to at most 320 MiB without), provided high memory starts above the window.
\<close>

theorem plat_mem_setup_regions:
  assumes "(1, ''memory@0'') \<notin> set dt" and "0x20000000 \<le> HIGHMEM_START"
    and "plat_mem_setup dt cpu_mem_size highmem HIGHMEM_START = (res, calls)"
  shows "list_all (\<lambda>(b, n). b + n \<le> fst (iomem_resource res) \<or> snd (iomem_resource res) < b) (memblocks calls)
    \<and> sum_list (map snd (memblocks calls)) = (if highmem then cpu_mem_size else min cpu_mem_size SZ_LOWMEM)"
proof -
  have "\<not> fold early_init_dt_find_memory dt False"
    using assms(1) by (simp add: fold_find_memory)
  then show ?thesis
    using assms(2,3) by (cases "cpu_mem_size \<le> SZ_LOWMEM"; cases highmem)
      (auto simp: plat_mem_setup_def SZ_LOWMEM_def)
qed

theorem plat_mem_setup_regions_witness:
  "list_all (\<lambda>(b, n). b + n \<le> 0x14000000 \<or> 0x1fffffff < b)
     (memblocks (snd (plat_mem_setup [(0, ''''), (1, ''cpus'')] (512 * 2 ^ 20) True 0x20000000)))"
  using plat_mem_setup_regions [where dt = "[(0, ''''), (1, ''cpus'')]" and HIGHMEM_START = "0x20000000"
      and cpu_mem_size = "512 * 2 ^ 20" and highmem = True, OF _ _ surjective_pairing]
  by (simp add: plat_mem_setup_def)

text \<open>
  C14: the temperature read is the exact value of the sensor in milli-degrees, rounded towards
  zero, whatever 32 bit integer and fraction the sensor reports: the 64 bit arithmetic does not
  wrap, values outside \<open>-100 \<dots> 250\<close> degrees are refused, and every other attribute is unsupported.
\<close>

theorem phoebus_read_correct:
  "phoebus_read thermal type attr channel =
     (if (type, attr, channel) \<noteq> (hwmon_temp, hwmon_temp_input, 0) then Inl EOPNOTSUPP
      else case thermal of None \<Rightarrow> Inl EAGAIN
        | Some (i, f) \<Rightarrow>
            if sint i * 1000000 + sint f \<in> {- 100000000..250000000}
            then Inr (c_div (sint i * 1000000 + sint f) 1000) else Inl ERANGE)
   \<and> (case phoebus_read (Some (i, f)) hwmon_temp hwmon_temp_input 0 of Inl e \<Rightarrow> e = ERANGE
        | Inr v \<Rightarrow> - 100000 \<le> v \<and> v \<le> 250000 \<and> \<bar>1000 * v - (sint i * 1000000 + sint f)\<bar> < 1000)"
  (is "?A \<and> ?B")
proof
  show ?A by (auto simp: phoebus_read_def sint_micro Let_def split: option.splits prod.splits)
  show ?B
    using c_div_mono_bounds [of 1000 100000 "sint i * 1000000 + sint f" 250000]
    by (auto simp: phoebus_read_def sint_micro Let_def c_div_near)
qed

end
