(* ===== verification/Watchdog.thy ===== *)
theory Watchdog
  imports Platform
begin

text \<open>
  The watchdog driver (\<open>arch/mips/rtl9607c/luna_watchdog.c\<close>): one thread per CPU reports that
  its CPU is alive, the thread of CPU 0 kicks the hardware when all of them have, and the
  files under \<open>/proc/luna_watchdog\<close> switch the watchdog and set its timeouts.
\<close>

section \<open>State and environment\<close>

text \<open>A pointer to a task: NULL, an encoded error, or a task.\<close>

datatype task_ptr = Null | Err_ptr errno | Task nat

datatype thread_fn = Luna_watchdog_thread | Watchdog_timeout_thread

record kthread =
  kt_fn :: thread_fn
  kt_cpu :: "nat option"
  kt_awake :: bool

text \<open>
  The globals of the file.  \<open>threads\<close> holds the kernel threads that exist, by number of their
  creation; \<open>created\<close> counts the calls of \<open>kthread_create\<close>.
\<close>

record wdt = "u32 bus" +
  watchdog_flag :: u32
  kick_wdg_time :: u32
  wdg_timeout :: u32
  wdg_timeout_ph2 :: u32
  wdg_clk_sc :: u32
  wdg_rest_mode :: u32
  debug_mask :: u32
  pWatchdogTask :: "nat \<Rightarrow> task_ptr"
  wtd_count :: "nat \<Rightarrow> bool"
  threads :: "nat \<Rightarrow> kthread option"
  created :: nat

text \<open>
  What the driver takes from elsewhere: the hardware, the online CPUs, the outcome of each
  \<open>kthread_create\<close> (\<open>None\<close> is success), whether \<open>mips_gcr_base\<close> is set, \<open>simple_strtoul\<close>, and
  the register addresses and bit fields of \<open>bspchip.h\<close>.
\<close>

record wdt_env =
  wdev :: "u32 device"
  online_cpus :: "nat list"
  kfail :: "nat \<Rightarrow> errno option"
  gcr_base :: bool
  simple_strtoul :: "string \<Rightarrow> nat \<Rightarrow> u32"
  BSP_WDTCTRLR :: u32
  BSP_WDTCNTRR :: u32
  BSP_WDTINTRR :: u32
  WDT_E :: u32
  WDT_KICK :: u32
  WDT_PH12_TO_MSK :: u32
  WDT_PH1_TO_SHIFT :: nat
  WDT_PH2_TO_SHIFT :: nat
  WDT_CLK_SC_SHIFT :: nat

definition NR_CPUS :: nat where
  "NR_CPUS = 4"

type_synonym 'a wdt_m = "(wdt, 'a) state"

text \<open>The values of the build configuration.\<close>

definition wdt_boot :: wdt where
  "wdt_boot = \<lparr>io = [], watchdog_flag = 0, kick_wdg_time = 5, wdg_timeout = 31, wdg_timeout_ph2 = 0,
     wdg_clk_sc = 3, wdg_rest_mode = 0, debug_mask = 0, pWatchdogTask = (\<lambda>_. Null),
     wtd_count = (\<lambda>_. False), threads = (\<lambda>_. None), created = 0\<rparr>"

section \<open>Kernel threads\<close>

text \<open>
  The kernel's interface, as far as the driver relies on it: creation yields a task or an
  error pointer, never NULL; the other calls dereference their argument.
\<close>

definition kthread_create :: "wdt_env \<Rightarrow> thread_fn \<Rightarrow> task_ptr wdt_m" where
  "kthread_create e fn = do {
     k \<leftarrow> gets created;
     modify (\<lambda>s. s\<lparr>created := created s + 1\<rparr>);
     case kfail e k of
       Some err \<Rightarrow> State_Monad.return (Err_ptr err)
     | None \<Rightarrow> do {
         modify (\<lambda>s. s\<lparr>threads := (threads s)(k \<mapsto> \<lparr>kt_fn = fn, kt_cpu = None, kt_awake = False\<rparr>)\<rparr>);
         State_Monad.return (Task k) } }"

definition with_task :: "(nat \<Rightarrow> wdt \<Rightarrow> wdt) \<Rightarrow> task_ptr \<Rightarrow> (fault + unit) wdt_m" where
  "with_task f p = (case p of
     Task k \<Rightarrow> do { modify (f k); State_Monad.return (Inr ()) }
   | _ \<Rightarrow> State_Monad.return (Inl Oops))"

definition kthread_bind :: "task_ptr \<Rightarrow> nat \<Rightarrow> (fault + unit) wdt_m" where
  "kthread_bind p cpu = with_task (\<lambda>k s. s\<lparr>threads :=
     (threads s)(k := map_option (\<lambda>t. t\<lparr>kt_cpu := Some cpu\<rparr>) (threads s k))\<rparr>) p"

definition wake_up_process :: "task_ptr \<Rightarrow> (fault + unit) wdt_m" where
  "wake_up_process p = with_task (\<lambda>k s. s\<lparr>threads :=
     (threads s)(k := map_option (\<lambda>t. t\<lparr>kt_awake := True\<rparr>) (threads s k))\<rparr>) p"

definition kthread_stop :: "task_ptr \<Rightarrow> (fault + unit) wdt_m" where
  "kthread_stop p = with_task (\<lambda>k s. s\<lparr>threads := (threads s)(k := None)\<rparr>) p"

definition set_task :: "nat \<Rightarrow> task_ptr \<Rightarrow> unit wdt_m" where
  "set_task cpu p = modify (\<lambda>s. s\<lparr>pWatchdogTask := (pWatchdogTask s)(cpu := p)\<rparr>)"

section \<open>Registers\<close>

definition RTK_WDG_EN :: "wdt_env \<Rightarrow> unit wdt_m" where
  "RTK_WDG_EN e = do {
     reg_rmw (wdev e) (BSP_WDTCTRLR e) (\<lambda>v. v OR WDT_E e);
     rtk_soc_reboot_reason_set (gcr_base e) 3 }"

definition RTK_WDG_DIS :: "wdt_env \<Rightarrow> unit wdt_m" where
  "RTK_WDG_DIS e = reg_rmw (wdev e) (BSP_WDTCTRLR e) (\<lambda>v. v AND NOT (WDT_E e))"

definition RTK_WDG_KICK :: "wdt_env \<Rightarrow> unit wdt_m" where
  "RTK_WDG_KICK e = reg_rmw (wdev e) (BSP_WDTCNTRR e) (\<lambda>v. v OR WDT_KICK e)"

definition luna_watchdog_kick :: "wdt_env \<Rightarrow> unit wdt_m" where
  "luna_watchdog_kick e = RTK_WDG_KICK e"

text \<open>The fields of the control register as \<open>show_usage\<close> and \<open>wdg_timeout_show\<close> print them.\<close>

record wdt_setting =
  set_WDT_E :: u32
  set_CLK_SC :: u32
  set_PH1_TO :: u32
  set_PH2_TO :: u32
  set_RESET_MODE :: u32

definition decode_setting :: "u32 \<Rightarrow> wdt_setting" where
  "decode_setting reg_val = \<lparr>
     set_WDT_E = drop_bit 31 reg_val AND 0x1,
     set_CLK_SC = drop_bit 29 reg_val AND 0x3,
     set_PH1_TO = drop_bit 22 reg_val AND 0x1F,
     set_PH2_TO = drop_bit 15 reg_val AND 0x1F,
     set_RESET_MODE = reg_val AND 0x3\<rparr>"

definition show_usage :: "wdt_env \<Rightarrow> wdt_setting wdt_m" where
  "show_usage e = do { v \<leftarrow> reg_rd (wdev e) (BSP_WDTCTRLR e); State_Monad.return (decode_setting v) }"

definition wdg_timeout_show :: "wdt_env \<Rightarrow> wdt_setting wdt_m" where
  "wdg_timeout_show e = do { v \<leftarrow> reg_rd (wdev e) (BSP_WDTCTRLR e); State_Monad.return (decode_setting v) }"

text \<open>The value \<open>set_rtk_wdt_ph1_threshold\<close> writes, from the value it reads.\<close>

definition threshold_value :: "wdt_env \<Rightarrow> wdt \<Rightarrow> u32 \<Rightarrow> u32 \<Rightarrow> u32" where
  "threshold_value e s sec reg =
     (let reg = reg AND NOT (push_bit (WDT_PH1_TO_SHIFT e) (WDT_PH12_TO_MSK e));
          reg = reg AND NOT (push_bit (WDT_PH2_TO_SHIFT e) (WDT_PH12_TO_MSK e));
          reg = reg OR push_bit (WDT_PH2_TO_SHIFT e) (wdg_timeout_ph2 s);
          reg = reg OR push_bit (WDT_CLK_SC_SHIFT e) (wdg_clk_sc s);
          reg = reg OR wdg_rest_mode s
      in reg OR push_bit (WDT_PH1_TO_SHIFT e) (if sec = 0 then 31 else sec))"

definition set_rtk_wdt_ph1_threshold :: "wdt_env \<Rightarrow> u32 \<Rightarrow> wdt_setting wdt_m" where
  "set_rtk_wdt_ph1_threshold e sec = do {
     reg \<leftarrow> reg_rd (wdev e) (BSP_WDTCTRLR e);
     s \<leftarrow> State_Monad.get;
     reg_wr (BSP_WDTCTRLR e) (threshold_value e s sec reg);
     show_usage e }"

section \<open>Threads\<close>

definition touch_wtd_count :: "nat \<Rightarrow> unit wdt_m" where
  "touch_wtd_count cpu = modify (\<lambda>s. s\<lparr>wtd_count := (wtd_count s)(cpu := True)\<rparr>)"

text \<open>One round of the loop of \<open>luna_watchdog_thread\<close>, after its sleep.\<close>

definition luna_watchdog_thread :: "nat \<Rightarrow> unit wdt_m" where
  "luna_watchdog_thread cpu = do {
     flag \<leftarrow> gets watchdog_flag;
     if flag \<noteq> 0 then touch_wtd_count cpu else State_Monad.return () }"

definition CHECK_CPUS_AND_KICK :: "wdt_env \<Rightarrow> unit wdt_m" where
  "CHECK_CPUS_AND_KICK e = do {
     touched \<leftarrow> gets wtd_count;
     if \<not> list_all (\<lambda>cpu. cpu = 0 \<or> touched cpu) (online_cpus e) then State_Monad.return ()
     else do {
       modify (\<lambda>s. s\<lparr>wtd_count := (\<lambda>c. if c \<in> set (online_cpus e) then False else wtd_count s c)\<rparr>);
       RTK_WDG_KICK e } }"

definition kick_rtk_watchdog :: "wdt_env \<Rightarrow> unit wdt_m" where
  "kick_rtk_watchdog e = CHECK_CPUS_AND_KICK e"

text \<open>One round of the loop of \<open>watchdog_timeout_thread\<close>, after its sleep.\<close>

definition watchdog_timeout_thread :: "wdt_env \<Rightarrow> unit wdt_m" where
  "watchdog_timeout_thread e = do {
     flag \<leftarrow> gets watchdog_flag;
     if flag \<noteq> 0 then kick_rtk_watchdog e else State_Monad.return () }"

text \<open>
  Starting the threads of CPU 1 and up; the result says whether the error exit was taken.
\<close>

fun start_secondary :: "wdt_env \<Rightarrow> nat list \<Rightarrow> (fault + bool) wdt_m" where
  "start_secondary e [] = State_Monad.return (Inr False)"
| "start_secondary e (cpu # cpus) =
     (if cpu = 0 then start_secondary e cpus
      else if NR_CPUS \<le> cpu then State_Monad.return (Inr False)
      else do {
        p \<leftarrow> kthread_create e Luna_watchdog_thread;
        set_task cpu p;
        if p = Null then State_Monad.return (Inr True)
        else bindE (kthread_bind p cpu) (\<lambda>_. bindE (wake_up_process p) (\<lambda>_. start_secondary e cpus)) })"

fun stop_all :: "nat list \<Rightarrow> (fault + unit) wdt_m" where
  "stop_all [] = State_Monad.return (Inr ())"
| "stop_all (cpu # cpus) =
     (if NR_CPUS \<le> cpu then State_Monad.return (Inr ())
      else do {
        p \<leftarrow> gets (\<lambda>s. pWatchdogTask s cpu);
        bindE (kthread_stop p) (\<lambda>_. do { set_task cpu Null; stop_all cpus }) })"

definition luan_watchdog_thread_init :: "wdt_env \<Rightarrow> (fault + unit) wdt_m" where
  "luan_watchdog_thread_init e = bindE (start_secondary e (online_cpus e)) (\<lambda>out_free.
     if out_free then stop_all (online_cpus e) else State_Monad.return (Inr ()))"

fun stop_started :: "nat list \<Rightarrow> (fault + unit) wdt_m" where
  "stop_started [] = State_Monad.return (Inr ())"
| "stop_started (cpu # cpus) =
     (if NR_CPUS \<le> cpu then State_Monad.return (Inr ())
      else do {
        p \<leftarrow> gets (\<lambda>s. pWatchdogTask s cpu);
        if p \<noteq> Null then bindE (kthread_stop p) (\<lambda>_. do { set_task cpu Null; stop_started cpus })
        else stop_started cpus })"

definition wdt_thread_maintain :: "wdt_env \<Rightarrow> bool \<Rightarrow> (fault + unit) wdt_m" where
  "wdt_thread_maintain e flag =
     (if flag then do {
        p \<leftarrow> gets (\<lambda>s. pWatchdogTask s 0);
        if p \<noteq> Null then State_Monad.return (Inr ())
        else do {
          p \<leftarrow> kthread_create e Watchdog_timeout_thread;
          set_task 0 p;
          case p of
            Err_ptr err \<Rightarrow> State_Monad.return (Inr ())
          | _ \<Rightarrow> bindE (luan_watchdog_thread_init e) (\<lambda>_.
                 bindE (kthread_bind p 0) (\<lambda>_. wake_up_process p)) } }
      else stop_started (online_cpus e))"

section \<open>Files and module\<close>

text \<open>
  A write of user memory: \<open>None\<close> when the buffer is missing or cannot be copied.  At most
  fifteen bytes are parsed.
\<close>

definition kick_wdg_time_write :: "wdt_env \<Rightarrow> string option \<Rightarrow> (errno + nat) wdt_m" where
  "kick_wdg_time_write e ubuf = (case ubuf of
     Some buf \<Rightarrow> do {
       modify (\<lambda>s. s\<lparr>kick_wdg_time := simple_strtoul e (take 15 buf) 10\<rparr>);
       State_Monad.return (Inr (length buf)) }
   | None \<Rightarrow> State_Monad.return (Inl EFAULT))"

definition wdg_timeout_write :: "wdt_env \<Rightarrow> string option \<Rightarrow> (errno + nat) wdt_m" where
  "wdg_timeout_write e ubuf = (case ubuf of
     Some buf \<Rightarrow> do {
       let sec = simple_strtoul e (take 15 buf) 10;
       modify (\<lambda>s. s\<lparr>wdg_timeout := sec\<rparr>);
       set_rtk_wdt_ph1_threshold e sec;
       State_Monad.return (Inr (length buf)) }
   | None \<Rightarrow> State_Monad.return (Inl EFAULT))"

definition watchdog_write :: "wdt_env \<Rightarrow> string option \<Rightarrow> (fault + (errno + nat)) wdt_m" where
  "watchdog_write e ubuf = (case ubuf of
     Some buf \<Rightarrow> do {
       let flag = simple_strtoul e (take 15 buf) 16;
       modify (\<lambda>s. s\<lparr>watchdog_flag := flag\<rparr>);
       bindE (if flag \<noteq> 0 then bindE (wdt_thread_maintain e True) (\<lambda>_. do {
                RTK_WDG_EN e;
                reg_rd (wdev e) (BSP_WDTCTRLR e);
                RTK_WDG_KICK e;
                State_Monad.return (Inr ()) })
              else do { RTK_WDG_DIS e; wdt_thread_maintain e False })
         (\<lambda>_. do {
           modify (\<lambda>s. s\<lparr>debug_mask := (if flag AND 0x02 \<noteq> 0 then 1 else 0)\<rparr>);
           State_Monad.return (Inr (Inr (length buf))) }) }
   | None \<Rightarrow> State_Monad.return (Inr (Inl EFAULT)))"

fun proc_wdt_registers_r :: "wdt_env \<Rightarrow> u32 list \<Rightarrow> (u32 \<times> u32) list wdt_m" where
  "proc_wdt_registers_r e [] = State_Monad.return []"
| "proc_wdt_registers_r e (i # is) = do {
     v \<leftarrow> reg_rd (wdev e) (0xb8003260 + i * 4);
     rest \<leftarrow> proc_wdt_registers_r e is;
     State_Monad.return ((0xb8003260 + i * 4, v) # rest) }"

text \<open>
  The self-test: a non-zero number makes a CPU take the same lock twice.  The result tells which CPU
  hangs from then on.
\<close>

definition wdt_lock_func :: "wdt_env \<Rightarrow> nat" where
  "wdt_lock_func e = length (online_cpus e) - 1"

definition wdt_lock_write :: "wdt_env \<Rightarrow> string option \<Rightarrow> (errno + nat) \<times> nat option" where
  "wdt_lock_write e ubuf = (case ubuf of
     Some buf \<Rightarrow> (Inr (length buf), if simple_strtoul e (take 15 buf) 10 \<noteq> 0 then Some (wdt_lock_func e) else None)
   | None \<Rightarrow> (Inl EFAULT, None))"

definition watchdog_timeout_init :: "wdt_env \<Rightarrow> (fault + unit) wdt_m" where
  "watchdog_timeout_init e = bindE (wdt_thread_maintain e True) (\<lambda>_. do {
     sec \<leftarrow> gets wdg_timeout;
     set_rtk_wdt_ph1_threshold e sec;
     RTK_WDG_EN e;
     modify (\<lambda>s. s\<lparr>watchdog_flag := 1\<rparr>);
     reg_rd (wdev e) (BSP_WDTCNTRR e);
     reg_rd (wdev e) (BSP_WDTINTRR e);
     reg_rd (wdev e) (BSP_WDTCTRLR e);
     State_Monad.return (Inr ()) })"

definition watchdog_timeout_exit :: "wdt_env \<Rightarrow> (fault + unit) wdt_m" where
  "watchdog_timeout_exit e = do { RTK_WDG_DIS e; wdt_thread_maintain e False }"

end
