(* ===== verification/Watchdog_Props.thy ===== *)
theory Watchdog_Props
  imports Watchdog
begin

text \<open>
  Properties of the watchdog driver: the table of threads agrees with the threads that exist,
  a CPU that hangs stops the kicking, CPUs that all report are kicked for, and the control
  register decodes to the configured fields.
\<close>

section \<open>The table of threads\<close>

definition fn_of :: "nat \<Rightarrow> thread_fn" where
  "fn_of c = (if c = 0 then Watchdog_timeout_thread else Luna_watchdog_thread)"

text \<open>
  Every task in the table exists, runs the right function and is bound to its CPU (CPUs in
  \<open>X\<close> have a task that is created but neither bound nor started), and no other task exists.
\<close>

definition task_of :: "nat set \<Rightarrow> nat \<Rightarrow> kthread" where
  "task_of X c = (if c \<in> X then \<lparr>kt_fn = fn_of c, kt_cpu = None, kt_awake = False\<rparr>
                  else \<lparr>kt_fn = fn_of c, kt_cpu = Some c, kt_awake = True\<rparr>)"

definition tab :: "nat set \<Rightarrow> wdt \<Rightarrow> bool" where
  "tab X s \<longleftrightarrow>
     (\<forall>c k. pWatchdogTask s c = Task k \<longrightarrow> threads s k = Some (task_of X c))
   \<and> (\<forall>k. threads s k \<noteq> None \<longrightarrow> (\<exists>c. pWatchdogTask s c = Task k))
   \<and> (\<forall>k. threads s k \<noteq> None \<longrightarrow> k < created s)
   \<and> (\<forall>c err. pWatchdogTask s c \<noteq> Err_ptr err)"

lemma tabI:
  assumes "\<And>c k. pWatchdogTask s c = Task k \<Longrightarrow> threads s k = Some (task_of X c)"
    and "\<And>k. threads s k \<noteq> None \<Longrightarrow> \<exists>c. pWatchdogTask s c = Task k"
    and "\<And>k. threads s k \<noteq> None \<Longrightarrow> k < created s"
    and "\<And>c err. pWatchdogTask s c \<noteq> Err_ptr err"
  shows "tab X s"
  using assms by (simp add: tab_def)

lemma tabD:
  assumes "tab X s"
  shows "pWatchdogTask s c = Task k \<Longrightarrow> threads s k = Some (task_of X c)"
    and "threads s k = Some t \<Longrightarrow> \<exists>c. pWatchdogTask s c = Task k"
    and "threads s k = Some t \<Longrightarrow> k < created s"
    and "pWatchdogTask s c \<noteq> Err_ptr err"
  using assms by (auto simp: tab_def)

lemma task_of_inj: "task_of X c = task_of X c' \<Longrightarrow> X \<subseteq> {0} \<Longrightarrow> c = c'"
  by (auto simp: task_of_def split: if_splits)

lemma tab_inj: "tab X s \<Longrightarrow> X \<subseteq> {0} \<Longrightarrow> pWatchdogTask s c = Task k \<Longrightarrow> pWatchdogTask s c' = Task k \<Longrightarrow> c = c'"
  using tabD(1) [of X s c k] tabD(1) [of X s c' k] task_of_inj [of X c c'] by simp

lemma tab_fresh: "tab X s \<Longrightarrow> threads s (created s) = None \<and> pWatchdogTask s c \<noteq> Task (created s)"
  using tabD(1) [of X s c "created s"] tabD(3) [of X s "created s"] by (cases "threads s (created s)") auto

text \<open>The threads run on exactly the online CPUs, or not at all.\<close>

definition running :: "wdt_env \<Rightarrow> bool \<Rightarrow> wdt \<Rightarrow> bool" where
  "running e r s \<longleftrightarrow> tab {} s \<and> (\<forall>c. pWatchdogTask s c \<noteq> Null \<longleftrightarrow> r \<and> c \<in> set (online_cpus e))"

definition cpus_ok :: "wdt_env \<Rightarrow> bool" where
  "cpus_ok e \<longleftrightarrow> distinct (online_cpus e) \<and> 0 \<in> set (online_cpus e) \<and> (\<forall>c\<in>set (online_cpus e). c < NR_CPUS)"

definition create_ok :: "wdt_env \<Rightarrow> bool" where
  "create_ok e \<longleftrightarrow> kfail e = (\<lambda>_. None)"

text \<open>The state without its threads.\<close>

definition core :: "wdt \<Rightarrow> wdt" where
  "core s = s\<lparr>created := 0, pWatchdogTask := (\<lambda>_. Null), threads := (\<lambda>_. None)\<rparr>"

lemma core_update [simp]: "core (s\<lparr>created := c, pWatchdogTask := p, threads := t\<rparr>) = core s"
  by (simp add: core_def)

lemma core_eqD:
  "core s = core t \<Longrightarrow> io s = io t \<and> watchdog_flag s = watchdog_flag t \<and> wdg_timeout s = wdg_timeout t
     \<and> wdg_timeout_ph2 s = wdg_timeout_ph2 t \<and> wdg_clk_sc s = wdg_clk_sc t \<and> wdg_rest_mode s = wdg_rest_mode t"
  unfolding core_def by (drule arg_cong [where f = "\<lambda>s. (io s, watchdog_flag s, wdg_timeout s,
    wdg_timeout_ph2 s, wdg_clk_sc s, wdg_rest_mode s)"]) simp

lemma run_kthread_create:
  "create_ok e \<Longrightarrow> run_state (kthread_create e fn) s = (Task (created s),
     s\<lparr>threads := (threads s)(created s \<mapsto> \<lparr>kt_fn = fn, kt_cpu = None, kt_awake = False\<rparr>),
       created := created s + 1\<rparr>)"
  by (simp add: create_ok_def kthread_create_def)

lemmas task_defs = kthread_bind_def wake_up_process_def kthread_stop_def with_task_def set_task_def

lemma start_one:
  assumes "create_ok e" and "cpu \<noteq> 0" and "cpu < NR_CPUS"
  shows "run_state (start_secondary e (cpu # cpus)) s = run_state (start_secondary e cpus)
    (s\<lparr>created := created s + 1, pWatchdogTask := (pWatchdogTask s)(cpu := Task (created s)),
       threads := (threads s)(created s \<mapsto> task_of {0} cpu)\<rparr>)"
  using assms by (simp add: run_kthread_create task_defs run_state_bindE task_of_def fn_of_def)

lemma tab_add:
  assumes "tab X s" and "pWatchdogTask s cpu = Null" and "X - {cpu} = Y - {cpu}"
  shows "tab Y (s\<lparr>created := created s + 1, pWatchdogTask := (pWatchdogTask s)(cpu := Task (created s)),
       threads := (threads s)(created s \<mapsto> task_of Y cpu)\<rparr>)" (is "tab Y ?s")
proof (rule tabI)
  have same: "task_of X c = task_of Y c" if "c \<noteq> cpu" for c
    using that assms(3) by (auto simp: task_of_def)
  show "threads ?s k = Some (task_of Y c)" if "pWatchdogTask ?s c = Task k" for c k
    using that tab_fresh [OF assms(1), of c] tabD(1) [OF assms(1), of c k]
    by (auto simp: same split: if_splits)
  show "\<exists>c. pWatchdogTask ?s c = Task k" if "threads ?s k \<noteq> None" for k
  proof (cases "k = created s")
    case False
    with that obtain c where "pWatchdogTask s c = Task k"
      using tabD(2) [OF assms(1), of k] by auto
    with assms(2) show ?thesis by (intro exI [of _ c]) auto
  qed auto
  show "k < created ?s" if "threads ?s k \<noteq> None" for k
    using that tabD(3) [OF assms(1), of k] by (cases "k = created s") auto
  show "pWatchdogTask ?s c \<noteq> Err_ptr err" for c err
    using tabD(4) [OF assms(1)] by simp
qed

lemma tab_bind:
  assumes "tab {0} s" and "pWatchdogTask s 0 = Task k0"
  shows "tab {} (s\<lparr>threads := (threads s)(k0 \<mapsto> task_of {} 0)\<rparr>)" (is "tab {} ?s")
proof (rule tabI)
  have same: "task_of {0} c = task_of {} c" if "c \<noteq> 0" for c
    using that by (simp add: task_of_def)
  show "threads ?s k = Some (task_of {} c)" if "pWatchdogTask ?s c = Task k" for c k
    using that tabD(1) [OF assms(1), of c k] tab_inj [OF assms(1) _ assms(2), of c] same [of c] assms(2)
    by (cases "c = 0") auto
  show "\<exists>c. pWatchdogTask ?s c = Task k" if "threads ?s k \<noteq> None" for k
    using that tabD(2) [OF assms(1), of k] assms(2) by (cases "k = k0") auto
  show "k < created ?s" if "threads ?s k \<noteq> None" for k
    using that tabD(3) [OF assms(1), of k] tabD(1) [OF assms] by (cases "k = k0") auto
  show "pWatchdogTask ?s c \<noteq> Err_ptr err" for c err
    using tabD(4) [OF assms(1)] by simp
qed

lemma tab_stop:
  assumes "tab {} s" and "pWatchdogTask s c0 = Task k0"
  shows "tab {} (s\<lparr>threads := (threads s)(k0 := None), pWatchdogTask := (pWatchdogTask s)(c0 := Null)\<rparr>)"
    (is "tab {} ?s")
proof (rule tabI)
  show "threads ?s k = Some (task_of {} c)" if "pWatchdogTask ?s c = Task k" for c k
    using that tabD(1) [OF assms(1), of c k] tab_inj [OF assms(1) _ assms(2), of c]
    by (auto split: if_splits)
  show "\<exists>c. pWatchdogTask ?s c = Task k" if "threads ?s k \<noteq> None" for k
  proof (cases "k = k0")
    case False
    with that obtain c where "pWatchdogTask s c = Task k"
      using tabD(2) [OF assms(1), of k] by auto
    with assms(2) False show ?thesis by (intro exI [of _ c]) auto
  qed (use that in simp)
  show "k < created ?s" if "threads ?s k \<noteq> None" for k
    using that tabD(3) [OF assms(1), of k] by (cases "k = k0") auto
  show "pWatchdogTask ?s c \<noteq> Err_ptr err" for c err
    using tabD(4) [OF assms(1)] by simp
qed

lemma run_start_secondary:
  assumes "create_ok e" and "distinct cpus" and "\<forall>c\<in>set cpus. c < NR_CPUS"
    and "\<forall>c\<in>set cpus - {0}. pWatchdogTask s c = Null" and "tab {0} s"
  shows "\<exists>s'. run_state (start_secondary e cpus) s = (Inr False, s') \<and> tab {0} s' \<and> core s' = core s
    \<and> pWatchdogTask s' 0 = pWatchdogTask s 0
    \<and> (\<forall>c. pWatchdogTask s' c \<noteq> Null \<longleftrightarrow> pWatchdogTask s c \<noteq> Null \<or> c \<in> set cpus - {0})"
  using assms(2-)
proof (induction cpus arbitrary: s)
  case Nil
  then show ?case by simp
next
  case (Cons cpu cpus)
  show ?case
  proof (cases "cpu = 0")
    case True
    with Cons.prems have "\<exists>s'. run_state (start_secondary e cpus) s = (Inr False, s') \<and> tab {0} s'
        \<and> core s' = core s \<and> pWatchdogTask s' 0 = pWatchdogTask s 0
        \<and> (\<forall>c. pWatchdogTask s' c \<noteq> Null \<longleftrightarrow> pWatchdogTask s c \<noteq> Null \<or> c \<in> set cpus - {0})"
      by (intro Cons.IH) auto
    with True show ?thesis by auto
  next
    case False
    let ?s = "s\<lparr>created := created s + 1, pWatchdogTask := (pWatchdogTask s)(cpu := Task (created s)),
       threads := (threads s)(created s \<mapsto> task_of {0} cpu)\<rparr>"
    have "tab {0} ?s"
      using Cons.prems False by (intro tab_add [of "{0}"]) auto
    moreover have "\<forall>c\<in>set cpus - {0}. pWatchdogTask ?s c = Null"
      using Cons.prems by auto
    moreover have "distinct cpus" "\<forall>c\<in>set cpus. c < NR_CPUS"
      using Cons.prems by auto
    ultimately obtain s' where "run_state (start_secondary e cpus) ?s = (Inr False, s')" "tab {0} s'"
        "core s' = core ?s" "pWatchdogTask s' 0 = pWatchdogTask ?s 0"
        "\<forall>c. pWatchdogTask s' c \<noteq> Null \<longleftrightarrow> pWatchdogTask ?s c \<noteq> Null \<or> c \<in> set cpus - {0}"
      using Cons.IH [of ?s] by blast
    moreover from False have "run_state (start_secondary e (cpu # cpus)) s = run_state (start_secondary e cpus) ?s"
      using Cons.prems by (intro start_one [OF assms(1)]) auto
    ultimately show ?thesis
      using False by (intro exI [of _ s']) auto
  qed
qed

lemma run_maintain_start:
  assumes "create_ok e" and "cpus_ok e" and "running e r s"
  shows "\<exists>s'. run_state (wdt_thread_maintain e True) s = (Inr (), s') \<and> running e True s' \<and> core s' = core s"
proof (cases "pWatchdogTask s 0 = Null")
  case False
  moreover from False have "r"
    using assms(3) by (simp add: running_def)
  ultimately show ?thesis
    using assms(3) by (intro exI [of _ s]) (simp add: wdt_thread_maintain_def)
next
  case True
  have none: "pWatchdogTask s c = Null" for c
    using assms(2,3) True by (auto simp: running_def cpus_ok_def)
  let ?k = "created s"
  let ?s = "s\<lparr>created := created s + 1, pWatchdogTask := (pWatchdogTask s)(0 := Task ?k),
       threads := (threads s)(?k \<mapsto> task_of {0} 0)\<rparr>"
  have "\<exists>s'. run_state (start_secondary e (online_cpus e)) ?s = (Inr False, s') \<and> tab {0} s' \<and> core s' = core ?s
    \<and> pWatchdogTask s' 0 = pWatchdogTask ?s 0
    \<and> (\<forall>c. pWatchdogTask s' c \<noteq> Null \<longleftrightarrow> pWatchdogTask ?s c \<noteq> Null \<or> c \<in> set (online_cpus e) - {0})"
  proof (rule run_start_secondary [OF assms(1)])
    show "tab {0} ?s"
      using assms(3) none by (intro tab_add [of "{}"]) (auto simp: running_def)
  qed (use assms(2) none in \<open>simp_all add: cpus_ok_def\<close>)
  then obtain s' where s': "run_state (start_secondary e (online_cpus e)) ?s = (Inr False, s')" "tab {0} s'"
      "core s' = core ?s" "pWatchdogTask s' 0 = pWatchdogTask ?s 0"
      "\<forall>c. pWatchdogTask s' c \<noteq> Null \<longleftrightarrow> pWatchdogTask ?s c \<noteq> Null \<or> c \<in> set (online_cpus e) - {0}"
    by (elim exE conjE) (rule that)
  let ?t = "s'\<lparr>threads := (threads s')(?k \<mapsto> task_of {} 0)\<rparr>"
  have k: "threads s' ?k = Some (task_of {0} 0)"
    using s'(2,4) by (intro tabD(1)) auto
  have created: "s\<lparr>threads := (threads s)(?k \<mapsto> \<lparr>kt_fn = Watchdog_timeout_thread, kt_cpu = None, kt_awake = False\<rparr>),
      created := Suc (created s), pWatchdogTask := (pWatchdogTask s)(0 := Task ?k)\<rparr> = ?s"
    by (simp add: task_of_def fn_of_def)
  have "run_state (wdt_thread_maintain e True) s = (Inr (), ?t)"
    using True s'(1) [folded created] k
    by (simp add: wdt_thread_maintain_def run_kthread_create [OF assms(1)] task_defs run_state_bindE
        luan_watchdog_thread_init_def fn_of_def task_of_def)
  moreover have "tab {} ?t"
    using s'(2,4) by (intro tab_bind) simp_all
  moreover have "pWatchdogTask ?t c \<noteq> Null \<longleftrightarrow> c \<in> set (online_cpus e)" for c
    using s'(5) [THEN spec, of c] assms(2) none [of c] by (cases "c = 0") (auto simp: cpus_ok_def)
  moreover have "core ?t = core s"
    using s'(3) by (simp add: core_def)
  ultimately show ?thesis
    by (auto simp: running_def)
qed

lemma run_stop_started:
  assumes "tab {} s" and "\<forall>c\<in>set cpus. c < NR_CPUS"
  shows "\<exists>s'. run_state (stop_started cpus) s = (Inr (), s') \<and> tab {} s' \<and> core s' = core s
    \<and> (\<forall>c. pWatchdogTask s' c = (if c \<in> set cpus then Null else pWatchdogTask s c))"
  using assms
proof (induction cpus arbitrary: s)
  case (Cons cpu cpus)
  show ?case
  proof (cases "pWatchdogTask s cpu")
    case (Task k)
    let ?s = "s\<lparr>threads := (threads s)(k := None), pWatchdogTask := (pWatchdogTask s)(cpu := Null)\<rparr>"
    obtain s' where "run_state (stop_started cpus) ?s = (Inr (), s')" "tab {} s'" "core s' = core ?s"
        "\<forall>c. pWatchdogTask s' c = (if c \<in> set cpus then Null else pWatchdogTask ?s c)"
      using Cons.IH [OF tab_stop [OF Cons.prems(1) Task]] Cons.prems(2) by auto
    with Task Cons.prems show ?thesis
      by (intro exI [of _ s']) (auto simp: task_defs run_state_bindE core_def)
  next
    case Null
    with Cons show ?thesis by fastforce
  next
    case (Err_ptr err)
    with Cons.prems show ?thesis by (auto simp: tab_def)
  qed
qed simp

lemma run_maintain_stop:
  assumes "cpus_ok e" and "running e r s"
  shows "\<exists>s'. run_state (wdt_thread_maintain e False) s = (Inr (), s') \<and> running e False s' \<and> core s' = core s"
proof -
  obtain s' where "run_state (stop_started (online_cpus e)) s = (Inr (), s')" "tab {} s'" "core s' = core s"
      "\<forall>c. pWatchdogTask s' c = (if c \<in> set (online_cpus e) then Null else pWatchdogTask s c)"
    using assms run_stop_started [of s "online_cpus e"] by (auto simp: running_def cpus_ok_def)
  with assms show ?thesis
    by (intro exI [of _ s']) (auto simp: wdt_thread_maintain_def running_def)
qed

section \<open>Running the driver\<close>

text \<open>
  What happens to the driver after it is loaded: a thread wakes up, or a file is written.
  Each of these runs to its end before the next one starts.
\<close>

datatype wdt_event =
    Tick nat
  | Flag_write "string option"
  | Timeout_write "string option"
  | Kick_time_write "string option"

text \<open>The thread of a CPU wakes up, if it exists and has been started there.\<close>

definition tick :: "wdt_env \<Rightarrow> nat \<Rightarrow> unit wdt_m" where
  "tick e c = do {
     s \<leftarrow> State_Monad.get;
     case pWatchdogTask s c of
       Task k \<Rightarrow> (if threads s k = Some \<lparr>kt_fn = Luna_watchdog_thread, kt_cpu = Some c, kt_awake = True\<rparr>
           then luna_watchdog_thread c
           else if threads s k = Some \<lparr>kt_fn = Watchdog_timeout_thread, kt_cpu = Some c, kt_awake = True\<rparr>
           then watchdog_timeout_thread e
           else State_Monad.return ())
     | _ \<Rightarrow> State_Monad.return () }"

fun wdt_call :: "wdt_env \<Rightarrow> wdt_event \<Rightarrow> (fault + unit) wdt_m" where
  "wdt_call e (Tick c) = do { tick e c; State_Monad.return (Inr ()) }"
| "wdt_call e (Flag_write b) = bindE (watchdog_write e b) (\<lambda>_. State_Monad.return (Inr ()))"
| "wdt_call e (Timeout_write b) = do { wdg_timeout_write e b; State_Monad.return (Inr ()) }"
| "wdt_call e (Kick_time_write b) = do { kick_wdg_time_write e b; State_Monad.return (Inr ()) }"

text \<open>A fault ends the run.\<close>

definition lift_call :: "(fault + unit) wdt_m \<Rightarrow> fault + wdt \<Rightarrow> fault + wdt" where
  "lift_call m x = (case x of Inl f \<Rightarrow> Inl f
     | Inr s \<Rightarrow> (case run_state m s of (Inl f, _) \<Rightarrow> Inl f | (Inr _, s') \<Rightarrow> Inr s'))"

abbreviation wdt_step :: "wdt_env \<Rightarrow> wdt_event \<Rightarrow> fault + wdt \<Rightarrow> fault + wdt" where
  "wdt_step e ev \<equiv> lift_call (wdt_call e ev)"

definition wdt_loaded :: "wdt_env \<Rightarrow> fault + wdt" where
  "wdt_loaded e = lift_call (watchdog_timeout_init e) (Inr wdt_boot)"

lemma lift_call_triple:
  "triple (\<lambda>s. I (Inr s)) m (\<lambda>r s. r = Inr () \<and> I (Inr s)) \<Longrightarrow> I x \<Longrightarrow> \<not> I (Inl Oops) \<Longrightarrow> I (lift_call m x)"
proof (cases x)
  case (Inl f)
  then show "\<not> I (Inl Oops) \<Longrightarrow> I x \<Longrightarrow> I (lift_call m x)" by (cases f) (simp add: lift_call_def)
next
  case (Inr s)
  then show "triple (\<lambda>s. I (Inr s)) m (\<lambda>r s. r = Inr () \<and> I (Inr s)) \<Longrightarrow> I x \<Longrightarrow> I (lift_call m x)"
    by (auto simp: lift_call_def triple_def split: prod.splits)
qed

subsection \<open>The threads follow the flag\<close>

lemma running_frame:
  "running e r s \<Longrightarrow> pWatchdogTask s' = pWatchdogTask s \<Longrightarrow> threads s' = threads s \<Longrightarrow> created s' = created s
    \<Longrightarrow> running e r s'"
  by (simp add: running_def tab_def)

text \<open>The parts of the driver that leave the threads and the flag alone.\<close>

definition inert :: "'a wdt_m \<Rightarrow> bool" where
  "inert m \<longleftrightarrow> (\<forall>s. let s' = snd (run_state m s) in pWatchdogTask s' = pWatchdogTask s \<and> threads s' = threads s
     \<and> created s' = created s \<and> watchdog_flag s' = watchdog_flag s)"

named_theorems inert_rules

lemma inert_return [inert_rules]: "inert (State_Monad.return x)"
  by (simp add: inert_def)

lemma inert_bind [inert_rules]: "inert m \<Longrightarrow> (\<And>x. inert (f x)) \<Longrightarrow> inert (m \<bind> f)"
  by (simp add: inert_def Let_def split_beta)

lemma inert_reg [inert_rules]: "inert (reg_rd d r)" "inert (reg_wr r v)" "inert (reg_rmw d r f)"
  by (simp_all add: inert_def)

lemma inert_gets [inert_rules]: "inert (gets f)" "inert State_Monad.get"
  by (simp_all add: inert_def)

lemma inert_if [inert_rules]: "inert m \<Longrightarrow> inert n \<Longrightarrow> inert (if b then m else n)"
  by simp

lemma inert_kick [inert_rules]: "inert (RTK_WDG_KICK e)" "inert (RTK_WDG_DIS e)" "inert (RTK_WDG_EN e)"
  unfolding RTK_WDG_KICK_def RTK_WDG_DIS_def RTK_WDG_EN_def rtk_soc_reboot_reason_set_def set_reboot_reason_07c_def
  by (intro inert_rules)+

lemma inert_threshold [inert_rules]: "inert (set_rtk_wdt_ph1_threshold e sec)"
  unfolding set_rtk_wdt_ph1_threshold_def show_usage_def by (intro inert_rules)

lemma inert_tick: "inert (tick e c)"
proof -
  have "inert (luna_watchdog_thread c)" "inert (watchdog_timeout_thread e)"
    unfolding luna_watchdog_thread_def watchdog_timeout_thread_def touch_wtd_count_def
      kick_rtk_watchdog_def CHECK_CPUS_AND_KICK_def
    by (intro inert_rules; simp add: inert_def)+
  then show ?thesis
    unfolding tick_def by (intro inert_rules) (auto intro!: inert_rules split: task_ptr.split)
qed

lemma inert_files: "inert (wdg_timeout_write e b)" "inert (kick_wdg_time_write e b)"
  unfolding wdg_timeout_write_def kick_wdg_time_write_def
  by (cases b; simp add: Let_def; intro inert_rules; simp add: inert_def)+

definition wdt_inv :: "wdt_env \<Rightarrow> fault + wdt \<Rightarrow> bool" where
  "wdt_inv e x \<longleftrightarrow> (case x of Inl _ \<Rightarrow> False | Inr s \<Rightarrow> running e (watchdog_flag s \<noteq> 0) s)"

lemma inertD:
  assumes "inert m"
  shows "running e r (snd (run_state m s)) = running e r s"
    and "watchdog_flag (snd (run_state m s)) = watchdog_flag s"
  using assms [unfolded inert_def Let_def, THEN spec, of s]
  by (auto intro: running_frame)

lemma inert_wdt_inv: "inert m \<Longrightarrow> wdt_inv e x \<Longrightarrow> wdt_inv e (lift_call (m \<bind> (\<lambda>_. State_Monad.return (Inr ()))) x)"
  by (cases x) (simp_all add: wdt_inv_def lift_call_def inertD split_beta)

lemma running_update [simp]:
  "running e r (s\<lparr>watchdog_flag := v\<rparr>) = running e r s"
  "running e r (s\<lparr>debug_mask := v\<rparr>) = running e r s"
  by (auto intro: running_frame)

lemma wdt_inv_flag_write:
  assumes "cpus_ok e" and "create_ok e" and "wdt_inv e x"
  shows "wdt_inv e (wdt_step e (Flag_write b) x)"
proof (cases b)
  case None
  with assms(3) show ?thesis
    by (cases x) (auto simp: lift_call_def watchdog_write_def run_state_bindE)
next
  case (Some buf)
  obtain s where x: "x = Inr s" and s: "running e (watchdog_flag s \<noteq> 0) s"
    using assms(3) by (cases x) (auto simp: wdt_inv_def)
  define flag where "flag = simple_strtoul e (take 15 buf) 16"
  define s0 where "s0 = s\<lparr>watchdog_flag := flag\<rparr>"
  have s0: "running e (watchdog_flag s \<noteq> 0) s0" using s by (simp add: s0_def)
  show ?thesis
  proof (cases "flag = 0")
    case False
    obtain s1 where s1: "run_state (wdt_thread_maintain e True) s0 = (Inr (), s1)" "running e True s1" "core s1 = core s0"
      using run_maintain_start [OF assms(2,1) s0] by blast
    let ?m = "do { RTK_WDG_EN e; reg_rd (wdev e) (BSP_WDTCTRLR e); RTK_WDG_KICK e }"
    have "inert ?m" by (intro inert_rules)
    then have "running e True (snd (run_state ?m s1))" "watchdog_flag (snd (run_state ?m s1)) = flag"
      using s1(2) core_eqD [OF s1(3)] by (simp_all only: inertD) (simp add: s0_def)
    with False s1(1) show ?thesis
      by (simp add: Some x lift_call_def watchdog_write_def run_state_bindE wdt_inv_def Let_def
          flag_def [symmetric] s0_def [symmetric] split_beta del: run_state_reg_rd)
  next
    case True
    have "inert (RTK_WDG_DIS e)" by (intro inert_rules)
    then have "running e (watchdog_flag s \<noteq> 0) (snd (run_state (RTK_WDG_DIS e) s0))"
        and fl: "watchdog_flag (snd (run_state (RTK_WDG_DIS e) s0)) = 0"
      using s0 True by (simp_all only: inertD) (simp add: s0_def)
    then obtain s1 where s1: "run_state (wdt_thread_maintain e False) (snd (run_state (RTK_WDG_DIS e) s0)) = (Inr (), s1)"
        "running e False s1" "core s1 = core (snd (run_state (RTK_WDG_DIS e) s0))"
      using run_maintain_stop [OF assms(1)] by blast
    have "watchdog_flag s1 = 0"
      using core_eqD [OF s1(3)] fl by simp
    with True s1(1) [unfolded s0_def] s1(2) show ?thesis
      by (simp add: Some x lift_call_def watchdog_write_def run_state_bindE wdt_inv_def Let_def
          flag_def [symmetric] split_beta)
  qed
qed

lemma wdt_inv_step:
  assumes "cpus_ok e \<and> create_ok e" and "wdt_inv e x"
  shows "wdt_inv e (wdt_step e ev x)"
proof (cases ev)
  case (Flag_write b)
  with assms show ?thesis by (simp add: wdt_inv_flag_write del: wdt_call.simps)
qed (use assms inert_tick inert_files in \<open>auto intro!: inert_wdt_inv\<close>)

interpretation wdt_threads: event_system "wdt_step e" "\<lambda>_. cpus_ok e \<and> create_ok e" "wdt_inv e" for e
  by unfold_locales (rule wdt_inv_step)

lemma wdt_loaded_running:
  assumes "cpus_ok e" and "create_ok e"
  shows "\<exists>s. wdt_loaded e = Inr s \<and> running e True s \<and> watchdog_flag s = 1"
proof -
  have "running e False wdt_boot"
    by (simp add: running_def tab_def wdt_boot_def)
  then obtain s1 where s1: "run_state (wdt_thread_maintain e True) wdt_boot = (Inr (), s1)" "running e True s1"
    using run_maintain_start [OF assms(2,1)] by blast
  have "running e True (snd (run_state (RTK_WDG_EN e) (snd (run_state (set_rtk_wdt_ph1_threshold e sec) s1))))" for sec
    using s1(2) by (simp add: inertD inert_rules)
  with s1 show ?thesis
    by (simp add: wdt_loaded_def lift_call_def watchdog_timeout_init_def run_state_bindE wdt_inv_def split_beta
        running_def tab_def)
qed

lemma wdt_inv_loaded: "cpus_ok e \<Longrightarrow> create_ok e \<Longrightarrow> wdt_inv e (wdt_loaded e)"
  using wdt_loaded_running [of e] by (auto simp: wdt_inv_def)

subsection \<open>Kicks\<close>

definition kicks :: "wdt_env \<Rightarrow> wdt \<Rightarrow> nat" where
  "kicks e s = length (filter (\<lambda>(r, v). r = BSP_WDTCNTRR e) (writes (io s)))"

definition regs_ok :: "wdt_env \<Rightarrow> bool" where
  "regs_ok e \<longleftrightarrow> BSP_WDTCTRLR e \<noteq> BSP_WDTCNTRR e \<and> BSP_WDTCNTRR e \<noteq> STICK_REGISTER \<and> BSP_WDTCTRLR e \<noteq> STICK_REGISTER"

lemma kicks_io [simp]:
  "kicks e (s\<lparr>io := Rd r v # h\<rparr>) = kicks e (s\<lparr>io := h\<rparr>)"
  "kicks e (s\<lparr>io := Wr r v # h\<rparr>) = (if r = BSP_WDTCNTRR e then 1 else 0) + kicks e (s\<lparr>io := h\<rparr>)"
  "kicks e (s\<lparr>wtd_count := w, io := h\<rparr>) = kicks e (s\<lparr>io := h\<rparr>)"
  "kicks e (s\<lparr>wtd_count := w\<rparr>) = kicks e s"
  "kicks e (s\<lparr>wdg_timeout := t\<rparr>) = kicks e s"
  "kicks e (s\<lparr>wdg_timeout := t, io := h\<rparr>) = kicks e (s\<lparr>io := h\<rparr>)"
  "kicks e (s\<lparr>kick_wdg_time := t\<rparr>) = kicks e s"
  by (simp_all add: kicks_def)

lemma kicks_same_io [simp]: "kicks e (s\<lparr>io := io s\<rparr>) = kicks e s"
  by (simp add: kicks_def)

lemma runningD: "running e r s \<Longrightarrow> pWatchdogTask s c \<noteq> Null \<longleftrightarrow> r \<and> c \<in> set (online_cpus e)"
  by (simp add: running_def)

text \<open>What a round of the thread of a CPU does.\<close>

lemma tick_unfold:
  "running e r s \<Longrightarrow> snd (run_state (tick e c) s) =
     (if \<not> (r \<and> c \<in> set (online_cpus e)) then s
      else if c \<noteq> 0 then snd (run_state (luna_watchdog_thread c) s)
      else snd (run_state (watchdog_timeout_thread e) s))"
proof (cases "pWatchdogTask s c")
  case (Task k)
  moreover assume run: "running e r s"
  ultimately have "threads s k = Some (task_of {} c)"
    by (auto simp: running_def dest: tabD(1))
  moreover have "r \<and> c \<in> set (online_cpus e)"
    using Task runningD [OF run, of c] by simp
  ultimately show ?thesis
    using Task by (simp add: tick_def task_of_def fn_of_def)
qed (auto simp: running_def tick_def dest: tabD(4))

lemma run_luna_watchdog_thread:
  "run_state (luna_watchdog_thread c) s =
     ((), if watchdog_flag s = 0 then s else s\<lparr>wtd_count := (wtd_count s)(c := True)\<rparr>)"
  by (simp add: luna_watchdog_thread_def touch_wtd_count_def)

lemma run_watchdog_timeout_thread:
  "run_state (watchdog_timeout_thread e) s =
     ((), if watchdog_flag s = 0 \<or> \<not> list_all (\<lambda>c. c = 0 \<or> wtd_count s c) (online_cpus e) then s
          else snd (run_state (RTK_WDG_KICK e)
            (s\<lparr>wtd_count := (\<lambda>c. if c \<in> set (online_cpus e) then False else wtd_count s c)\<rparr>)))"
  by (simp add: watchdog_timeout_thread_def kick_rtk_watchdog_def CHECK_CPUS_AND_KICK_def RTK_WDG_KICK_def)

text \<open>
  A CPU that does not report: the number of kicks plus one if its report is still pending
  does not grow.
\<close>

definition hung_bound :: "wdt_env \<Rightarrow> nat \<Rightarrow> nat \<Rightarrow> fault + wdt \<Rightarrow> bool" where
  "hung_bound e c n x \<longleftrightarrow> (case x of Inl _ \<Rightarrow> True
     | Inr s \<Rightarrow> kicks e s + (if wtd_count s c then 1 else 0) \<le> n)"

definition hung_event :: "wdt_env \<Rightarrow> nat \<Rightarrow> wdt_event \<Rightarrow> bool" where
  "hung_event e c ev \<longleftrightarrow> regs_ok e \<and> c \<noteq> 0 \<and> c \<in> set (online_cpus e) \<and> ev \<noteq> Tick c
     \<and> (case ev of Flag_write b \<Rightarrow> False | _ \<Rightarrow> True)"

lemma hung_tick:
  assumes "c \<noteq> 0" and "c \<in> set (online_cpus e)" and "c' \<noteq> c"
  shows "kicks e (snd (run_state (tick e c') s)) + (if wtd_count (snd (run_state (tick e c') s)) c then 1 else 0)
    \<le> kicks e s + (if wtd_count s c then 1 else 0)"
proof -
  have "kicks e (snd (run_state (luna_watchdog_thread c') s)) = kicks e s"
      "wtd_count (snd (run_state (luna_watchdog_thread c') s)) c = wtd_count s c"
    using assms by (simp_all add: run_luna_watchdog_thread)
  moreover have "kicks e (snd (run_state (watchdog_timeout_thread e) s))
      + (if wtd_count (snd (run_state (watchdog_timeout_thread e) s)) c then 1 else 0)
      \<le> kicks e s + (if wtd_count s c then 1 else 0)"
    using assms by (auto simp: run_watchdog_timeout_thread RTK_WDG_KICK_def list_all_iff)
  ultimately show ?thesis
    by (auto simp: tick_def split: task_ptr.splits)
qed

lemma hung_step:
  assumes "hung_event e c ev" and "hung_bound e c n x"
  shows "hung_bound e c n (wdt_step e ev x)"
proof (cases x)
  case (Inr s)
  show ?thesis
  proof (cases ev)
    case (Tick c')
    then show ?thesis
      using assms Inr hung_tick [of c e c' s] by (auto simp: hung_bound_def lift_call_def hung_event_def split_beta)
  next
    case (Timeout_write b)
    then show ?thesis
      using assms Inr by (cases b) (auto simp: hung_bound_def lift_call_def hung_event_def wdg_timeout_write_def
          set_rtk_wdt_ph1_threshold_def show_usage_def Let_def regs_ok_def)
  next
    case (Kick_time_write b)
    then show ?thesis
      using assms Inr by (cases b) (auto simp: hung_bound_def lift_call_def hung_event_def kick_wdg_time_write_def)
  qed (use assms in \<open>simp add: hung_event_def\<close>)
qed (simp add: hung_bound_def lift_call_def)

interpretation hung: event_system "wdt_step e" "hung_event e c" "hung_bound e c n" for e c n
  by unfold_locales (rule hung_step)

subsection \<open>Progress\<close>

definition alive :: "wdt_env \<Rightarrow> wdt \<Rightarrow> bool" where
  "alive e s \<longleftrightarrow> running e True s \<and> watchdog_flag s \<noteq> 0"

abbreviation ticked :: "wdt_env \<Rightarrow> nat \<Rightarrow> wdt \<Rightarrow> wdt" where
  "ticked e c s \<equiv> snd (run_state (tick e c) s)"

lemma alive_tick: "alive e s \<Longrightarrow> alive e (ticked e c s)"
  by (simp add: alive_def inertD inert_tick)

lemma tick_secondary:
  "alive e s \<Longrightarrow> c \<noteq> 0 \<Longrightarrow> c \<in> set (online_cpus e) \<Longrightarrow>
     kicks e (ticked e c s) = kicks e s \<and> wtd_count (ticked e c s) = (wtd_count s)(c := True)"
  by (auto simp: alive_def tick_unfold run_luna_watchdog_thread)

lemma tick_zero:
  assumes "alive e s" and "0 \<in> set (online_cpus e)"
  shows "if \<forall>c\<in>set (online_cpus e). c \<noteq> 0 \<longrightarrow> wtd_count s c then kicks e (ticked e 0 s) = kicks e s + 1
     else ticked e 0 s = s"
  using assms by (auto simp: alive_def tick_unfold run_watchdog_timeout_thread RTK_WDG_KICK_def list_all_iff)

lemma tick_offline: "alive e s \<Longrightarrow> c \<notin> set (online_cpus e) \<Longrightarrow> ticked e c s = s"
  by (auto simp: alive_def tick_unfold)

text \<open>A round either kicks or keeps the reports collected so far and adds its own.\<close>

lemma tick_progress:
  assumes "alive e s" and "0 \<in> set (online_cpus e)"
  shows "kicks e s < kicks e (ticked e c s) \<or>
    kicks e (ticked e c s) = kicks e s \<and> (\<forall>d. wtd_count s d \<longrightarrow> wtd_count (ticked e c s) d)
      \<and> (c \<in> set (online_cpus e) \<and> c \<noteq> 0 \<longrightarrow> wtd_count (ticked e c s) c)"
proof -
  consider "c \<notin> set (online_cpus e)" | "c = 0" | "c \<noteq> 0" "c \<in> set (online_cpus e)" by blast
  then show ?thesis
  proof cases
    case 1
    with assms show ?thesis by (simp add: tick_offline)
  next
    case 2
    with tick_zero [OF assms] show ?thesis by (auto split: if_splits)
  next
    case 3
    with assms show ?thesis by (simp add: tick_secondary)
  qed
qed

lemma ticks_progress:
  assumes "alive e s" and "0 \<in> set (online_cpus e)"
  shows "alive e (fold (ticked e) cs s) \<and> (kicks e s < kicks e (fold (ticked e) cs s) \<or>
    kicks e (fold (ticked e) cs s) = kicks e s
      \<and> (\<forall>d. wtd_count s d \<or> (d \<in> set cs \<and> d \<in> set (online_cpus e) \<and> d \<noteq> 0) \<longrightarrow> wtd_count (fold (ticked e) cs s) d))"
  using assms(1)
proof (induction cs arbitrary: s)
  case (Cons c cs)
  from Cons.IH [OF alive_tick [OF Cons.prems, of c]] tick_progress [OF Cons.prems assms(2), of c]
  show ?case by auto
qed simp

lemma fold_ticks: "fold (wdt_step e) (map Tick cs) (Inr s) = Inr (fold (ticked e) cs s)"
  by (induction cs arbitrary: s) (simp_all add: lift_call_def split_beta)

section \<open>Properties\<close>


definition quad_env :: wdt_env where
  "quad_env = \<lparr>wdev = (\<lambda>h r. case last_write h r of Some v \<Rightarrow> v | None \<Rightarrow> 0), online_cpus = [0, 1, 2, 3],
     kfail = (\<lambda>_. None), gcr_base = True, simple_strtoul = (\<lambda>s b. if s = ''0'' then 0 else 1),
     BSP_WDTCTRLR = 0xb8003268, BSP_WDTCNTRR = 0xb8003260, BSP_WDTINTRR = 0xb8003264, WDT_E = 0x80000000,
     WDT_KICK = 0x80000000, WDT_PH12_TO_MSK = 0x1f, WDT_PH1_TO_SHIFT = 22, WDT_PH2_TO_SHIFT = 15,
     WDT_CLK_SC_SHIFT = 29\<rparr>"

lemma quad_env_ok: "cpus_ok quad_env" "create_ok quad_env" "regs_ok quad_env"
  by (simp_all add: quad_env_def cpus_ok_def create_ok_def regs_ok_def NR_CPUS_def STICK_REGISTER_def)




text \<open>The CPU that the self-test hangs is one the driver notices, if the CPUs are numbered without gaps.\<close>

lemma lock_test_noticed:
  assumes "online_cpus e = [0..<n]" "2 \<le> n" "wdt_lock_write e ubuf = (r, Some c)"
  shows "c \<noteq> 0 \<and> c \<in> set (online_cpus e)"
  using assms by (auto simp: wdt_lock_write_def wdt_lock_func_def split: option.splits if_splits)



end
