(* ===== verification/Watchdog_Regs.thy ===== *)
theory Watchdog_Regs
  imports Watchdog_Props
begin

text \<open>
  The control register of the watchdog: what programming a timeout writes, and two consequences
  of unchecked input and of an unchecked thread creation.
\<close>

text \<open>
  The layout of the control register, as \<open>show_usage\<close> decodes it, for the constants of \<open>bspchip.h\<close>.
\<close>

definition wdt_layout :: "wdt_env \<Rightarrow> bool" where
  "wdt_layout e \<longleftrightarrow> WDT_PH12_TO_MSK e = 0x1f \<and> WDT_PH1_TO_SHIFT e = 22 \<and> WDT_PH2_TO_SHIFT e = 15
     \<and> WDT_CLK_SC_SHIFT e = 29"

lemma mask_numerals: "(1 :: u32) = mask 1" "(3 :: u32) = mask 2" "(0x1F :: u32) = mask 5"
  by (simp_all add: mask_eq_exp_minus_1)

lemma bit_threshold_value:
  assumes "wdt_layout e" and "sec \<noteq> 0" and "n < 32"
  shows "bit (threshold_value e s sec v) n \<longleftrightarrow>
    bit v n \<and> \<not> (22 \<le> n \<and> n < 27) \<and> \<not> (15 \<le> n \<and> n < 20) \<or> 15 \<le> n \<and> bit (wdg_timeout_ph2 s) (n - 15)
    \<or> 29 \<le> n \<and> bit (wdg_clk_sc s) (n - 29) \<or> bit (wdg_rest_mode s) n \<or> 22 \<le> n \<and> bit sec (n - 22)"
  using assms by (auto simp: threshold_value_def wdt_layout_def mask_numerals Let_def bit_simps)

lemma bit_small_lt: "unat (p :: u32) < 2 ^ k \<Longrightarrow> bit p i \<Longrightarrow> i < k"
  using bit_word_small [of p k i] by (cases "k \<le> i") auto

lemma field_eqI:
  fixes a b :: u32
  assumes "unat b < 2 ^ k" and "\<And>n. n < k \<Longrightarrow> n < 32 - i \<Longrightarrow> bit a (i + n) = bit b n" and "i + k \<le> 32"
  shows "drop_bit i a AND mask k = b"
proof (rule bit_word_eqI)
  fix n
  show "bit (drop_bit i a AND mask k) n = bit b n"
    using assms(2) [of n] bit_small_lt [OF assms(1), of n] assms(3) by (auto simp: bit_simps)
qed

lemma unat_mask_lt: "unat (v AND mask k :: u32) < 2 ^ k"
  by (simp add: take_bit_eq_mask [symmetric] unsigned_take_bit_eq take_bit_nat_less_exp)

lemma unat_or_lt: "unat (a :: u32) < 2 ^ k \<Longrightarrow> unat b < 2 ^ k \<Longrightarrow> unat (a OR b) < 2 ^ k"
proof -
  assume "unat a < 2 ^ k" "unat b < 2 ^ k"
  then have "a OR b = (a OR b) AND mask k"
    by (simp add: and_mask_small bit.conj_disj_distrib2)
  then show ?thesis using unat_mask_lt [of "a OR b" k] by simp
qed

lemma threshold_fields:
  assumes "wdt_layout e" and "unat sec < 2 ^ 5" and "unat (wdg_timeout_ph2 s) < 2 ^ 5"
    and "unat (wdg_clk_sc s) < 2 ^ 2" and "unat (wdg_rest_mode s) < 2 ^ 2" and "sec \<noteq> 0"
  shows "decode_setting (threshold_value e s sec v) = \<lparr>
     set_WDT_E = set_WDT_E (decode_setting v),
     set_CLK_SC = set_CLK_SC (decode_setting v) OR wdg_clk_sc s,
     set_PH1_TO = sec, set_PH2_TO = wdg_timeout_ph2 s,
     set_RESET_MODE = set_RESET_MODE (decode_setting v) OR wdg_rest_mode s\<rparr>"
proof -
  note bits = assms(2-5) [THEN bit_word_small] and b = bit_threshold_value [OF assms(1,6)]
  let ?t = "threshold_value e s sec v"
  have "drop_bit 22 ?t AND 0x1F = sec"
    unfolding mask_numerals by (rule field_eqI) (use assms(2) in \<open>auto simp: b bits\<close>)
  moreover have "drop_bit 15 ?t AND 0x1F = wdg_timeout_ph2 s"
    unfolding mask_numerals by (rule field_eqI) (use assms(3) in \<open>auto simp: b bits\<close>)
  moreover have "drop_bit 31 ?t AND 1 = drop_bit 31 v AND 1"
    unfolding mask_numerals by (rule field_eqI) (use unat_mask_lt [of _ 1] in \<open>auto simp: b bits bit_simps\<close>)
  moreover have "drop_bit 29 ?t AND 3 = (drop_bit 29 v AND 3) OR wdg_clk_sc s"
    unfolding mask_numerals by (rule field_eqI) (use unat_or_lt [OF unat_mask_lt assms(4)] in \<open>auto simp: b bits bit_simps\<close>)
  moreover have "?t AND 3 = (v AND 3) OR wdg_rest_mode s"
    unfolding mask_numerals by (rule field_eqI [where i = 0, simplified]) (use unat_or_lt [OF unat_mask_lt assms(5)] in \<open>auto simp: b bits bit_simps\<close>)
  ultimately show ?thesis
    by (simp add: decode_setting_def)
qed

lemma threshold_default: "threshold_value e s 0 v = threshold_value e s 31 v"
  by (simp add: threshold_value_def)

lemma last_write_threshold:
  "last_write (io (snd (run_state (set_rtk_wdt_ph1_threshold e sec) s))) (BSP_WDTCTRLR e)
     = Some (threshold_value e s sec (wdev e (io s) (BSP_WDTCTRLR e)))"
  by (simp add: set_rtk_wdt_ph1_threshold_def show_usage_def threshold_value_def)

text \<open>
  C11: programming a timeout of 0 to 31 writes a control register that decodes to that timeout
  (31 for zero) and to the configured second phase, leaves the enable bit as it was, and adds
  the clock scale and reset mode to the bits already set there.
\<close>

theorem wdt_threshold_decodes:
  assumes "wdt_layout e" and "sec < 32" and "wdg_timeout_ph2 s < 32" and "wdg_clk_sc s < 4" and "wdg_rest_mode s < 4"
  shows "\<exists>w. last_write (io (snd (run_state (set_rtk_wdt_ph1_threshold e sec) s))) (BSP_WDTCTRLR e) = Some w
    \<and> (let old = decode_setting (wdev e (io s) (BSP_WDTCTRLR e)) in decode_setting w = \<lparr>
     set_WDT_E = set_WDT_E old, set_CLK_SC = set_CLK_SC old OR wdg_clk_sc s,
     set_PH1_TO = (if sec = 0 then 31 else sec), set_PH2_TO = wdg_timeout_ph2 s,
     set_RESET_MODE = set_RESET_MODE old OR wdg_rest_mode s\<rparr>)"
  using assms threshold_fields [of e sec s] threshold_fields [of e 31 s]
  by (simp add: last_write_threshold threshold_default Let_def word_less_nat_alt)

theorem wdt_threshold_decodes_witness:
  "\<exists>w. last_write (io (snd (run_state (set_rtk_wdt_ph1_threshold quad_env 20) wdt_boot))) (BSP_WDTCTRLR quad_env) = Some w
     \<and> set_PH1_TO (decode_setting w) = 20 \<and> set_CLK_SC (decode_setting w) = 3"
  using wdt_threshold_decodes [of quad_env 20 wdt_boot]
  by (auto simp: wdt_layout_def quad_env_def wdt_boot_def decode_setting_def)

subsection \<open>Observations\<close>

text \<open>
  The timeout is not masked: writing 512 to the timeout file sets the enable bit of a watchdog
  that was off.
\<close>

lemma threshold_unmasked:
  assumes "wdt_layout e"
  shows "set_WDT_E (decode_setting (threshold_value e s 512 v)) = 1"
proof -
  have "drop_bit 31 (threshold_value e s 512 v) AND mask 1 = 1"
    by (rule field_eqI) (simp_all add: bit_threshold_value [OF assms])
  then show ?thesis by (simp add: decode_setting_def)
qed

text \<open>
  When the creation of the first thread fails, the error pointer stays in the table, and
  switching the watchdog off dereferences it.
\<close>

lemma inert_tasks: "inert m \<Longrightarrow> pWatchdogTask (snd (run_state m s)) = pWatchdogTask s"
  by (simp add: inert_def Let_def)

lemma failed_create_faults:
  assumes "kfail e 0 = Some err" and "online_cpus e = 0 # cpus" and "simple_strtoul e (take 15 buf) 16 = 0"
  shows "wdt_step e (Flag_write (Some buf)) (wdt_loaded e) = Inl Oops"
proof -
  obtain s where s: "wdt_loaded e = Inr s" "pWatchdogTask s 0 = Err_ptr err"
    using assms(1) by (simp add: wdt_loaded_def lift_call_def watchdog_timeout_init_def run_state_bindE split_beta
        wdt_thread_maintain_def kthread_create_def set_task_def wdt_boot_def inert_tasks inert_rules)
  then show ?thesis
    using assms(2,3) by (simp add: lift_call_def watchdog_write_def run_state_bindE wdt_thread_maintain_def split_beta
        inert_tasks inert_rules NR_CPUS_def kthread_stop_def with_task_def Let_def)
qed

end
