(* ===== verification/Dns_Trap.thy ===== *)
theory Dns_Trap
  imports Bsp_Prelude
begin

text \<open>
  The DNS trap (\<open>drivers/net/ethernet/realtek/rtk_dns_trap.c\<close>): queries for the host name of
  the gateway are answered by the driver itself.  A packet is a list of bytes, accesses outside
  of it are faults.  The DNS header has the layout of the protocol: six 16 bit fields.
\<close>

section \<open>State and environment\<close>

record dns_globals =
  skb_mark :: int
  use_controller_info :: int
  controller_ip :: "u8 list"
  domain_name :: "u8 list"
  dns_trap_enable :: int
  dns_trap_all :: int

text \<open>
  A socket buffer: the bytes from \<open>skb->data\<close> on, the bytes of memory that follow them, and the
  Ethernet addresses in front.
\<close>

record sk_buff =
  protocol :: u16
  h_dest :: "u8 list"
  h_source :: "u8 list"
  data :: "u8 list"
  tailroom :: "u8 list"
  mark :: u32

text \<open>
  What the kernel provides: the bridge device and its addresses, the search for the UDP header
  of an IPv6 packet (as an offset), the checksums, address parsing, scanning of numbers, and
  the C locale.
\<close>

record dns_env =
  br0_dev :: "u8 list option"
  br0_in_dev :: "(string \<times> u8 list) list option"
  br0_in6_addr :: "u8 list option"
  ipv6_find_udp_hdr :: "u8 list \<Rightarrow> nat \<Rightarrow> nat option"
  in4_pton :: "u8 list \<Rightarrow> u8 list"
  ip_fast_csum :: "u8 list \<Rightarrow> u16"
  udp_csum :: "u8 list \<Rightarrow> nat \<Rightarrow> nat \<Rightarrow> nat \<Rightarrow> u16"
  tolower :: "u8 \<Rightarrow> u8"
  sscanf_int :: "u8 list \<Rightarrow> int option"
  sscanf_info :: "u8 list \<Rightarrow> int \<times> u8 list"
  support_trap_all :: bool

definition dns_answer :: "u8 list" where
  "dns_answer = [0xC0, 0x0C, 0x00, 0x01, 0x00, 0x01, 0x00, 0x00, 0x00, 0x00, 0x00, 0x04]"

definition dns_answer_v6 :: "u8 list" where
  "dns_answer_v6 = [0xC0, 0x0C, 0x00, 0x1C, 0x00, 0x01, 0x00, 0x00, 0x00, 0x00, 0x00, 0x10]"

definition EXTEND_LEN_V4 :: nat where "EXTEND_LEN_V4 = 16"
definition EXTEND_LEN_V6 :: nat where "EXTEND_LEN_V6 = 28"

section \<open>Names\<close>

text \<open>\<open>str_to_lower\<close> changes an array up to its terminator; without one it runs off the array.\<close>

definition str_to_lower :: "(u8 \<Rightarrow> u8) \<Rightarrow> u8 list \<Rightarrow> fault + u8 list" where
  "str_to_lower lower s = (if 0 \<in> set s then Inr (map lower (cstr s) @ drop (strlen s) s) else Inl Oops)"

text \<open>A read of the packet.\<close>

definition fetch :: "u8 list \<Rightarrow> nat \<Rightarrow> nat \<Rightarrow> u8 list option" where
  "fetch b i n = (if i + n \<le> length b then Some (slice i n b) else None)"

text \<open>Adding a label to the 128 byte buffer \<open>domain\<close>; \<open>token\<close> has 64 bytes.\<close>

definition add_token :: "u8 list \<Rightarrow> u8 list \<Rightarrow> u8 list" where
  "add_token token domain =
     (if domain ! 0 = 0 then buf_write 0 (take 63 token) domain
      else (let domain = strncat domain [46, 0] (128 - strlen domain - 1)
            in strncat domain token (128 - strlen domain - 1)))"

function domain_loop :: "u8 list \<Rightarrow> int \<Rightarrow> nat \<Rightarrow> u8 list \<Rightarrow> (nat \<times> u8 list) option" where
  "domain_loop dns_body body_len offset domain =
     (if body_len \<le> 0 then Some (offset, domain)
      else case fetch dns_body offset 1 of
        None \<Rightarrow> None
      | Some b \<Rightarrow>
          let token_len = unat (b ! 0) in
          if 0 < token_len \<and> int token_len \<le> body_len then
            (case fetch dns_body (offset + 1) token_len of
               None \<Rightarrow> None
             | Some t \<Rightarrow>
                 if 64 < token_len then None
                 else domain_loop dns_body (body_len - int (token_len + 1)) (offset + (token_len + 1))
                   (add_token (t @ replicate (64 - token_len) 0) domain))
          else Some (offset, domain))"
  by pat_completeness auto

termination domain_loop
proof (relation "measure (\<lambda>(dns_body, body_len, offset, domain). nat body_len)", simp, goal_cases)
  case (1 dns_body body_len offset domain b token_len t)
  then have "0 < token_len" "int token_len \<le> body_len" by blast+
  then have "nat (body_len - int (token_len + 1)) < nat body_len" by linarith
  then show ?case by simp
qed

declare domain_loop.simps [simp del]

text \<open>
  The result is the type of the question and the name, in an array of 512 bytes; a negative
  return leaves that array alone.
\<close>

definition get_domain_name :: "u8 list \<Rightarrow> int \<Rightarrow> (int \<times> u8 list) option" where
  "get_domain_name dns_body body_len =
     (if body_len \<le> 0 then Some (- 1, replicate 512 0)
      else case domain_loop dns_body body_len 0 (replicate 128 0) of
        None \<Rightarrow> None
      | Some (offset, domain) \<Rightarrow>
          (case fetch dns_body (offset + 1) 2 of
             None \<Rightarrow> None
           | Some t \<Rightarrow> Some (sint (be16 t 0), buf_write 0 (take 127 domain) (replicate 512 0))))"

text \<open>Comparison; both arguments are changed to lower case on the way.\<close>

definition strip_www :: "u8 list \<Rightarrow> u8 list" where
  "strip_www s = (if take 4 s = [119, 119, 119, 46] then drop 4 s else s)"

definition is_domain_name_equal :: "(u8 \<Rightarrow> u8) \<Rightarrow> u8 list \<Rightarrow> u8 list \<Rightarrow> fault + (bool \<times> u8 list \<times> u8 list)" where
  "is_domain_name_equal lower domain_name1 domain_name2 =
     (case str_to_lower lower domain_name1 of Inl f \<Rightarrow> Inl f | Inr n1 \<Rightarrow>
      (case str_to_lower lower domain_name2 of Inl f \<Rightarrow> Inl f | Inr n2 \<Rightarrow>
        (let temp1 = strip_www (cstr n1); temp2 = strip_www (cstr n2)
         in if 128 \<le> length temp1 \<or> 128 \<le> length temp2 then Inl Oops
            else Inr (temp1 = temp2, n1, n2))))"

section \<open>The query\<close>

definition is_valid_dns_query_header :: "u16 \<Rightarrow> u16 \<Rightarrow> bool" where
  "is_valid_dns_query_header u qdcount \<longleftrightarrow>
     \<not> qdcount < 1 \<and> drop_bit 15 (u AND 0x8000) = 0 \<and> drop_bit 11 (u AND 0x7100) = 0
     \<and> drop_bit 4 (u AND 0x70) = 0"

text \<open>
  The checks at the start of \<open>rtk_dns_trap_enter\<close>: the IP version and the offset of the UDP
  header of a DNS query, \<open>Inl ()\<close> for the early return when the IPv6 search fails.
\<close>

definition vlan_offset :: "sk_buff \<Rightarrow> nat" where
  "vlan_offset skb = (if protocol skb = 0x8100 then 4 else 0)"

definition ip_version :: "u8 list \<Rightarrow> nat \<Rightarrow> nat" where
  "ip_version d off = unat (drop_bit 4 (d ! off))"

definition ip_ihl :: "u8 list \<Rightarrow> nat \<Rightarrow> nat" where
  "ip_ihl d off = unat (d ! off AND 0x0f)"

definition classify :: "dns_env \<Rightarrow> sk_buff \<Rightarrow> unit + (bool \<times> nat) option" where
  "classify e skb =
     (let d = data skb; off = vlan_offset skb in
      if ip_version d off = 4 then
        (if d ! (off + 9) = 17 then
           (let u = off + ip_ihl d off * 4 in
            if be16 d (u + 2) = 53 \<and> be16 d (off + 6) AND 0x3FFF = 0 \<and> 20 \<le> be16 d (off + 2) - be16 d (u + 4)
            then Inr (Some (False, u)) else Inr None)
         else Inr None)
      else if ip_version d off = 6 then
        (case ipv6_find_udp_hdr e d off of
           None \<Rightarrow> Inl ()
         | Some u \<Rightarrow> if be16 d (u + 2) = 53 then Inr (Some (True, u)) else Inr None)
      else Inr None)"

section \<open>The answer\<close>

text \<open>The address of the bridge: the alias when there is one, the interface otherwise.\<close>

fun br0_address :: "(string \<times> u8 list) list \<Rightarrow> u8 list option \<Rightarrow> u8 list option" where
  "br0_address [] found = found"
| "br0_address ((label, addr) # ifas) found =
     (if take 16 label = ''br0:0'' then Some addr
      else if take 16 label = ''br0'' then br0_address ifas (Some addr)
      else br0_address ifas found)"

text \<open>The changes of the headers: addresses and ports swapped, lengths extended, flags set.\<close>

definition add16 :: "u8 list \<Rightarrow> nat \<Rightarrow> nat \<Rightarrow> u8 list" where
  "add16 d i n = bytes16 (be16 d i + of_nat n)"

definition swap_bytes :: "nat \<Rightarrow> nat \<Rightarrow> nat \<Rightarrow> u8 list \<Rightarrow> (nat \<times> u8 list) list" where
  "swap_bytes i j n d = [(i, slice j n d), (j, slice i n d)]"

definition ip_edits :: "nat \<Rightarrow> bool \<Rightarrow> nat \<Rightarrow> (u8 list \<Rightarrow> (nat \<times> u8 list) list) list" where
  "ip_edits off v6 ext =
     (if v6 then [swap_bytes (off + 8) (off + 24) 16, \<lambda>d. [(off + 4, add16 d (off + 4) ext)]]
      else [swap_bytes (off + 12) (off + 16) 4, \<lambda>d. [(off + 2, add16 d (off + 2) ext)]])"

definition udp_edits :: "nat \<Rightarrow> nat \<Rightarrow> (u8 list \<Rightarrow> (nat \<times> u8 list) list) list" where
  "udp_edits u ext =
     [swap_bytes u (u + 2) 2, \<lambda>d. [(u + 4, add16 d (u + 4) ext)],
      \<lambda>_. [(u + 8 + 2, bytes16 0x8180), (u + 8 + 4, bytes16 1), (u + 8 + 6, bytes16 1),
           (u + 8 + 8, bytes16 0), (u + 8 + 10, bytes16 0)]]"

definition header_edits :: "nat \<Rightarrow> nat \<Rightarrow> bool \<Rightarrow> nat \<Rightarrow> (u8 list \<Rightarrow> (nat \<times> u8 list) list) list" where
  "header_edits off u v6 ext = ip_edits off v6 ext @ udp_edits u ext"

definition checksum_edits :: "dns_env \<Rightarrow> nat \<Rightarrow> nat \<Rightarrow> bool \<Rightarrow> (u8 list \<Rightarrow> (nat \<times> u8 list) list) list" where
  "checksum_edits e off u v6 =
     (if v6 then []
      else [\<lambda>_. [(off + 10, bytes16 0)],
            \<lambda>d. [(off + 10, bytes16 (ip_fast_csum e (slice off (4 * ip_ihl d off) d)))]]) @
     [\<lambda>_. [(u + 6, bytes16 0)], \<lambda>d. [(u + 6, bytes16 (udp_csum e d off u (unat (be16 d (u + 4)))))]]"

text \<open>
  The answer record at \<open>ptr\<close>; false when no address is known, after part of it is written.
  A missing IPv6 address is a copy from address zero.
\<close>

definition write_answer :: "dns_env \<Rightarrow> dns_globals \<Rightarrow> (string \<times> u8 list) list \<Rightarrow> int \<Rightarrow> nat \<Rightarrow> u8 list
    \<Rightarrow> fault + (bool \<times> u8 list)" where
  "write_answer e g ifas type ptr d =
     (if type = 0x01 then
        (case pokes [(ptr, dns_answer)] d of None \<Rightarrow> Inl Oops
         | Some d2 \<Rightarrow>
             (case (if use_controller_info g \<noteq> 0 then Some (in4_pton e (cstr (controller_ip g)))
                    else br0_address ifas None) of
                None \<Rightarrow> Inr (False, d2)
              | Some a \<Rightarrow> (case pokes [(ptr + 12, a)] d2 of None \<Rightarrow> Inl Oops | Some d3 \<Rightarrow> Inr (True, d3))))
      else
        (case br0_in6_addr e of None \<Rightarrow> Inl Oops
         | Some a \<Rightarrow> (case pokes [(ptr, dns_answer_v6), (ptr + 12, a)] d of
             None \<Rightarrow> Inl Oops | Some d3 \<Rightarrow> Inr (True, d3))))"

text \<open>
  The result: the return value, the buffer, and whether it was handed to the device for
  transmission.
\<close>

definition rtk_dns_packet_recap :: "dns_env \<Rightarrow> dns_globals \<Rightarrow> sk_buff \<Rightarrow> int \<Rightarrow> bool
    \<Rightarrow> fault + (int \<times> sk_buff \<times> bool)" where
  "rtk_dns_packet_recap e g skb type v6 =
     (let off = vlan_offset skb in
      if type \<noteq> 0x01 \<and> type \<noteq> 0x1c then Inr (- 1, skb, False)
      else let extend_len = (if type = 0x01 then EXTEND_LEN_V4 else EXTEND_LEN_V6) in
      case (br0_dev e, br0_in_dev e) of
        (Some dev_addr, Some ifas) \<Rightarrow>
          (case (if v6 then ipv6_find_udp_hdr e (data skb) off else Some (off + ip_ihl (data skb) off * 4)) of
             None \<Rightarrow> Inr (- 1, skb, False)
           | Some u \<Rightarrow>
               let ptr = u + unat (be16 (data skb) (u + 4)) in
               if length (tailroom skb) < extend_len then Inl Oops
               else
                 let d = data skb @ take extend_len (tailroom skb);
                     skb1 = skb\<lparr>h_dest := h_source skb, h_source := dev_addr, tailroom := drop extend_len (tailroom skb)\<rparr>
                 in case edits (header_edits off u v6 extend_len) d of None \<Rightarrow> Inl Oops
                 | Some d1 \<Rightarrow>
                   (case write_answer e g ifas type ptr d1 of Inl f \<Rightarrow> Inl f
                    | Inr (found, d3) \<Rightarrow>
                        if \<not> found then Inr (- 1, skb1\<lparr>data := d3\<rparr>, False)
                        else (case edits (checksum_edits e off u v6) d3 of None \<Rightarrow> Inl Oops
                          | Some d4 \<Rightarrow> Inr (0, skb1\<lparr>data := d4, mark := mark skb OR push_bit (nat (skb_mark g)) 1\<rparr>, True))))
      | _ \<Rightarrow> Inr (- 1, skb, False))"

section \<open>Entry\<close>

text \<open>What follows for a packet to port 53 whose UDP header is at \<open>u\<close>.\<close>

definition trap_query :: "dns_env \<Rightarrow> dns_globals \<Rightarrow> sk_buff \<Rightarrow> bool \<Rightarrow> nat
    \<Rightarrow> fault + (int \<times> dns_globals \<times> sk_buff \<times> bool)" where
  "trap_query e g skb v6 u =
     (let d = data skb; len = int (unat (be16 d (u + 4))) - 8 - 12 - 4 in
      if len \<le> 1 \<or> 63 < len then Inr (- 1, g, skb, False)
      else if \<not> is_valid_dns_query_header (be16 d (u + 8 + 2)) (be16 d (u + 8 + 4)) then Inr (- 1, g, skb, False)
      else (case get_domain_name (drop (u + 8 + 12) d) len of
         None \<Rightarrow> Inl Oops
       | Some (type, domain) \<Rightarrow>
           if type \<noteq> 0x01 \<and> type \<noteq> 0x1c then Inr (- 1, g, skb, False)
           else if support_trap_all e \<and> dns_trap_all g \<noteq> 0 then
             (case rtk_dns_packet_recap e g skb type v6 of Inl f \<Rightarrow> Inl f
                | Inr (r, skb', sent) \<Rightarrow> Inr (r, g, skb', sent))
           else (case is_domain_name_equal (tolower e) domain (domain_name g) of Inl f \<Rightarrow> Inl f
             | Inr (eq, _, name) \<Rightarrow>
                 let g' = g\<lparr>domain_name := name\<rparr> in
                 if eq then (case rtk_dns_packet_recap e g' skb type v6 of Inl f \<Rightarrow> Inl f
                   | Inr (r, skb', sent) \<Rightarrow> Inr (r, g', skb', sent))
                 else Inr (- 1, g', skb, False))))"

definition rtk_dns_trap_enter :: "dns_env \<Rightarrow> dns_globals \<Rightarrow> sk_buff
    \<Rightarrow> fault + (int \<times> dns_globals \<times> sk_buff \<times> bool)" where
  "rtk_dns_trap_enter e g skb =
     (case classify e skb of
        Inr (Some (v6, u)) \<Rightarrow> trap_query e g skb v6 u
      | _ \<Rightarrow> Inr (- 1, g, skb, False))"

section \<open>Files\<close>

text \<open>
  Writes of user memory: \<open>ubuf\<close> is what can be read at the address, \<open>None\<close> when it cannot.
  Longer input overruns the 80 byte buffers.
\<close>

definition user_line :: "u8 list option \<Rightarrow> nat \<Rightarrow> (u8 list \<Rightarrow> dns_globals \<Rightarrow> dns_globals) \<Rightarrow> dns_globals
    \<Rightarrow> fault + ((errno + nat) \<times> dns_globals)" where
  "user_line ubuf count f g =
     (if count < 2 then Inr (Inl EFAULT, g)
      else case ubuf of None \<Rightarrow> Inr (Inl EFAULT, g)
        | Some b \<Rightarrow> if 80 \<le> count then Inl Oops else Inr (Inr count, f (take count b @ [0]) g))"

definition dnstrap_en_write :: "u8 list option \<Rightarrow> nat \<Rightarrow> dns_globals \<Rightarrow> fault + ((errno + nat) \<times> dns_globals)" where
  "dnstrap_en_write ubuf count = user_line ubuf count (\<lambda>b g.
     if b ! 0 = 48 then g\<lparr>dns_trap_enable := 0\<rparr> else if b ! 0 = 49 then g\<lparr>dns_trap_enable := 1\<rparr> else g)"

definition dnstrap_trap_all_write :: "u8 list option \<Rightarrow> nat \<Rightarrow> dns_globals \<Rightarrow> fault + ((errno + nat) \<times> dns_globals)" where
  "dnstrap_trap_all_write ubuf count = user_line ubuf count (\<lambda>b g.
     if b ! 0 = 48 then g\<lparr>dns_trap_all := 0\<rparr> else if b ! 0 = 49 then g\<lparr>dns_trap_all := 1\<rparr> else g)"

definition dnstrap_skbmark_write :: "dns_env \<Rightarrow> u8 list option \<Rightarrow> nat \<Rightarrow> dns_globals
    \<Rightarrow> fault + ((errno + nat) \<times> dns_globals)" where
  "dnstrap_skbmark_write e ubuf count = user_line ubuf count (\<lambda>b g.
     case sscanf_int e b of None \<Rightarrow> g | Some v \<Rightarrow> g\<lparr>skb_mark := v\<rparr>)"

definition dnstrap_controller_info_write :: "dns_env \<Rightarrow> u8 list option \<Rightarrow> nat \<Rightarrow> dns_globals
    \<Rightarrow> fault + ((errno + nat) \<times> dns_globals)" where
  "dnstrap_controller_info_write e ubuf count = user_line ubuf count (\<lambda>b g.
     let (use, ip) = sscanf_info e b
     in g\<lparr>use_controller_info := use, controller_ip := buf_write 0 (cstr ip @ [0]) (controller_ip g)\<rparr>)"

definition dnstrap_domain_write :: "dns_env \<Rightarrow> u8 list option \<Rightarrow> nat \<Rightarrow> dns_globals
    \<Rightarrow> fault + ((errno + nat) \<times> dns_globals)" where
  "dnstrap_domain_write e ubuf count g =
     (if count < 2 then Inr (Inl EFAULT, g)
      else case ubuf of None \<Rightarrow> Inr (Inl EFAULT, g)
        | Some b \<Rightarrow>
            if 80 < count then Inl Oops
            else (case str_to_lower (tolower e) ((take 80 b)[count - 1 := 0]) of Inl f \<Rightarrow> Inl f
               | Inr name \<Rightarrow> Inr (Inr count, g\<lparr>domain_name := name\<rparr>)))"

text \<open>\<open>DEFAULT_HOSTNAME\<close>, \<open>wifi.example.com\<close>, in an array of 80 bytes.\<close>

definition DEFAULT_HOSTNAME :: "u8 list" where
  "DEFAULT_HOSTNAME = [119, 105, 102, 105, 46, 101, 120, 97, 109, 112, 108, 101, 46, 99, 111, 109]"

definition dns_globals_boot :: dns_globals where
  "dns_globals_boot = \<lparr>skb_mark = 0, use_controller_info = 0, controller_ip = replicate 128 0,
     domain_name = replicate 80 0, dns_trap_enable = 1, dns_trap_all = 1\<rparr>"

definition rtk_dns_trap_init :: "dns_env \<Rightarrow> dns_globals \<Rightarrow> fault + dns_globals" where
  "rtk_dns_trap_init e g =
     (case str_to_lower (tolower e) (buf_write 0 (DEFAULT_HOSTNAME @ [0]) (replicate 80 0)) of
        Inl f \<Rightarrow> Inl f | Inr name \<Rightarrow> Inr (g\<lparr>domain_name := name\<rparr>))"

end
