(* ===== verification/Dns_Props.thy ===== *)
theory Dns_Props
  imports Dns_Trap
begin

text \<open>
  Properties of the DNS trap: parsing stays inside the packet and inverts the encoding of
  names, answers are well formed, packets that are not answered are left alone, and the
  configured name stays terminated.
\<close>

section \<open>C strings in arrays\<close>

lemma cstr_take: "strlen b < n \<Longrightarrow> cstr (take n b) = cstr b"
proof (induction b arbitrary: n)
  case (Cons x b)
  then show ?case by (cases n; cases "x = 0") (auto simp: cstr_def)
qed simp

lemma cstr_append_zero: "strlen b < length b \<Longrightarrow> cstr (b @ r) = cstr b"
  using cstr_take [of b "length b"] by (induction b) (auto simp: cstr_def)

lemma cstr_map: "(\<And>c. f c = 0 \<longleftrightarrow> c = 0) \<Longrightarrow> cstr (map f b) = map f (cstr b)"
  unfolding cstr_def by (induction b) auto

lemma length_strncat:
  "strlen dst + min n (strlen src) < length dst \<Longrightarrow> length (strncat dst src n) = length dst"
  by (simp add: strncat_def min.commute)

lemma take_strlen: "take (strlen b) b = cstr b"
  by (simp add: cstr_def takeWhile_eq_take [symmetric])

lemma cstr_strncat:
  "strlen dst + min n (strlen src) < length dst \<Longrightarrow> cstr (strncat dst src n) = cstr dst @ take n (cstr src)"
proof -
  have "0 \<notin> set (cstr dst @ take n (cstr src))"
    by (auto dest: in_set_takeD)
  then show ?thesis
    unfolding strncat_def buf_write_def take_strlen
    using cstr_append_NUL [of "cstr dst @ take n (cstr src)"] by simp
qed

lemma last_strncat:
  assumes "strlen dst + min n (strlen src) < length dst" and "dst ! (length dst - 1) = 0"
  shows "strncat dst src n ! (length dst - 1) = 0"
  using assms by (auto simp: strncat_def nth_buf_write nth_append min.commute)

section \<open>The name buffer\<close>

definition name_buf :: "u8 list \<Rightarrow> bool" where
  "name_buf d \<longleftrightarrow> length d = 128 \<and> d ! 127 = 0"

lemma name_bufD: "name_buf d \<Longrightarrow> strlen d < 128"
  unfolding name_buf_def using strlen_lt [of d] nth_mem [of 127 d] by auto

lemma name_buf_strncat: "name_buf d \<Longrightarrow> name_buf (strncat d src (127 - strlen d))"
proof -
  assume d: "name_buf d"
  then have "strlen d + min (127 - strlen d) (strlen src) < length d"
    using name_bufD [of d] by (auto simp: name_buf_def min_def)
  with d show ?thesis
    using length_strncat [of d "127 - strlen d" src] last_strncat [of d "127 - strlen d" src]
    by (simp add: name_buf_def)
qed

lemma name_buf_add_token: "name_buf d \<Longrightarrow> name_buf (add_token t d)"
proof (cases "d ! 0 = 0")
  case True
  assume "name_buf d"
  with True show ?thesis
    by (auto simp: add_token_def name_buf_def nth_buf_write)
next
  case False
  assume "name_buf d"
  with False show ?thesis
    by (simp add: add_token_def Let_def name_buf_strncat)
qed

lemma cstr_zeros: "0 \<notin> set t \<Longrightarrow> 0 < m \<Longrightarrow> cstr (t @ replicate m 0) = t"
  by (cases m) auto

lemma add_token_first:
  assumes "length t \<le> 63" and "0 \<notin> set t"
  shows "cstr (add_token (t @ replicate (64 - length t) 0) (replicate 128 0)) = t"
proof -
  have "add_token (t @ replicate (64 - length t) 0) (replicate 128 0) = t @ replicate (63 - length t) 0 @ replicate 65 0"
    using assms by (simp add: add_token_def buf_write_def min_def)
  also have "\<dots> = t @ replicate ((63 - length t) + 65) 0"
    by (simp only: replicate_add)
  finally show ?thesis
    using assms cstr_zeros [of t "(63 - length t) + 65"] by simp
qed

lemma add_token_next:
  assumes "name_buf d" and "cstr d \<noteq> []" and "0 \<notin> set t" and "length t \<le> 63" and "strlen d + length t + 1 < 128"
  shows "cstr (add_token (t @ replicate (64 - length t) 0) d) = cstr d @ 46 # t"
proof -
  have d: "length d = 128" using assms(1) by (simp add: name_buf_def)
  have nz: "d ! 0 \<noteq> 0"
    using assms(2) d by (cases d) (auto simp: cstr_def split: if_splits)
  have dot: "cstr [46, 0] = [46 :: u8]" by (simp add: cstr_def)
  have tok: "cstr (t @ replicate (64 - length t) 0) = t"
    using assms(3,4) by (intro cstr_zeros) auto
  define d1 where "d1 = strncat d [46, 0] (127 - strlen d)"
  have c1: "cstr d1 = cstr d @ [46]"
    unfolding d1_def using assms(5) d by (subst cstr_strncat) (auto simp: dot min_def)
  have l1: "length d1 = 128"
    unfolding d1_def using assms(5) d by (subst length_strncat) (auto simp: dot min_def)
  have "cstr (strncat d1 (t @ replicate (64 - length t) 0) (127 - strlen d1)) = cstr d1 @ t"
    using assms(5) l1 by (subst cstr_strncat) (auto simp: tok c1 min_def)
  then show ?thesis
    using nz by (simp add: add_token_def Let_def d1_def [symmetric] c1)
qed

section \<open>Parsing\<close>

lemma domain_loop_safe:
  assumes "name_buf d" and "body_len \<le> 63" and "- 1 \<le> body_len" and "int offset + body_len = int len" and "len + 4 \<le> length b"
  shows "\<exists>off' d'. domain_loop b body_len offset d = Some (off', d') \<and> off' \<le> len + 1 \<and> name_buf d'"
  using assms
proof (induction b body_len offset d rule: domain_loop.induct)
  case (1 b body_len offset d)
  show ?case
  proof (cases "body_len \<le> 0")
    case True
    with 1 show ?thesis by (subst domain_loop.simps) simp
  next
    case False
    define token_len where "token_len = unat (b ! offset)"
    have f: "fetch b offset 1 = Some [b ! offset]"
      using 1 False by (auto simp: fetch_def slice_def take_Suc_conv_app_nth Cons_nth_drop_Suc [symmetric])
    show ?thesis
    proof (cases "0 < token_len \<and> int token_len \<le> body_len")
      case True
      then have t: "fetch b (offset + 1) token_len = Some (slice (offset + 1) token_len b)"
        using 1 by (auto simp: fetch_def)
      have "token_len \<le> 64" using True 1 by simp
      let ?d = "add_token (slice (offset + 1) token_len b @ replicate (64 - token_len) 0) d"
      have "\<exists>off' d'. domain_loop b (body_len - int (token_len + 1)) (offset + (token_len + 1)) ?d = Some (off', d')
          \<and> off' \<le> len + 1 \<and> name_buf d'"
      proof (rule "1.IH" [OF False f _ _ t])
        show "token_len = unat ([b ! offset] ! 0)" by (simp add: token_len_def)
      qed (use True 1 \<open>token_len \<le> 64\<close> in \<open>auto intro: name_buf_add_token\<close>)
      with f t True False \<open>token_len \<le> 64\<close> show ?thesis
        by (subst domain_loop.simps) (simp add: token_len_def Let_def)
    next
      case outside: False
      with f False 1 show ?thesis
        by (subst domain_loop.simps) (auto simp: token_len_def Let_def)
    qed
  qed
qed

text \<open>The wire format of a name: each label after its length, then an empty one.\<close>

definition encode_name :: "u8 list list \<Rightarrow> u8 list" where
  "encode_name ls = concat (map (\<lambda>l. of_nat (length l) # l) ls) @ [0]"

fun dotted :: "u8 list list \<Rightarrow> u8 list" where
  "dotted [] = []"
| "dotted [l] = l"
| "dotted (l # ls) = l @ 46 # dotted ls"

definition label_ok :: "u8 list \<Rightarrow> bool" where
  "label_ok l \<longleftrightarrow> 0 < length l \<and> length l \<le> 63 \<and> 0 \<notin> set l"

lemma length_encode_Cons: "length (encode_name (l # ls)) = length l + 1 + length (encode_name ls)"
  by (simp add: encode_name_def)

lemma domain_loop_end: "domain_loop (pre @ 0 # rest) body_len (length pre) d = Some (length pre, d)"
  by (subst domain_loop.simps) (simp add: fetch_def slice_def)

lemma domain_loop_label:
  assumes "label_ok l" and "body_len = int (length l + 1 + n)"
  shows "domain_loop (pre @ of_nat (length l) # l @ rest) body_len (length pre) d =
    domain_loop ((pre @ of_nat (length l) # l) @ rest) (int n) (length (pre @ of_nat (length l) # l))
      (add_token (l @ replicate (64 - length l) 0) d)"
proof -
  have len: "unat (of_nat (length l) :: u8) = length l"
    using assms(1) by (simp add: label_ok_def unat_of_nat)
  have "fetch (pre @ of_nat (length l) # l @ rest) (length pre) 1 = Some [of_nat (length l)]"
    by (simp add: fetch_def slice_def)
  moreover have "fetch (pre @ of_nat (length l) # l @ rest) (length pre + 1) (length l) = Some l"
    by (simp add: fetch_def slice_def)
  ultimately show ?thesis
    using assms len by (subst domain_loop.simps) (simp add: label_ok_def Let_def)
qed

lemma domain_loop_labels:
  assumes "list_all label_ok ls" and "name_buf d" and "cstr d \<noteq> []"
    and "strlen d + length (encode_name ls) < 128"
  shows "\<exists>d'. domain_loop (pre @ encode_name ls @ rest) (int (length (encode_name ls))) (length pre) d
      = Some (length pre + length (encode_name ls) - 1, d') \<and> name_buf d' \<and> cstr d' = dotted (cstr d # ls)"
  using assms
proof (induction ls arbitrary: pre d)
  case Nil
  then show ?case by (simp add: encode_name_def domain_loop_end)
next
  case (Cons l ls)
  let ?d = "add_token (l @ replicate (64 - length l) 0) d"
  let ?pre = "pre @ of_nat (length l) # l"
  have c: "cstr ?d = cstr d @ 46 # l"
    using Cons.prems by (intro add_token_next) (auto simp: label_ok_def length_encode_Cons)
  have "\<exists>d'. domain_loop (?pre @ encode_name ls @ rest) (int (length (encode_name ls))) (length ?pre) ?d
      = Some (length ?pre + length (encode_name ls) - 1, d') \<and> name_buf d' \<and> cstr d' = dotted (cstr ?d # ls)"
    using Cons.prems c by (intro Cons.IH) (auto simp: name_buf_add_token length_encode_Cons)
  moreover have "domain_loop (pre @ encode_name (l # ls) @ rest) (int (length (encode_name (l # ls)))) (length pre) d
      = domain_loop (?pre @ encode_name ls @ rest) (int (length (encode_name ls))) (length ?pre) ?d"
    using domain_loop_label [of l _ "length (encode_name ls)" pre "encode_name ls @ rest" d] Cons.prems
    by (simp add: length_encode_Cons encode_name_def)
  moreover have "dotted (cstr ?d # ls) = dotted (cstr d # l # ls)"
    unfolding c by (cases ls) auto
  ultimately show ?case
    by (simp add: length_encode_Cons add.assoc)
qed

lemma name_buf_copy:
  assumes "name_buf d"
  shows "cstr (buf_write 0 (take 127 d) (replicate 512 0)) = cstr d"
proof -
  have "take 127 d @ [0] = d"
    using assms take_Suc_conv_app_nth [of 127 d] by (simp add: name_buf_def)
  moreover have "buf_write 0 (take 127 d) (replicate 512 0) = take 127 d @ replicate (Suc 384) 0"
    using assms by (simp add: buf_write_def name_buf_def del: replicate.simps)
  ultimately have "buf_write 0 (take 127 d) (replicate 512 0) = d @ replicate 384 0"
    by (metis append.assoc append_Cons append_Nil replicate_Suc)
  then show ?thesis
    using name_bufD [OF assms] assms by (simp add: cstr_append_zero name_buf_def)
qed

section \<open>Properties of parsing\<close>

text \<open>
  Whatever bytes a query carries, parsing the name of up to 63 bytes reads only the name and the four
  bytes of type and class after it, and yields a terminated name.
\<close>

lemma parse_safe:
  assumes "0 < len" and "len \<le> 63" and "len + 4 \<le> length body"
  shows "\<exists>type domain. get_domain_name body (int len) = Some (type, domain)
    \<and> length domain = 512 \<and> strlen domain \<le> 127"
proof -
  have "name_buf (replicate 128 0)" by (simp add: name_buf_def)
  then obtain off' d' where d': "domain_loop body (int len) 0 (replicate 128 0) = Some (off', d')" "off' \<le> len + 1" "name_buf d'"
    using domain_loop_safe [of "replicate 128 0" "int len" 0 len body] assms by auto
  then have "fetch body (off' + 1) 2 = Some (slice (off' + 1) 2 body)"
    using assms by (simp add: fetch_def)
  moreover have "strlen (buf_write 0 (take 127 d') (replicate 512 0)) \<le> 127"
    using name_bufD [OF d'(3)] by (simp add: name_buf_copy [OF d'(3)])
  ultimately show ?thesis
    using d' assms by (simp add: get_domain_name_def name_buf_def)
qed

text \<open>
  C18: parsing inverts the wire format: the encoding of a name of non-empty labels, followed by
  the type of the question, is read as that type and the labels joined with dots.
\<close>

theorem dns_name_roundtrip:
  assumes "ls \<noteq> []" and "list_all label_ok ls" and "length (encode_name ls) \<le> 63"
  shows "\<exists>domain. get_domain_name (encode_name ls @ bytes16 qtype @ rest) (int (length (encode_name ls)))
      = Some (sint qtype, domain) \<and> cstr domain = dotted ls"
proof -
  obtain l ls' where ls: "ls = l # ls'" using assms(1) by (cases ls) auto
  let ?d = "add_token (l @ replicate (64 - length l) 0) (replicate 128 0)"
  let ?pre = "of_nat (length l) # l"
  have l: "label_ok l" using assms(2) ls by simp
  have c: "cstr ?d = l" using l by (intro add_token_first) (auto simp: label_ok_def)
  have nb: "name_buf ?d" by (rule name_buf_add_token) (simp add: name_buf_def)
  obtain d' where d': "domain_loop (?pre @ encode_name ls' @ bytes16 qtype @ rest) (int (length (encode_name ls'))) (length ?pre) ?d
      = Some (length ?pre + length (encode_name ls') - 1, d')" "name_buf d'" "cstr d' = dotted (l # ls')"
    using domain_loop_labels [of ls' ?d ?pre "bytes16 qtype @ rest"] assms ls l nb c
    by (auto simp: label_ok_def length_encode_Cons)
  have "domain_loop (encode_name ls @ bytes16 qtype @ rest) (int (length (encode_name ls))) 0 (replicate 128 0)
      = Some (length (encode_name ls) - 1, d')"
    using domain_loop_label [OF l, of _ "length (encode_name ls')" "[]" "encode_name ls' @ bytes16 qtype @ rest" "replicate 128 0"] d'(1)
    by (simp add: ls length_encode_Cons encode_name_def)
  moreover have "fetch (encode_name ls @ bytes16 qtype @ rest) (length (encode_name ls) - 1 + 1) 2 = Some (bytes16 qtype)"
    by (simp add: fetch_def slice_def encode_name_def)
  moreover have "0 < length (encode_name ls)" by (simp add: encode_name_def)
  moreover have "cstr (buf_write 0 (take 127 d') (replicate 512 0)) = dotted ls"
    by (simp add: name_buf_copy [OF d'(2)] d'(3) ls)
  ultimately show ?thesis
    by (simp add: get_domain_name_def d')
qed

theorem dns_name_roundtrip_witness:
  "\<exists>domain. get_domain_name (encode_name [[119, 105], [97]] @ bytes16 1 @ [0, 1]) (int (length (encode_name [[119, 105], [97]])))
     = Some (sint (1 :: u16), domain) \<and> cstr domain = dotted [[119, 105], [97]]"
  by (rule dns_name_roundtrip) (simp_all add: label_ok_def encode_name_def)

section \<open>Comparing names\<close>

definition lower_ok :: "(u8 \<Rightarrow> u8) \<Rightarrow> bool" where
  "lower_ok lower \<longleftrightarrow> (\<forall>c. lower c = 0 \<longleftrightarrow> c = 0)"

lemma str_to_lower_ok:
  assumes "lower_ok lower" and "0 \<in> set s"
  shows "\<exists>s'. str_to_lower lower s = Inr s' \<and> length s' = length s \<and> 0 \<in> set s' \<and> cstr s' = map lower (cstr s)"
proof -
  obtain r where r: "s = cstr s @ 0 # r" using cstr_split [OF assms(2)] by blast
  then have d: "drop (strlen s) s = 0 # r" by (metis append_eq_conv_conj)
  have nz: "0 \<notin> set (map lower (cstr s))"
    using assms(1) cstr_no_NUL [of s] by (auto simp: lower_ok_def)
  have "str_to_lower lower s = Inr (map lower (cstr s) @ 0 # r)"
    using assms(2) by (simp add: str_to_lower_def d)
  moreover have "length (map lower (cstr s) @ 0 # r) = length s"
    using arg_cong [OF r, of length] by simp
  ultimately show ?thesis
    using nz by auto
qed

text \<open>What comparison computes, on terminated arrays that fit the temporaries.\<close>

lemma is_domain_name_equal_iff:
  assumes "lower_ok lower" and "0 \<in> set a" and "0 \<in> set b" and "strlen a < 128" and "strlen b < 128"
  shows "\<exists>a' b'. is_domain_name_equal lower a b = Inr (strip_www (map lower (cstr a)) = strip_www (map lower (cstr b)), a', b')
    \<and> length b' = length b \<and> 0 \<in> set b' \<and> cstr b' = map lower (cstr b)"
proof -
  obtain a' b' where "str_to_lower lower a = Inr a'" "cstr a' = map lower (cstr a)"
      "str_to_lower lower b = Inr b'" "length b' = length b" "0 \<in> set b'" "cstr b' = map lower (cstr b)"
    using str_to_lower_ok [OF assms(1,2)] str_to_lower_ok [OF assms(1,3)] by blast
  then show ?thesis
    using assms(4,5) by (auto simp: is_domain_name_equal_def Let_def strip_www_def)
qed

section \<open>The answer\<close>

text \<open>A query that is complete: the headers and the UDP length lie inside the buffer.\<close>

definition complete :: "sk_buff \<Rightarrow> bool \<Rightarrow> nat \<Rightarrow> bool" where
  "complete skb v6 u \<longleftrightarrow> vlan_offset skb + (if v6 then 40 else 20) \<le> u \<and> 26 \<le> unat (be16 (data skb) (u + 4))
     \<and> u + unat (be16 (data skb) (u + 4)) \<le> length (data skb)"

lemma length_add16 [simp]: "length (add16 d i n) = 2"
  by (simp add: add16_def)

lemma header_inside:
  "off + (if v6 then 40 else 20) \<le> u \<Longrightarrow> u + 20 \<le> l \<Longrightarrow> list_all (inside l) (header_edits off u v6 ext)"
  by (auto simp: header_edits_def ip_edits_def udp_edits_def inside_def swap_bytes_def)

lemma checksum_inside:
  "off + (if v6 then 40 else 20) \<le> u \<Longrightarrow> u + 20 \<le> l \<Longrightarrow> list_all (inside l) (checksum_edits e off u v6)"
  by (auto simp: checksum_edits_def inside_def)

lemma header_clear:
  "u + 20 \<le> a \<Longrightarrow> off + (if v6 then 40 else 20) \<le> u \<Longrightarrow> a + n \<le> l \<Longrightarrow> list_all (\<lambda>f. clear_of a n f l) (header_edits off u v6 ext)"
  by (auto simp: header_edits_def ip_edits_def udp_edits_def clear_of_def swap_bytes_def)

lemma checksum_clear:
  "u + 8 \<le> a \<Longrightarrow> off + (if v6 then 40 else 20) \<le> u \<Longrightarrow> list_all (\<lambda>f. clear_of a n f l) (checksum_edits e off u v6)"
  by (auto simp: checksum_edits_def clear_of_def)

definition env_ok :: "dns_env \<Rightarrow> bool" where
  "env_ok e \<longleftrightarrow> lower_ok (tolower e) \<and> (\<forall>s. length (in4_pton e s) = 4)
     \<and> (\<forall>ifas. br0_in_dev e = Some ifas \<longrightarrow> list_all (\<lambda>(l, a). length a = 4) ifas)
     \<and> (\<exists>a. br0_in6_addr e = Some a \<and> length a = 16)"

lemma br0_address_length:
  "br0_address ifas f = Some a \<Longrightarrow> list_all (\<lambda>(l, a). length a = 4) ifas \<Longrightarrow> (\<And>x. f = Some x \<Longrightarrow> length x = 4) \<Longrightarrow> length a = 4"
  by (induction ifas f rule: br0_address.induct) (auto split: if_splits)

lemma length_answers [simp]: "length dns_answer = 12" "length dns_answer_v6 = 12"
  by (simp_all add: dns_answer_def dns_answer_v6_def)

text \<open>The address an answer of the given type carries, and the fixed part before it.\<close>

definition answer_addr :: "dns_env \<Rightarrow> dns_globals \<Rightarrow> (string \<times> u8 list) list \<Rightarrow> int \<Rightarrow> u8 list option" where
  "answer_addr e g ifas type =
     (if type = 0x01 then (if use_controller_info g \<noteq> 0 then Some (in4_pton e (cstr (controller_ip g))) else br0_address ifas None)
      else br0_in6_addr e)"

definition answer_head :: "int \<Rightarrow> u8 list" where
  "answer_head type = (if type = 0x01 then dns_answer else dns_answer_v6)"

lemma answer_addr_length:
  assumes "env_ok e" and "br0_in_dev e = Some ifas" and "answer_addr e g ifas type = Some a"
  shows "12 + length a = (if type = 0x01 then EXTEND_LEN_V4 else EXTEND_LEN_V6)"
  using assms br0_address_length [of ifas None a]
  by (auto simp: env_ok_def answer_addr_def EXTEND_LEN_V4_def EXTEND_LEN_V6_def split: if_splits)

lemma write_answer_found:
  assumes "answer_addr e g ifas type = Some a" and "ptr + 12 + length a \<le> length d"
  shows "\<exists>d'. write_answer e g ifas type ptr d = Inr (True, d') \<and> edits [\<lambda>_. [(ptr, answer_head type), (ptr + 12, a)]] d = Some d'"
  using assms by (auto simp: write_answer_def answer_addr_def answer_head_def split: if_splits)

lemma write_answer_missing:
  "answer_addr e g ifas 1 = None \<Longrightarrow> ptr + 12 \<le> length d \<Longrightarrow> \<exists>d'. write_answer e g ifas 1 ptr d = Inr (False, d')"
  by (auto simp: write_answer_def answer_addr_def)

text \<open>All changes of an answered packet, as one sequence.\<close>

definition answer_edits :: "dns_env \<Rightarrow> nat \<Rightarrow> nat \<Rightarrow> bool \<Rightarrow> nat \<Rightarrow> nat \<Rightarrow> u8 list \<Rightarrow> u8 list
    \<Rightarrow> (u8 list \<Rightarrow> (nat \<times> u8 list) list) list" where
  "answer_edits e off u v6 ext ptr h a =
     header_edits off u v6 ext @ [\<lambda>_. [(ptr, h), (ptr + 12, a)]] @ checksum_edits e off u v6"

lemma recap_answers:
  assumes "env_ok e" and "br0_dev e = Some mac" and "br0_in_dev e = Some ifas" and "type = 0x01 \<or> type = 0x1c"
    and "(if v6 then ipv6_find_udp_hdr e (data skb) (vlan_offset skb)
          else Some (vlan_offset skb + ip_ihl (data skb) (vlan_offset skb) * 4)) = Some u"
    and "complete skb v6 u" and "28 \<le> length (tailroom skb)"
    and "answer_addr e g ifas type = Some a" and "ext = 12 + length a"
  shows "\<exists>d. edits (answer_edits e (vlan_offset skb) u v6 ext (u + unat (be16 (data skb) (u + 4))) (answer_head type) a)
        (data skb @ take ext (tailroom skb)) = Some d
    \<and> rtk_dns_packet_recap e g skb type v6 = Inr (0, skb\<lparr>h_dest := h_source skb, h_source := mac,
        tailroom := drop ext (tailroom skb), data := d, mark := mark skb OR push_bit (nat (skb_mark g)) 1\<rparr>, True)"
proof -
  let ?off = "vlan_offset skb" and ?ptr = "u + unat (be16 (data skb) (u + 4))"
  let ?d = "data skb @ take ext (tailroom skb)"
  have ext: "ext = (if type = 0x01 then EXTEND_LEN_V4 else EXTEND_LEN_V6)"
    using answer_addr_length [OF assms(1,3,8)] assms(9) by simp
  then have le: "ext \<le> length (tailroom skb)"
    using assms(7) by (auto simp: EXTEND_LEN_V4_def EXTEND_LEN_V6_def)
  have room: "u + 20 \<le> length ?d" "?ptr + 12 + length a \<le> length ?d" "?off + (if v6 then 40 else 20) \<le> u"
    using assms(6,9) le by (auto simp: complete_def)
  obtain d1 where d1: "edits (header_edits ?off u v6 ext) ?d = Some d1"
    using edits_inside [OF header_inside [OF room(3,1)]] by blast
  obtain d3 where d3: "write_answer e g ifas type ?ptr d1 = Inr (True, d3)"
      "edits [\<lambda>_. [(?ptr, answer_head type), (?ptr + 12, a)]] d1 = Some d3"
    using write_answer_found [OF assms(8), of ?ptr d1] room(2) edits_length [OF d1] by auto
  obtain d4 where d4: "edits (checksum_edits e ?off u v6) d3 = Some d4"
    using edits_inside [of d3, OF checksum_inside] room edits_length [OF d1] edits_length [OF d3(2)] by metis
  have "edits (answer_edits e ?off u v6 ext ?ptr (answer_head type) a) ?d = Some d4"
    by (simp only: answer_edits_def edits_append d1 d3(2) d4 option.case)
  moreover have "rtk_dns_packet_recap e g skb type v6 = Inr (0, skb\<lparr>h_dest := h_source skb, h_source := mac,
        tailroom := drop ext (tailroom skb), data := d4, mark := mark skb OR push_bit (nat (skb_mark g)) 1\<rparr>, True)"
    using assms(2-5) d1 d3(1) d4 le ext [symmetric]
    by (simp add: rtk_dns_packet_recap_def Let_def not_less)
  ultimately show ?thesis by blast
qed

lemma ip_clear:
  "off + (if v6 then 40 else 20) \<le> a \<Longrightarrow> a + n \<le> l \<Longrightarrow> list_all (\<lambda>f. clear_of a n f l) (ip_edits off v6 ext)"
  by (auto simp: ip_edits_def clear_of_def swap_bytes_def)

lemma be16_eq_slice: "i + 2 \<le> length b \<Longrightarrow> slice i 2 b = bytes16 v \<Longrightarrow> be16 b i = v"
  using be16_slice [of i b] by simp

lemma udp_edits_fields:
  assumes "edits (udp_edits u ext) d = Some d'" and "u + 20 \<le> length d"
  shows "slice u 2 d' = slice (u + 2) 2 d \<and> slice (u + 2) 2 d' = slice u 2 d
    \<and> slice (u + 4) 2 d' = bytes16 (be16 d (u + 4) + of_nat ext) \<and> slice (u + 8) 2 d' = slice (u + 8) 2 d
    \<and> slice (u + 10) 2 d' = bytes16 0x8180 \<and> slice (u + 12) 2 d' = bytes16 1 \<and> slice (u + 14) 2 d' = bytes16 1
    \<and> slice (u + 16) 2 d' = bytes16 0 \<and> slice (u + 18) 2 d' = bytes16 0"
proof -
  let ?w1 = "swap_bytes u (u + 2) 2 d" and ?w2 = "\<lambda>d. [(u + 4, add16 d (u + 4) ext)]"
  let ?w3 = "[(u + 10, bytes16 0x8180), (u + 12, bytes16 1), (u + 14, bytes16 1), (u + 16, bytes16 0), (u + 18, bytes16 0)]"
  obtain d1 where d1: "pokes ?w1 d = Some d1" and r1: "edits (tl (udp_edits u ext)) d1 = Some d'"
    using assms(1) by (auto simp: udp_edits_def split: option.splits simp del: pokes.simps)
  obtain d2 where d2: "pokes (?w2 d1) d1 = Some d2" and d': "pokes ?w3 d2 = Some d'"
    using r1 by (auto simp: udp_edits_def add.commute split: option.splits simp del: pokes.simps)
  have l: "length d1 = length d" "length d2 = length d"
    using pokes_length [OF d1] pokes_length [OF d2] by simp_all
  have s1: "slice x n d1 = slice x n d" if "u + 4 \<le> x" "x + n \<le> length d" for x n
    using pokes_slice_other [OF d1 that(2)] that assms(2) by (simp add: swap_bytes_def)
  have s2: "slice x n d2 = slice x n d1" if "x + n \<le> u + 4 \<or> u + 6 \<le> x" "x + n \<le> length d" for x n
    using pokes_slice_other [OF d2, of x n] that l by (simp add: add.commute)
  have s3: "slice x n d' = slice x n d2" if "x + n \<le> u + 10" "x + n \<le> length d" for x n
    using pokes_slice_other [OF d', of x n] that l by simp
  have "slice u 2 d1 = slice (u + 2) 2 d"
    using pokes_slice_same [of "[]" u "slice (u + 2) 2 d" "[(u + 2, slice u 2 d)]" d d1 2] d1 assms(2)
    by (simp add: swap_bytes_def del: pokes.simps)
  moreover have "slice (u + 2) 2 d1 = slice u 2 d"
    using pokes_slice_same [of "[(u, slice (u + 2) 2 d)]" "u + 2" "slice u 2 d" "[]" d d1 2] d1 assms(2)
    by (simp add: swap_bytes_def del: pokes.simps)
  moreover have "slice (u + 4) 2 d2 = add16 d1 (u + 4) ext"
    using pokes_slice_same [of "[]" "u + 4" "add16 d1 (u + 4) ext" "[]" d1 d2 2] d2 by (simp del: pokes.simps)
  moreover have "be16 d1 (u + 4) = be16 d (u + 4)"
    using s1 [of "u + 4" 2] be16_slice [of "u + 4" d1] be16_slice [of "u + 4" d] assms(2) l by simp
  ultimately have "slice u 2 d' = slice (u + 2) 2 d" "slice (u + 2) 2 d' = slice u 2 d"
      "slice (u + 4) 2 d' = bytes16 (be16 d (u + 4) + of_nat ext)" "slice (u + 8) 2 d' = slice (u + 8) 2 d"
    using s1 [of "u + 8" 2] s2 [of u 2] s2 [of "u + 2" 2] s2 [of "u + 8" 2] s3 [of u 2] s3 [of "u + 2" 2]
      s3 [of "u + 4" 2] s3 [of "u + 8" 2] assms(2) by (simp_all add: add16_def)
  moreover have "slice (u + 10) 2 d' = bytes16 0x8180"
    by (rule pokes_slice_same [of "[]" _ _ "tl ?w3" d2]) (use d' in \<open>simp_all del: pokes.simps\<close>)
  moreover have "slice (u + 12) 2 d' = bytes16 1"
    by (rule pokes_slice_same [of "[(u + 10, bytes16 0x8180)]" _ _ "drop 2 ?w3" d2]) (use d' in \<open>simp_all del: pokes.simps\<close>)
  moreover have "slice (u + 14) 2 d' = bytes16 1"
    by (rule pokes_slice_same [of "take 2 ?w3" _ _ "drop 3 ?w3" d2]) (use d' in \<open>simp_all del: pokes.simps\<close>)
  moreover have "slice (u + 16) 2 d' = bytes16 0"
    by (rule pokes_slice_same [of "take 3 ?w3" _ _ "drop 4 ?w3" d2]) (use d' in \<open>simp_all del: pokes.simps\<close>)
  moreover have "slice (u + 18) 2 d' = bytes16 0"
    by (rule pokes_slice_same [of "take 4 ?w3" _ _ "[]" d2]) (use d' in \<open>simp_all del: pokes.simps\<close>)
  ultimately show ?thesis by blast
qed

lemma answered_fields:
  assumes "edits (answer_edits e off u v6 ext ptr h a) d = Some d'" and "off + (if v6 then 40 else 20) \<le> u"
    and "length h = 12" and "u + 26 \<le> ptr" and "ptr + 12 + length a \<le> length d"
  shows "slice u 2 d' = slice (u + 2) 2 d \<and> slice (u + 2) 2 d' = slice u 2 d
    \<and> be16 d' (u + 4) = be16 d (u + 4) + of_nat ext \<and> slice (u + 8) 2 d' = slice (u + 8) 2 d
    \<and> be16 d' (u + 10) = 0x8180 \<and> be16 d' (u + 12) = 1 \<and> be16 d' (u + 14) = 1 \<and> be16 d' (u + 16) = 0 \<and> be16 d' (u + 18) = 0
    \<and> slice (u + 20) (ptr - (u + 20)) d' = slice (u + 20) (ptr - (u + 20)) d
    \<and> slice ptr (12 + length a) d' = h @ a"
proof -
  let ?ans = "\<lambda>_ :: u8 list. [(ptr, h), (ptr + 12, a)]"
  obtain d1 where d1: "edits (ip_edits off v6 ext) d = Some d1"
      and r1: "edits (udp_edits u ext @ [?ans] @ checksum_edits e off u v6) d1 = Some d'"
    using assms(1) by (auto simp only: answer_edits_def header_edits_def append_assoc edits_append [of "ip_edits off v6 ext"] split: option.splits)
  obtain d2 where d2: "edits (udp_edits u ext) d1 = Some d2"
      and r2: "edits ([?ans] @ checksum_edits e off u v6) d2 = Some d'"
    using r1 by (auto simp only: edits_append [of "udp_edits u ext"] split: option.splits)
  obtain d3 where d3: "edits [?ans] d2 = Some d3" and r3: "edits (checksum_edits e off u v6) d3 = Some d'"
    using r2 by (auto simp only: edits_append [of "[?ans]"] split: option.splits)
  have l: "length d1 = length d" "length d2 = length d" "length d3 = length d" "length d' = length d"
    using edits_length [OF d1] edits_length [OF d2] edits_length [OF d3] edits_length [OF r3] by simp_all
  have s1: "slice x n d1 = slice x n d" if "u \<le> x" "x + n \<le> length d" for x n
    using edits_slice_other [OF d1 _ ip_clear] that assms(2) by (meson order.trans)
  have s2: "slice x n d2 = slice x n d1" if "u + 20 \<le> x" "x + n \<le> length d" for x n
    using edits_slice_other [OF d2, of x n] that l by (auto simp: udp_edits_def clear_of_def swap_bytes_def)
  have d3_eq: "d3 = buf_write (ptr + 12) a (buf_write ptr h d2)"
    using d3 assms(3,5) l by (auto split: if_splits)
  have s3: "slice x n d3 = slice x n d2" if "x + n \<le> ptr" for x n
    using that assms(3,5) l by (simp add: d3_eq slice_buf_write_other)
  have s4: "slice x n d' = slice x n d3" if "u \<le> x" "x + n \<le> u + 6 \<or> u + 8 \<le> x" "x + n \<le> length d" for x n
    using edits_slice_other [OF r3, of x n] that l assms(2)
    by (cases v6) (auto simp: checksum_edits_def clear_of_def)
  have be: "be16 d' i = v" if "slice i 2 d2 = bytes16 v" "u \<le> i" "i + 2 \<le> u + 6 \<or> u + 8 \<le> i" "i + 2 \<le> ptr" for i v
    using that s3 [of i 2] s4 [of i 2] assms(5) l be16_eq_slice [of i d' v] by simp
  have ans: "slice ptr (12 + length a) d3 = h @ a"
  proof -
    have "slice ptr 12 d3 = h" "slice (ptr + 12) (length a) d3 = a"
      using assms(3,5) l by (simp_all add: d3_eq slice_buf_write_other slice_buf_write_eq)
    then show ?thesis using slice_append [of ptr 12 d3 "length a"] by simp
  qed
  have b4: "be16 d1 (u + 4) = be16 d (u + 4)"
    using s1 [of "u + 4" 2] be16_slice [of "u + 4" d1] be16_slice [of "u + 4" d] assms(4,5) l by simp
  have "u + 20 \<le> length d1" using assms(4,5) l by simp
  note F = udp_edits_fields [OF d2 this]
  have "slice u 2 d' = slice (u + 2) 2 d" "slice (u + 2) 2 d' = slice u 2 d" "slice (u + 8) 2 d' = slice (u + 8) 2 d"
    using F s4 [of u 2] s4 [of "u + 2" 2] s4 [of "u + 8" 2] s3 [of u 2] s3 [of "u + 2" 2] s3 [of "u + 8" 2]
      s1 [of u 2] s1 [of "u + 2" 2] s1 [of "u + 8" 2] assms(4,5) by simp_all
  moreover have "be16 d' (u + 4) = be16 d (u + 4) + of_nat ext" "be16 d' (u + 10) = 0x8180"
      "be16 d' (u + 12) = 1" "be16 d' (u + 14) = 1" "be16 d' (u + 16) = 0" "be16 d' (u + 18) = 0"
    using F assms(4) b4 by (intro be; simp)+
  moreover have "slice (u + 20) (ptr - (u + 20)) d' = slice (u + 20) (ptr - (u + 20)) d"
    using s4 [of "u + 20" "ptr - (u + 20)"] s3 [of "u + 20" "ptr - (u + 20)"] s2 [of "u + 20" "ptr - (u + 20)"]
      s1 [of "u + 20" "ptr - (u + 20)"] assms(4,5) by simp
  moreover have "slice ptr (12 + length a) d' = h @ a"
    using ans s4 [of ptr "12 + length a"] assms(4,5) by simp
  ultimately show ?thesis by blast
qed

section \<open>Properties of the answer\<close>

lemma recap_silent:
  assumes "rtk_dns_packet_recap e g skb type v6 = Inr (r, skb', sent)"
    and "\<And>ifas. br0_in_dev e = Some ifas \<Longrightarrow> use_controller_info g \<noteq> 0 \<or> br0_address ifas None \<noteq> None"
  shows "if sent then r = 0 else r = - 1 \<and> skb' = skb"
proof -
  have "write_answer e g ifas type ptr d \<noteq> Inr (False, d3)" if "br0_in_dev e = Some ifas" for ifas ptr d d3
    using assms(2) [OF that] by (auto simp: write_answer_def split: if_splits option.splits)
  with assms(1) show ?thesis
    unfolding rtk_dns_packet_recap_def Let_def
    by (auto split: if_splits option.splits sum.splits prod.splits)
qed


text \<open>
  C19: the answer to a complete query keeps its identifier and question, swaps the ports, adds
  one record after the question with the address of the gateway, and accounts for it in the UDP
  length and in the DNS header.
\<close>

theorem dns_answer_correct:
  assumes "env_ok e" and "br0_dev e = Some mac" and "br0_in_dev e = Some ifas" and "type = 0x01 \<or> type = 0x1c"
    and "(if v6 then ipv6_find_udp_hdr e (data skb) (vlan_offset skb)
          else Some (vlan_offset skb + ip_ihl (data skb) (vlan_offset skb) * 4)) = Some u"
    and "complete skb v6 u" and "28 \<le> length (tailroom skb)" and "answer_addr e g ifas type = Some a"
    and "d = data skb" and "l = unat (be16 d (u + 4))"
  shows "\<exists>skb'. rtk_dns_packet_recap e g skb type v6 = Inr (0, skb', True) \<and> h_dest skb' = h_source skb
    \<and> h_source skb' = mac \<and> length (data skb') = length d + 12 + length a
    \<and> slice u 2 (data skb') = slice (u + 2) 2 d \<and> slice (u + 2) 2 (data skb') = slice u 2 d
    \<and> be16 (data skb') (u + 4) = be16 d (u + 4) + of_nat (12 + length a)
    \<and> slice (u + 8) 2 (data skb') = slice (u + 8) 2 d \<and> be16 (data skb') (u + 10) = 0x8180
    \<and> be16 (data skb') (u + 12) = 1 \<and> be16 (data skb') (u + 14) = 1
    \<and> slice (u + 20) (l - 20) (data skb') = slice (u + 20) (l - 20) d
    \<and> slice (u + l) (12 + length a) (data skb') = answer_head type @ a"
proof -
  let ?ext = "12 + length a"
  let ?d = "d @ take ?ext (tailroom skb)"
  obtain d' where d': "edits (answer_edits e (vlan_offset skb) u v6 ?ext (u + l) (answer_head type) a) ?d = Some d'"
      "rtk_dns_packet_recap e g skb type v6 = Inr (0, skb\<lparr>h_dest := h_source skb, h_source := mac,
        tailroom := drop ?ext (tailroom skb), data := d', mark := mark skb OR push_bit (nat (skb_mark g)) 1\<rparr>, True)"
    using recap_answers [OF assms(1-8) refl] assms(9,10) by blast
  have ext: "?ext \<le> length (tailroom skb)"
    using answer_addr_length [OF assms(1,3,8)] assms(7) by (auto simp: EXTEND_LEN_V4_def EXTEND_LEN_V6_def split: if_splits)
  have c: "vlan_offset skb + (if v6 then 40 else 20) \<le> u" "26 \<le> l" "u + l \<le> length d"
    using assms(6,9,10) by (auto simp: complete_def)
  have pre: "slice x n ?d = slice x n d" if "x + n \<le> length d" for x n
    using that by (simp add: slice_def)
  have be: "be16 ?d (u + 4) = be16 d (u + 4)"
    using c by (simp add: be16_def nth_append)
  have "length (answer_head type) = 12" "u + 26 \<le> u + l" "u + l + 12 + length a \<le> length ?d"
    using c ext by (simp_all add: answer_head_def)
  note F = answered_fields [OF d'(1) c(1) this]
  have len: "length d' = length d + 12 + length a"
    using edits_length [OF d'(1)] ext by simp
  have q: "u + l - (u + 20) = l - 20" using c by simp
  show ?thesis
    by (intro exI conjI, rule d'(2)) (use F c len in \<open>simp_all add: pre be q del: One_nat_def\<close>)
qed

definition demo_env :: dns_env where
  "demo_env = \<lparr>br0_dev = Some [2, 0, 0, 0, 0, 1], br0_in_dev = Some [(''br0'', [192, 168, 1, 1])],
     br0_in6_addr = Some (replicate 16 0), ipv6_find_udp_hdr = (\<lambda>_ _. None), in4_pton = (\<lambda>_. [10, 0, 0, 1]),
     ip_fast_csum = (\<lambda>_. 0), udp_csum = (\<lambda>_ _ _ _. 0), tolower = (\<lambda>c. c), sscanf_int = (\<lambda>_. None),
     sscanf_info = (\<lambda>_. (0, [])), support_trap_all = False\<rparr>"

text \<open>A query for the address of the name \<open>a\<close>.\<close>

definition demo_query :: sk_buff where
  "demo_query = \<lparr>protocol = 0x0800, h_dest = replicate 6 1, h_source = replicate 6 2,
     data = [0x45, 0, 0, 47, 0, 0, 0, 0, 64, 17, 0, 0, 192, 168, 1, 2, 192, 168, 1, 1] @ [4, 210, 0, 53, 0, 27, 0, 0]
       @ [18, 52, 1, 0, 0, 1, 0, 0, 0, 0, 0, 0] @ [1, 97, 0, 0, 1, 0, 1],
     tailroom = replicate 32 0, mark = 0\<rparr>"

lemma demo_ok: "env_ok demo_env" "complete demo_query False 20" "ip_ihl (data demo_query) 0 = 5" "vlan_offset demo_query = 0"
  by (simp_all add: env_ok_def lower_ok_def demo_env_def complete_def demo_query_def vlan_offset_def ip_ihl_def be16_def)


theorem dns_answer_correct_witness:
  "\<exists>skb'. rtk_dns_packet_recap demo_env dns_globals_boot demo_query 1 False = Inr (0, skb', True)
     \<and> slice 47 16 (data skb') = answer_head 1 @ [192, 168, 1, 1]"
proof -
  have a: "answer_addr demo_env dns_globals_boot [(''br0'', [192, 168, 1, 1])] 1 = Some [192, 168, 1, 1]"
    by (simp add: answer_addr_def dns_globals_boot_def)
  have l: "27 = unat (be16 (data demo_query) (20 + 4))"
    by (simp add: demo_query_def be16_def)
  show ?thesis
    using dns_answer_correct [OF demo_ok(1) _ _ _ _ demo_ok(2) _ a refl l, where mac = "[2, 0, 0, 0, 0, 1]"] demo_ok(3,4)
    by (auto simp: demo_env_def demo_query_def)
qed

section \<open>Running the driver\<close>

datatype dns_event =
    Packet sk_buff
  | En_write "u8 list option" nat
  | All_write "u8 list option" nat
  | Mark_write "u8 list option" nat
  | Domain_write "u8 list option" nat

fun dns_step :: "dns_env \<Rightarrow> dns_event \<Rightarrow> fault + dns_globals \<Rightarrow> fault + dns_globals" where
  "dns_step e ev (Inl f) = Inl f"
| "dns_step e (Packet skb) (Inr g) = (case rtk_dns_trap_enter e g skb of Inl f \<Rightarrow> Inl f | Inr (r, g', skb', sent) \<Rightarrow> Inr g')"
| "dns_step e (En_write b n) (Inr g) = map_sum id snd (dnstrap_en_write b n g)"
| "dns_step e (All_write b n) (Inr g) = map_sum id snd (dnstrap_trap_all_write b n g)"
| "dns_step e (Mark_write b n) (Inr g) = map_sum id snd (dnstrap_skbmark_write e b n g)"
| "dns_step e (Domain_write b n) (Inr g) = map_sum id snd (dnstrap_domain_write e b n g)"

text \<open>Input the driver can take: complete packets with room for an answer, and writes that fit.\<close>

definition packet_ok :: "dns_env \<Rightarrow> sk_buff \<Rightarrow> bool" where
  "packet_ok e skb \<longleftrightarrow> 28 \<le> length (tailroom skb) \<and> (\<forall>v6 u. classify e skb = Inr (Some (v6, u)) \<longrightarrow>
     vlan_offset skb + (if v6 then 40 else 20) \<le> u \<and> u + unat (be16 (data skb) (u + 4)) \<le> length (data skb))"

fun dns_event_ok :: "dns_env \<Rightarrow> dns_event \<Rightarrow> bool" where
  "dns_event_ok e (Packet skb) \<longleftrightarrow> env_ok e \<and> packet_ok e skb"
| "dns_event_ok e (En_write b n) \<longleftrightarrow> n < 80"
| "dns_event_ok e (All_write b n) \<longleftrightarrow> n < 80"
| "dns_event_ok e (Mark_write b n) \<longleftrightarrow> n < 80"
| "dns_event_ok e (Domain_write b n) \<longleftrightarrow> env_ok e \<and> n \<le> 80 \<and> (\<forall>x. b = Some x \<longrightarrow> 80 \<le> length x)"

definition names_ok :: "fault + dns_globals \<Rightarrow> bool" where
  "names_ok x \<longleftrightarrow> (case x of Inl _ \<Rightarrow> False | Inr g \<Rightarrow> length (domain_name g) = 80 \<and> 0 \<in> set (domain_name g))"

lemma classify_udp:
  "classify e skb = Inr (Some (v6, u)) \<Longrightarrow>
    (if v6 then ipv6_find_udp_hdr e (data skb) (vlan_offset skb)
     else Some (vlan_offset skb + ip_ihl (data skb) (vlan_offset skb) * 4)) = Some u"
  by (auto simp: classify_def Let_def split: if_splits option.splits)

lemma recap_no_fault:
  assumes "env_ok e" and "type = 0x01 \<or> type = 0x1c" and "classify e skb = Inr (Some (v6, u))" and "complete skb v6 u"
    and "28 \<le> length (tailroom skb)"
  shows "\<exists>x. rtk_dns_packet_recap e g skb type v6 = Inr x"
proof (cases "br0_dev e = None \<or> br0_in_dev e = None")
  case True
  with assms(2) show ?thesis
    by (auto simp: rtk_dns_packet_recap_def Let_def split: option.splits)
next
  case False
  then obtain mac ifas where dev: "br0_dev e = Some mac" "br0_in_dev e = Some ifas" by auto
  show ?thesis
  proof (cases "answer_addr e g ifas type")
    case (Some a)
    from recap_answers [OF assms(1) dev assms(2) classify_udp [OF assms(3)] assms(4,5) Some refl]
    show ?thesis by blast
  next
    case None
    then have type: "type = 1"
      using assms(1,2) by (auto simp: answer_addr_def env_ok_def)
    let ?d = "data skb @ take EXTEND_LEN_V4 (tailroom skb)"
    have c: "vlan_offset skb + (if v6 then 40 else 20) \<le> u" "u + 20 \<le> length ?d"
        "u + unat (be16 (data skb) (u + 4)) + 12 \<le> length ?d"
      using assms(4,5) by (auto simp: complete_def EXTEND_LEN_V4_def)
    obtain d1 where d1: "edits (header_edits (vlan_offset skb) u v6 EXTEND_LEN_V4) ?d = Some d1"
      using edits_inside [OF header_inside [OF c(1,2)]] by blast
    obtain d3 where "write_answer e g ifas 1 (u + unat (be16 (data skb) (u + 4))) d1 = Inr (False, d3)"
      using write_answer_missing [of e g ifas _ d1] None type c(3) edits_length [OF d1] by auto
    with d1 dev type classify_udp [OF assms(3)] assms(5) show ?thesis
      by (auto simp: rtk_dns_packet_recap_def Let_def EXTEND_LEN_V4_def)
  qed
qed

lemma names_ok_query:
  assumes "env_ok e" and "packet_ok e skb" and "names_ok (Inr g)" and cl: "classify e skb = Inr (Some (v6, u))"
  shows "\<exists>r g' skb' sent. trap_query e g skb v6 u = Inr (r, g', skb', sent) \<and> names_ok (Inr g')"
proof -
  let ?d = "data skb"
  define len where "len = int (unat (be16 ?d (u + 4))) - 8 - 12 - 4"
  show ?thesis
  proof (cases "(len \<le> 1 \<or> 63 < len) \<or> \<not> is_valid_dns_query_header (be16 ?d (u + 8 + 2)) (be16 ?d (u + 8 + 4))")
    case True
    then have "trap_query e g skb v6 u = Inr (- 1, g, skb, False)"
      unfolding trap_query_def Let_def len_def [symmetric] by argo
    with assms(3) show ?thesis by auto
  next
    case False
    define n where "n = nat len"
    have lb: "1 < len" "len \<le> 63" using False by auto
    then have n: "len = int n" "0 < n" "n \<le> 63" by (simp_all add: n_def)
    have n24: "unat (be16 ?d (u + 4)) = n + 24"
      using lb unfolding n_def len_def by linarith
    have c: "complete skb v6 u"
      using assms(2) cl lb n24 n(1) by (auto simp: packet_ok_def complete_def)
    have "n + 4 \<le> length (drop (u + 8 + 12) ?d)"
      using c n24 by (auto simp: complete_def)
    then obtain type domain where dom: "get_domain_name (drop (u + 8 + 12) ?d) (int n) = Some (type, domain)"
        "length domain = 512" "strlen domain \<le> 127"
      using parse_safe [OF n(2,3)] by blast
    have "0 \<in> set domain" using dom by (intro strlen_lt_NUL) simp
    moreover have "strlen (domain_name g) < 80" "0 \<in> set (domain_name g)" "length (domain_name g) = 80"
      using assms(3) strlen_lt [of "domain_name g"] by (auto simp: names_ok_def)
    ultimately obtain eq a' name where cmp: "is_domain_name_equal (tolower e) domain (domain_name g) = Inr (eq, a', name)"
        "length name = 80" "0 \<in> set name"
      using is_domain_name_equal_iff [of "tolower e" domain "domain_name g"] assms(1) dom(3) by (auto simp: env_ok_def)
    have recap: "\<exists>x. rtk_dns_packet_recap e g0 skb type v6 = Inr x" if "type = 0x01 \<or> type = 0x1c" for g0
      using recap_no_fault [OF assms(1) that cl c] assms(2) by (simp add: packet_ok_def)
    from False have nf: "(len \<le> 1 \<or> 63 < len) = False" "(\<not> is_valid_dns_query_header (be16 ?d (u + 8 + 2)) (be16 ?d (u + 8 + 4))) = False"
      by simp_all
    have q: "trap_query e g skb v6 u = (if type \<noteq> 0x01 \<and> type \<noteq> 0x1c then Inr (- 1, g, skb, False)
        else if support_trap_all e \<and> dns_trap_all g \<noteq> 0 then
             (case rtk_dns_packet_recap e g skb type v6 of Inl f \<Rightarrow> Inl f | Inr (r, skb', sent) \<Rightarrow> Inr (r, g, skb', sent))
        else if eq then (case rtk_dns_packet_recap e (g\<lparr>domain_name := name\<rparr>) skb type v6 of Inl f \<Rightarrow> Inl f
               | Inr (r, skb', sent) \<Rightarrow> Inr (r, g\<lparr>domain_name := name\<rparr>, skb', sent))
             else Inr (- 1, g\<lparr>domain_name := name\<rparr>, skb, False))"
      unfolding trap_query_def Let_def len_def [symmetric] nf if_False
      unfolding n(1) dom(1) by (simp add: cmp(1))
    show ?thesis
      using assms(3) cmp(2,3) recap [of g] recap [of "g\<lparr>domain_name := name\<rparr>"]
      unfolding q by (auto simp: names_ok_def split: prod.splits)
  qed
qed

lemma names_ok_step:
  assumes "dns_event_ok e ev" and "names_ok x"
  shows "names_ok (dns_step e ev x)"
proof -
  obtain g where x: "x = Inr g" using assms(2) by (cases x) (auto simp: names_ok_def)
  show ?thesis
  proof (cases ev)
    case (Packet skb)
    show ?thesis
    proof (cases "\<exists>v6 u. classify e skb = Inr (Some (v6, u))")
      case True
      with Packet assms x show ?thesis
        using names_ok_query [of e skb g] by (fastforce simp: rtk_dns_trap_enter_def)
    next
      case False
      then have "rtk_dns_trap_enter e g skb = Inr (- 1, g, skb, False)"
        by (auto simp: rtk_dns_trap_enter_def split: sum.splits option.splits)
      with Packet assms(2) x show ?thesis by simp
    qed
  next
    case (Domain_write b n)
    show ?thesis
    proof (cases "n < 2 \<or> b = None")
      case True
      with Domain_write assms x show ?thesis by (auto simp: dnstrap_domain_write_def)
    next
      case False
      then obtain y where y: "b = Some y" by auto
      have "0 \<in> set ((take 80 y)[n - 1 := 0])"
        using Domain_write y False assms(1) by (intro set_update_memI) auto
      then obtain s' where "str_to_lower (tolower e) ((take 80 y)[n - 1 := 0]) = Inr s'" "length s' = 80" "0 \<in> set s'"
        using str_to_lower_ok [of "tolower e" "(take 80 y)[n - 1 := 0]"] Domain_write y assms(1) by (auto simp: env_ok_def)
      with Domain_write y False assms(1) x show ?thesis by (simp add: dnstrap_domain_write_def names_ok_def)
    qed
  qed (use assms x in \<open>auto simp: dnstrap_en_write_def dnstrap_trap_all_write_def dnstrap_skbmark_write_def
        user_line_def names_ok_def split: option.splits\<close>)
qed

interpretation dns_names: event_system "dns_step e" "dns_event_ok e" names_ok for e
  by unfold_locales (rule names_ok_step)

lemma names_ok_init: "env_ok e \<Longrightarrow> names_ok (rtk_dns_trap_init e dns_globals_boot)"
proof -
  assume "env_ok e"
  have "0 \<in> set (buf_write 0 (DEFAULT_HOSTNAME @ [0]) (replicate 80 0))"
    by (simp add: buf_write_def)
  moreover have "length (buf_write 0 (DEFAULT_HOSTNAME @ [0]) (replicate 80 0)) = 80"
    by (simp add: DEFAULT_HOSTNAME_def)
  ultimately show ?thesis
    using \<open>env_ok e\<close> str_to_lower_ok [of "tolower e" "buf_write 0 (DEFAULT_HOSTNAME @ [0]) (replicate 80 0)"]
    by (auto simp: rtk_dns_trap_init_def names_ok_def env_ok_def)
qed


lemma demo_event_ok: "list_all (dns_event_ok demo_env) [Packet demo_query, En_write None 3]"
proof -
  have "classify demo_env demo_query = Inr (Some (False, 20))"
    by (simp add: classify_def demo_ok(3,4) Let_def) (simp add: demo_query_def ip_version_def be16_def)
  then show ?thesis
    using demo_ok(1,2) by (simp add: packet_ok_def complete_def demo_ok(4)) (simp add: demo_query_def)
qed


section \<open>Observations\<close>

text \<open>The mask of the opcode misses its lowest bit: an inverse query passes as a standard one.\<close>

lemma opcode_mask_misses_bit: "is_valid_dns_query_header 0x0800 1"
  by (simp add: is_valid_dns_query_header_def)

text \<open>
  When the bridge has no address, the packet is passed on after its headers were turned around.
\<close>

lemma no_address_mangles:
  "\<exists>skb'. rtk_dns_packet_recap (demo_env\<lparr>br0_in_dev := Some []\<rparr>) dns_globals_boot demo_query 1 False = Inr (- 1, skb', False)
     \<and> h_dest skb' = h_source demo_query \<and> length (data skb') = length (data demo_query) + 16"
proof -
  let ?e = "demo_env\<lparr>br0_in_dev := Some []\<rparr>"
  let ?d = "data demo_query @ take 16 (tailroom demo_query)"
  have len: "length ?d = 63" "length (tailroom demo_query) = 32" "unat (be16 (data demo_query) 24) = 27"
    by (simp_all add: demo_query_def be16_def)
  obtain d1 where d1: "edits (header_edits 0 20 False 16) ?d = Some d1"
    using edits_inside [of ?d "header_edits 0 20 False 16", OF header_inside] len by auto
  obtain d3 where "write_answer ?e dns_globals_boot [] 1 47 d1 = Inr (False, d3)" "length d3 = 63"
    using edits_length [OF d1] len by (auto simp: write_answer_def dns_globals_boot_def)
  with d1 demo_ok(3,4) len show ?thesis
    by (simp add: rtk_dns_packet_recap_def Let_def EXTEND_LEN_V4_def demo_env_def)
qed

text \<open>A name of more than 80 bytes is written past the end of its array.\<close>

lemma long_domain_faults: "80 < n \<Longrightarrow> dnstrap_domain_write e (Some b) n g = Inl Oops"
  by (simp add: dnstrap_domain_write_def)

end
