(* ===== verification/Mempool.thy ===== *)
theory Mempool
  imports Bsp_Prelude
begin

text \<open>
  The packet buffer pools (\<open>drivers/net/ethernet/realtek/rtk_mempool.c\<close>): pools of equally sized
  buffers with a list of free ones, filled from a slab on demand and shrunk by a timer.  Pools
  and buffers are numbered; a pointer to the data of a buffer stands for the buffer.  Counters
  are unbounded integers, times 32-bit words; the threshold is stored as an unsigned 32-bit value.
\<close>

section \<open>State\<close>

definition RTW_MEM_MAGIC :: u32 where "RTW_MEM_MAGIC = 0x23798190"
definition RTW_MEM_POOL_MAX :: nat where "RTW_MEM_POOL_MAX = 8"
definition RTW_MEM_POOL_NAME_SZ :: nat where "RTW_MEM_POOL_NAME_SZ = 32"
definition RTW_MEM_POOL_BATCH :: int where "RTW_MEM_POOL_BATCH = 8"
definition HZ :: nat where "HZ = 100"
definition RTW_MEM_IDLE_TIMEOUT :: nat where "RTW_MEM_IDLE_TIMEOUT = HZ * 20"

datatype match_type =
    RTW_MEM_POOL_UNMATCHED
  | RTW_MEM_POOL_SIZE_MATCHED
  | RTW_MEM_POOL_SIZE_NAME_MATCHED
  | RTW_MEM_POOL_SIZE_UNMATCH_NAME_MATCHED

record rtw_mem_pool =
  pname :: string
  pmax :: int
  pmin :: int
  used :: int
  rpu :: int
  rmu :: int
  buf_returned :: int
  buf_alloced :: int
  mem_used :: int
  buf_alloc_failed :: int
  batch :: int
  thru :: int
  obj_size :: int
  free_list :: "nat list"
  count :: int
  timestamp :: u32
  freed :: int
  resized :: int

record rtw_priv_buffer =
  bpool :: "nat option"
  magic :: u32

text \<open>
  \<open>allocs\<close> counts the attempts to allocate from a slab and numbers the buffers; \<open>creates\<close> numbers
  the pools.  \<open>info\<close> is the array of pools with the size each serves.
\<close>

record mempools =
  info :: "(int \<times> nat option) list"
  pools :: "nat \<Rightarrow> rtw_mem_pool option"
  bufs :: "nat \<Rightarrow> rtw_priv_buffer option"
  total_mem_used :: int
  total_mem_thru :: int
  allocs :: nat
  creates :: nat

text \<open>
  What the kernel provides: the outcome of each slab allocation, of allocating a pool and of
  building a socket buffer, the size \<open>ksize\<close> reports for a buffer from the slab of a pool, the object size computed
  from the payload size, the clock, and number parsing.
\<close>

record mem_env =
  kmem_ok :: "nat \<Rightarrow> bool"
  kmalloc_ok :: "nat \<Rightarrow> bool"
  build_skb_ok :: "nat \<Rightarrow> bool"
  ksize :: "rtw_mem_pool \<Rightarrow> nat \<Rightarrow> int"
  obj_size_of :: "int \<Rightarrow> int"
  simple_strtol :: "string \<Rightarrow> int"

abbreviation pool_at :: "mempools \<Rightarrow> nat \<Rightarrow> rtw_mem_pool" where
  "pool_at s p \<equiv> the (pools s p)"

definition upd_pool :: "nat \<Rightarrow> (rtw_mem_pool \<Rightarrow> rtw_mem_pool) \<Rightarrow> mempools \<Rightarrow> mempools" where
  "upd_pool p f s = s\<lparr>pools := (pools s)(p := map_option f (pools s p))\<rparr>"

section \<open>The array of pools\<close>

fun add_slot :: "int \<Rightarrow> nat \<Rightarrow> (int \<times> nat option) list \<Rightarrow> (int \<times> nat option) list option" where
  "add_slot bsize pool [] = None"
| "add_slot bsize pool ((sz, p) # is) =
     (if sz = 0 then Some ((bsize, Some pool) # is)
      else map_option (Cons (sz, p)) (add_slot bsize pool is))"

definition rtw_add_mem_pool :: "int \<Rightarrow> nat \<Rightarrow> mempools \<Rightarrow> bool \<times> mempools" where
  "rtw_add_mem_pool bsize pool s = (case add_slot bsize pool (info s) of
     Some i \<Rightarrow> (True, s\<lparr>info := i\<rparr>) | None \<Rightarrow> (False, s))"

fun del_slot :: "nat \<Rightarrow> (int \<times> nat option) list \<Rightarrow> (int \<times> nat option) list option" where
  "del_slot pool [] = None"
| "del_slot pool ((sz, p) # is) =
     (if p = Some pool then Some ((0, None) # is) else map_option (Cons (sz, p)) (del_slot pool is))"

definition rtw_del_mem_pool :: "nat \<Rightarrow> mempools \<Rightarrow> bool \<times> mempools" where
  "rtw_del_mem_pool pool s = (case del_slot pool (info s) of
     Some i \<Rightarrow> (True, s\<lparr>info := i\<rparr>) | None \<Rightarrow> (False, s))"

definition rtw_find_mem_pool :: "int \<Rightarrow> mempools \<Rightarrow> nat option" where
  "rtw_find_mem_pool bsize s = (case find (\<lambda>(sz, p). sz = bsize) (info s) of Some (sz, p) \<Rightarrow> p | None \<Rightarrow> None)"

definition slot_named :: "string \<Rightarrow> mempools \<Rightarrow> int \<times> nat option \<Rightarrow> bool" where
  "slot_named name s i \<longleftrightarrow> fst i \<noteq> 0 \<and> (case snd i of Some p \<Rightarrow> pname (pool_at s p) = name | None \<Rightarrow> False)"

definition rtw_find_mem_pool_by_name :: "string \<Rightarrow> mempools \<Rightarrow> nat option" where
  "rtw_find_mem_pool_by_name name s = (case find (slot_named name s) (info s) of Some (sz, p) \<Rightarrow> p | None \<Rightarrow> None)"

definition rtw_find_mem_pool_by_name_sz :: "string \<Rightarrow> int \<Rightarrow> mempools \<Rightarrow> nat option \<times> match_type" where
  "rtw_find_mem_pool_by_name_sz name bsize s =
     (if \<exists>i\<in>set (info s). slot_named name s i \<and> fst i \<noteq> bsize
      then (None, RTW_MEM_POOL_SIZE_UNMATCH_NAME_MATCHED)
      else case find (\<lambda>i. fst i \<noteq> 0 \<and> fst i = bsize) (info s) of
        Some i \<Rightarrow> (snd i, if slot_named name s i then RTW_MEM_POOL_SIZE_NAME_MATCHED else RTW_MEM_POOL_SIZE_MATCHED)
      | None \<Rightarrow> (None, RTW_MEM_POOL_UNMATCHED))"

section \<open>Configuration\<close>

definition rtw_mempool_set_key_value :: "nat \<Rightarrow> string \<Rightarrow> int \<Rightarrow> mempools \<Rightarrow> mempools" where
  "rtw_mempool_set_key_value pool key value s =
     (if key = ''max'' then upd_pool pool (\<lambda>p. p\<lparr>pmax := value\<rparr>) s
      else if key = ''min'' then upd_pool pool (\<lambda>p. p\<lparr>pmin := value\<rparr>) s
      else if key = ''thru'' then upd_pool pool (\<lambda>p. p\<lparr>thru := value\<rparr>) s
      else if key = ''batch'' then upd_pool pool (\<lambda>p. p\<lparr>batch := value\<rparr>) s
      else s)"

text \<open>\<open>strsep\<close> with a comma: the token and what is left, nothing after the last token.\<close>

fun strsep :: "string \<Rightarrow> string \<times> string option" where
  "strsep [] = ([], None)"
| "strsep (c # cs) = (if c = CHR '','' then ([], Some cs) else (let (t, r) = strsep cs in (c # t, r)))"

lemma strsep_shorter: "snd (strsep s) = Some r \<Longrightarrow> length r < length s"
  by (induction s) (auto split: if_splits prod.splits)

text \<open>The loop over key and value pairs.\<close>

function set_pairs :: "mem_env \<Rightarrow> nat \<Rightarrow> string option \<Rightarrow> mempools \<Rightarrow> mempools" where
  "set_pairs e pool None s = s"
| "set_pairs e pool (Some str) s =
     (case strsep str of
        (tok, None) \<Rightarrow> s
      | (tok, Some r) \<Rightarrow>
          (case strsep r of (val, r') \<Rightarrow>
             set_pairs e pool r' (rtw_mempool_set_key_value pool tok (simple_strtol e val) s)))"
  by pat_completeness auto

termination set_pairs
proof (relation "measure (\<lambda>(e, pool, str, s). case str of None \<Rightarrow> 0 | Some t \<Rightarrow> Suc (length t))", simp, goal_cases)
  case (1 e pool str s tok o' r val r')
  then have "length r < length str" "\<And>t. r' = Some t \<Longrightarrow> length t < length r"
    using strsep_shorter [of str r] strsep_shorter [of r] by (metis snd_conv)+
  then show ?case by (cases r') force+
qed

text \<open>
  A write to \<open>/proc/rtw_mempool\<close>.  At most 128 bytes are copied to a buffer of that size; \<open>junk\<close> is
  what follows them in memory.
\<close>

definition rtw_mempool_entry_write :: "mem_env \<Rightarrow> string \<Rightarrow> string option \<Rightarrow> nat \<Rightarrow> mempools \<Rightarrow> fault + (nat \<times> mempools)" where
  "rtw_mempool_entry_write e junk ubuf len s =
     (let len = (if len > 128 then 128 else len) in
      case ubuf of None \<Rightarrow> Inr (len, s)
      | Some b \<Rightarrow>
          let (tok, rest) = strsep (takeWhile (\<lambda>c. c \<noteq> CHR 0x00) (take len b @ junk));
              name = take RTW_MEM_POOL_NAME_SZ tok
          in if name = ''total_mem_thru'' then
               (case rest of None \<Rightarrow> Inl Oops
                | Some r \<Rightarrow> Inr (len, s\<lparr>total_mem_thru := simple_strtol e (fst (strsep r)) mod 2 ^ 32\<rparr>))
             else (case rtw_find_mem_pool_by_name name s of
                None \<Rightarrow> Inr (len, s)
              | Some pool \<Rightarrow> Inr (len, set_pairs e pool rest s)))"

section \<open>Free lists\<close>

definition rtw_mem_pool_get_from_list :: "nat \<Rightarrow> mempools \<Rightarrow> nat option \<times> mempools" where
  "rtw_mem_pool_get_from_list p s =
     (case (case pools s p of None \<Rightarrow> [] | Some P \<Rightarrow> free_list P) of
        [] \<Rightarrow> (None, s)
      | b # bs \<Rightarrow> (Some b, upd_pool p (\<lambda>P. P\<lparr>free_list := bs, count := count P - 1\<rparr>) s))"

definition rtw_mem_pool_add_to_list :: "nat \<Rightarrow> nat \<Rightarrow> mempools \<Rightarrow> mempools" where
  "rtw_mem_pool_add_to_list p b s = upd_pool p (\<lambda>P. P\<lparr>free_list := free_list P @ [b], count := count P + 1\<rparr>) s"

text \<open>One round of \<open>rtw_mem_pool_fill_list\<close>; false when it returns.\<close>

definition fill_one :: "mem_env \<Rightarrow> nat \<Rightarrow> mempools \<Rightarrow> bool \<times> mempools" where
  "fill_one e p s =
     (if total_mem_thru s \<noteq> 0 \<and> total_mem_used s > total_mem_thru s
      then (False, upd_pool p (\<lambda>P. P\<lparr>rmu := rmu P + 1\<rparr>) s)
      else
        let b = allocs s; s = s\<lparr>allocs := allocs s + 1\<rparr> in
        if \<not> kmem_ok e b then (False, upd_pool p (\<lambda>P. P\<lparr>buf_alloc_failed := buf_alloc_failed P + 1\<rparr>) s)
        else
          let s = upd_pool p (\<lambda>P. P\<lparr>buf_alloced := buf_alloced P + 1, mem_used := mem_used P + obj_size P\<rparr>) s;
              s = s\<lparr>total_mem_used := total_mem_used s + obj_size (pool_at s p)\<rparr>;
              s = s\<lparr>bufs := (bufs s)(b \<mapsto> \<lparr>bpool = Some p, magic = RTW_MEM_MAGIC\<rparr>)\<rparr>
          in (True, rtw_mem_pool_add_to_list p b s))"

fun fill_rounds :: "mem_env \<Rightarrow> nat \<Rightarrow> nat \<Rightarrow> mempools \<Rightarrow> mempools" where
  "fill_rounds e p 0 s = s"
| "fill_rounds e p (Suc n) s = (case fill_one e p s of (True, s') \<Rightarrow> fill_rounds e p n s' | (False, s') \<Rightarrow> s')"

definition rtw_mem_pool_fill_list :: "mem_env \<Rightarrow> nat \<Rightarrow> int \<Rightarrow> mempools \<Rightarrow> mempools" where
  "rtw_mem_pool_fill_list e p cnt s = fill_rounds e p (nat cnt) s"

definition take_used :: "nat \<Rightarrow> nat \<Rightarrow> mempools \<Rightarrow> nat option \<times> mempools" where
  "take_used p b s = (Some b, upd_pool p (\<lambda>P. P\<lparr>used := used P + 1\<rparr>) s)"

definition rtw_mem_pool_alloc_buf :: "mem_env \<Rightarrow> nat \<Rightarrow> mempools \<Rightarrow> nat option \<times> mempools" where
  "rtw_mem_pool_alloc_buf e p s =
     (if used (pool_at s p) > pmax (pool_at s p) then (None, upd_pool p (\<lambda>P. P\<lparr>rpu := rpu P + 1\<rparr>) s)
      else case rtw_mem_pool_get_from_list p s of
        (Some b, s) \<Rightarrow> take_used p b s
      | (None, s) \<Rightarrow>
          (case rtw_mem_pool_get_from_list p (rtw_mem_pool_fill_list e p (batch (pool_at s p)) s) of
             (Some b, s) \<Rightarrow> take_used p b s
           | (None, s) \<Rightarrow> (None, s)))"

definition is_rtw_mem :: "nat \<Rightarrow> mempools \<Rightarrow> bool" where
  "is_rtw_mem b s \<longleftrightarrow> (case bufs s b of Some B \<Rightarrow> magic B = RTW_MEM_MAGIC | None \<Rightarrow> False)"

text \<open>A buffer taken off the list goes back to the slab.\<close>

definition release_buf :: "nat \<Rightarrow> nat \<Rightarrow> mempools \<Rightarrow> mempools" where
  "release_buf p b s =
     (let s = upd_pool p (\<lambda>P. P\<lparr>buf_returned := buf_returned P + 1, mem_used := mem_used P - obj_size P\<rparr>) s;
          s = s\<lparr>total_mem_used := total_mem_used s - obj_size (pool_at s p)\<rparr>
      in s\<lparr>bufs := (bufs s)(b := None)\<rparr>)"

function rtw_mem_pool_return_buffer :: "nat \<Rightarrow> int \<Rightarrow> mempools \<Rightarrow> mempools" where
  "rtw_mem_pool_return_buffer p cnt s =
     (if cnt = 0 then s
      else case rtw_mem_pool_get_from_list p s of
        (None, s') \<Rightarrow> s'
      | (Some b, s') \<Rightarrow> rtw_mem_pool_return_buffer p (cnt - 1) (release_buf p b s'))"
  by pat_completeness auto

definition free_count :: "nat \<Rightarrow> mempools \<Rightarrow> nat" where
  "free_count p s = (case pools s p of None \<Rightarrow> 0 | Some P \<Rightarrow> length (free_list P))"

lemma return_shrinks:
  "rtw_mem_pool_get_from_list p s = (Some b, s') \<Longrightarrow> free_count p (release_buf p b s') < free_count p s"
  by (auto simp: rtw_mem_pool_get_from_list_def release_buf_def upd_pool_def free_count_def Let_def
      split: list.splits option.splits)

termination rtw_mem_pool_return_buffer
  by (relation "measure (\<lambda>(p, cnt, s). free_count p s)") (auto dest: return_shrinks sym)

declare rtw_mem_pool_return_buffer.simps [simp del]

section \<open>Shrinking\<close>

text \<open>Whether to shrink, and the level.  \<open>jiffies\<close> is the current time.\<close>

definition rtw_mem_pool_need_resize :: "u32 \<Rightarrow> rtw_mem_pool \<Rightarrow> bool \<times> int" where
  "rtw_mem_pool_need_resize jiffies P =
     (if timestamp P = 0 then (False, 0)
      else if jiffies - timestamp P > of_nat RTW_MEM_IDLE_TIMEOUT
      then (True, if c_div (freed P) (int (RTW_MEM_IDLE_TIMEOUT div HZ)) > thru P then 1 else 0)
      else (False, 0))"

definition rtw_mem_pool_resize :: "nat \<Rightarrow> int \<Rightarrow> mempools \<Rightarrow> mempools" where
  "rtw_mem_pool_resize p level s =
     (let P = pool_at s p;
          shrink = (used P + count P) - (pmin P + batch P);
          shrink = (if level = 1 then shrink - thru P else shrink)
      in if shrink \<le> 0 then s
         else upd_pool p (\<lambda>P. P\<lparr>resized := resized P + 1\<rparr>) (rtw_mem_pool_return_buffer p shrink s))"

text \<open>Freeing a buffer: the return value and the state.\<close>

definition rtw_mem_pool_free_buf :: "mem_env \<Rightarrow> u32 \<Rightarrow> nat option \<Rightarrow> mempools \<Rightarrow> bool \<times> mempools" where
  "rtw_mem_pool_free_buf e jiffies buf s =
     (case buf of None \<Rightarrow> (False, s)
      | Some b \<Rightarrow>
          (case (case bufs s b of Some B \<Rightarrow> bpool B | None \<Rightarrow> None) of
             None \<Rightarrow> (False, s)
           | Some p \<Rightarrow>
               if ksize e (pool_at s p) b \<noteq> obj_size (pool_at s p) then (True, s\<lparr>bufs := (bufs s)(b := None)\<rparr>)
               else
                 let s = upd_pool p (\<lambda>P. P\<lparr>used := used P - 1\<rparr>) s;
                     s = rtw_mem_pool_add_to_list p b s
                 in (True, upd_pool p (\<lambda>P.
                      if count P > thru P
                      then P\<lparr>freed := freed P + 1, timestamp := (if timestamp P = 0 then jiffies else timestamp P)\<rparr>
                      else P\<lparr>freed := 0, timestamp := 0\<rparr>) s)))"

section \<open>Pools\<close>

definition set_max_min :: "int \<Rightarrow> int \<Rightarrow> rtw_mem_pool \<Rightarrow> rtw_mem_pool" where
  "set_max_min mx mn P =
     (let P = P\<lparr>pmax := mx, pmin := mn, batch := RTW_MEM_POOL_BATCH\<rparr>; d = c_div mx mn
      in if d \<le> 1 then P else P\<lparr>thru := c_div (mx - mn) d\<rparr>)"

text \<open>A minimum of zero is a division by zero.\<close>

definition rtw_mem_pool_set_max_min :: "nat \<Rightarrow> int \<Rightarrow> int \<Rightarrow> mempools \<Rightarrow> fault + mempools" where
  "rtw_mem_pool_set_max_min p mx mn s = (if mn = 0 then Inl Oops else Inr (upd_pool p (set_max_min mx mn) s))"

definition new_pool :: "string \<Rightarrow> rtw_mem_pool" where
  "new_pool name = \<lparr>pname = take RTW_MEM_POOL_NAME_SZ name, pmax = 0, pmin = 0, used = 0, rpu = 0, rmu = 0,
     buf_returned = 0, buf_alloced = 0, mem_used = 0, buf_alloc_failed = 0, batch = 0, thru = 0, obj_size = 0,
     free_list = [], count = 0, timestamp = 0, freed = 0, resized = 0\<rparr>"

definition rtw_create_mem_pool :: "mem_env \<Rightarrow> string \<Rightarrow> int \<Rightarrow> int \<Rightarrow> int \<Rightarrow> mempools
    \<Rightarrow> fault + (nat option \<times> mempools)" where
  "rtw_create_mem_pool e name mx mn bsize s =
     (let p = creates s; s = s\<lparr>creates := creates s + 1\<rparr> in
      if \<not> kmalloc_ok e p then Inr (None, s)
      else case rtw_mem_pool_set_max_min p mx mn (s\<lparr>pools := (pools s)(p \<mapsto> new_pool name)\<rparr>) of
        Inl f \<Rightarrow> Inl f
      | Inr s \<Rightarrow>
          let s = upd_pool p (\<lambda>P. P\<lparr>obj_size := obj_size_of e bsize\<rparr>) s;
              s = rtw_mem_pool_fill_list e p mn s
          in Inr (Some p, snd (rtw_add_mem_pool bsize p s)))"

definition rtw_create_mem_pool_ex :: "mem_env \<Rightarrow> string \<Rightarrow> int \<Rightarrow> int \<Rightarrow> int \<Rightarrow> mempools \<Rightarrow> fault + mempools" where
  "rtw_create_mem_pool_ex e name mx mn bsize s =
     (case rtw_find_mem_pool_by_name_sz name bsize s of (pool, type) \<Rightarrow>
        if type = RTW_MEM_POOL_SIZE_UNMATCH_NAME_MATCHED \<or> type = RTW_MEM_POOL_SIZE_MATCHED then Inl Oops
        else case pool of
          None \<Rightarrow> (case rtw_create_mem_pool e name mx mn bsize s of Inl f \<Rightarrow> Inl f | Inr (_, s) \<Rightarrow> Inr s)
        | Some p \<Rightarrow> if pmax (pool_at s p) \<noteq> mx \<or> pmin (pool_at s p) \<noteq> mn
            then rtw_mem_pool_set_max_min p mx mn s else Inr s)"

definition rtw_remove_mem_pool :: "nat \<Rightarrow> mempools \<Rightarrow> bool \<times> mempools" where
  "rtw_remove_mem_pool p s = (case rtw_del_mem_pool p s of
     (False, s) \<Rightarrow> (False, s)
   | (True, s) \<Rightarrow>
       let s = rtw_mem_pool_return_buffer p (pmax (pool_at s p)) s
       in (True, s\<lparr>pools := (pools s)(p := None)\<rparr>))"

definition rtw_remove_mem_pool_ex :: "string \<Rightarrow> mempools \<Rightarrow> bool \<times> mempools" where
  "rtw_remove_mem_pool_ex name s = (case rtw_find_mem_pool_by_name name s of
     None \<Rightarrow> (False, s)
   | Some p \<Rightarrow> (True, rtw_mem_pool_return_buffer p (pmax (pool_at s p)) s))"

definition rtw_mem_pool_alloc_skb :: "mem_env \<Rightarrow> u32 \<Rightarrow> int \<Rightarrow> mempools \<Rightarrow> nat option \<times> mempools" where
  "rtw_mem_pool_alloc_skb e jiffies bsize s = (case rtw_find_mem_pool bsize s of
     None \<Rightarrow> (None, s)
   | Some p \<Rightarrow>
       (case rtw_mem_pool_alloc_buf e p s of
          (None, s) \<Rightarrow> (None, s)
        | (Some b, s) \<Rightarrow>
            if build_skb_ok e b then (Some b, s)
            else (None, snd (rtw_mem_pool_free_buf e jiffies (Some b) s))))"

fun timeout_slots :: "u32 \<Rightarrow> (int \<times> nat option) list \<Rightarrow> mempools \<Rightarrow> mempools" where
  "timeout_slots jiffies [] s = s"
| "timeout_slots jiffies ((sz, p) # is) s =
     (if sz \<noteq> 0 then
        (case p of None \<Rightarrow> timeout_slots jiffies is s
         | Some p \<Rightarrow>
             (case rtw_mem_pool_need_resize jiffies (pool_at s p) of
                (True, level) \<Rightarrow> timeout_slots jiffies is (rtw_mem_pool_resize p level s)
              | (False, level) \<Rightarrow> timeout_slots jiffies is s))
      else timeout_slots jiffies is s)"

definition rtw_mem_pool_timeout :: "u32 \<Rightarrow> mempools \<Rightarrow> mempools" where
  "rtw_mem_pool_timeout jiffies s = timeout_slots jiffies (info s) s"

definition rtw_mem_pool_init :: "mempools \<Rightarrow> mempools" where
  "rtw_mem_pool_init s = s\<lparr>info := replicate RTW_MEM_POOL_MAX (0, None)\<rparr>"

end
