(* ===== verification/Mempool_Props.thy ===== *)
theory Mempool_Props
  imports Mempool
begin

text \<open>
  Properties of the buffer pools: the counters of a pool agree with its buffers after any
  sequence of operations, a buffer is never handed out twice, and shrinking keeps the reserve.
\<close>

section \<open>Invariant\<close>

text \<open>The pool of a buffer, and the buffers that belong to a pool.\<close>

definition pool_of :: "(nat \<Rightarrow> rtw_priv_buffer option) \<Rightarrow> nat \<Rightarrow> nat option" where
  "pool_of m k = (case m k of Some B \<Rightarrow> bpool B | None \<Rightarrow> None)"

definition owned :: "(nat \<Rightarrow> rtw_priv_buffer option) \<Rightarrow> nat \<Rightarrow> nat set" where
  "owned m p = {k. pool_of m k = Some p}"

lemma pool_of_upd [simp]:
  "pool_of (m(b \<mapsto> B)) k = (if k = b then bpool B else pool_of m k)"
  "pool_of (m(b := None)) k = (if k = b then None else pool_of m k)"
  by (simp_all add: pool_of_def)

definition pool_ok :: "(nat \<Rightarrow> rtw_priv_buffer option) \<Rightarrow> nat \<Rightarrow> rtw_mem_pool \<Rightarrow> bool" where
  "pool_ok m p P \<longleftrightarrow> finite (owned m p) \<and> distinct (free_list P) \<and> set (free_list P) \<subseteq> owned m p
     \<and> count P = int (length (free_list P)) \<and> used P = int (card (owned m p)) - count P
     \<and> mem_used P = obj_size P * int (card (owned m p)) \<and> buf_alloced P - buf_returned P = int (card (owned m p))"

definition bufs_ok :: "mempools \<Rightarrow> bool" where
  "bufs_ok s \<longleftrightarrow> (\<forall>k B. bufs s k = Some B \<longrightarrow> k < allocs s \<and> magic B = RTW_MEM_MAGIC
     \<and> bpool B \<in> Some ` dom (pools s))"

definition mem_inv :: "mempools \<Rightarrow> bool" where
  "mem_inv s \<longleftrightarrow> finite (dom (pools s)) \<and> (\<forall>p P. pools s p = Some P \<longrightarrow> pool_ok (bufs s) p P \<and> p < creates s)
     \<and> bufs_ok s \<and> total_mem_used s = (\<Sum>p\<in>dom (pools s). mem_used (pool_at s p))
     \<and> (\<forall>sz p. (sz, Some p) \<in> set (info s) \<longrightarrow> pools s p \<noteq> None)"

lemma mem_invD:
  assumes "mem_inv s"
  shows "pools s p = Some P \<Longrightarrow> pool_ok (bufs s) p P" and "bufs_ok s"
    and "(sz, Some p) \<in> set (info s) \<Longrightarrow> \<exists>P. pools s p = Some P"
    and "finite (dom (pools s))" and "pools s p = Some P \<Longrightarrow> p < creates s"
    and "total_mem_used s = (\<Sum>p\<in>dom (pools s). mem_used (pool_at s p))"
  using assms unfolding mem_inv_def by blast+

lemma bufs_ok_shrink:
  "bufs_ok s \<Longrightarrow> dom (pools s) \<subseteq> dom (pools s') \<Longrightarrow> bufs s' \<subseteq>\<^sub>m bufs s \<Longrightarrow> allocs s \<le> allocs s' \<Longrightarrow> bufs_ok s'"
  unfolding bufs_ok_def map_le_def by (metis (no_types, lifting) domI image_mono in_mono order_less_le_trans)

lemma owned_upd:
  "owned (m(b \<mapsto> \<lparr>bpool = Some p, magic = g\<rparr>)) p = insert b (owned m p)"
  "b \<notin> owned m q \<Longrightarrow> q \<noteq> p \<Longrightarrow> owned (m(b \<mapsto> \<lparr>bpool = Some p, magic = g\<rparr>)) q = owned m q"
  "owned (m(b := None)) p = owned m p - {b}"
  by (auto simp: owned_def)

text \<open>An operation that changes one pool, and the buffers of no other.\<close>

lemma mem_inv_update:
  assumes "mem_inv s" and "pools s p = Some P" and "pools s' = (pools s)(p \<mapsto> P')"
    and "pool_ok (bufs s') p P'" and "\<And>q. q \<noteq> p \<Longrightarrow> owned (bufs s') q = owned (bufs s) q"
    and "bufs_ok s'" and "total_mem_used s' = total_mem_used s + (mem_used P' - mem_used P)"
    and "info s' = info s" and "creates s' = creates s"
  shows "mem_inv s'"
proof -
  note inv = mem_invD [OF assms(1)]
  have d: "p \<in> dom (pools s)" using assms(2) by blast
  have dom: "dom (pools s') = dom (pools s)" using d by (auto simp: assms(3))
  have other: "(\<Sum>q\<in>dom (pools s) - {p}. mem_used (pool_at s' q)) = (\<Sum>q\<in>dom (pools s) - {p}. mem_used (pool_at s q))"
    by (rule sum.cong) (simp_all add: assms(3))
  have "total_mem_used s' = (\<Sum>q\<in>dom (pools s). mem_used (pool_at s' q))"
    unfolding assms(7) inv(6) sum.remove [OF inv(4) d] other by (simp add: assms(2,3))
  moreover have "pool_ok (bufs s') q Q \<and> q < creates s'" if "pools s' q = Some Q" for q Q
  proof (cases "q = p")
    case True
    with that have "Q = P'" by (simp add: assms(3))
    with True assms(4,9) inv(5) [OF assms(2)] show ?thesis by simp
  next
    case False
    with that have "pools s q = Some Q" by (simp add: assms(3))
    with inv(1,5) [of q Q] assms(9) assms(5) [OF False] show ?thesis by (simp add: pool_ok_def)
  qed
  moreover have "pools s' q \<noteq> None" if "(sz, Some q) \<in> set (info s')" for sz q
  proof -
    have "q \<in> dom (pools s)" using that inv(3) assms(8) by fastforce
    with dom show ?thesis by blast
  qed
  ultimately show ?thesis
    unfolding mem_inv_def dom using inv(4) assms(6) by blast
qed

text \<open>The fields of a pool that the invariant speaks about.\<close>

definition same_core :: "rtw_mem_pool \<Rightarrow> rtw_mem_pool \<Rightarrow> bool" where
  "same_core P Q \<longleftrightarrow> free_list P = free_list Q \<and> count P = count Q \<and> used P = used Q \<and> mem_used P = mem_used Q
     \<and> buf_alloced P = buf_alloced Q \<and> buf_returned P = buf_returned Q \<and> obj_size P = obj_size Q"

lemma upd_pool_some: "pools s p = Some P \<Longrightarrow> upd_pool p f s = s\<lparr>pools := (pools s)(p \<mapsto> f P)\<rparr>"
  and upd_pool_none: "pools s p = None \<Longrightarrow> upd_pool p f s = s"
  by (simp_all add: upd_pool_def fun_upd_idem)

lemma mem_inv_upd_pool:
  assumes "mem_inv s" and "\<And>P. same_core (f P) P"
  shows "mem_inv (upd_pool p f s)"
proof (cases "pools s p")
  case (Some P)
  have c: "same_core (f P) P" by (rule assms(2))
  have "bufs_ok (upd_pool p f s)"
    using mem_invD(2) [OF assms(1)] by (rule bufs_ok_shrink) (simp_all add: upd_pool_some [OF Some] insert_absorb domI Some subset_insertI)
  then show ?thesis
    using c mem_invD(1) [OF assms(1) Some]
    by - (rule mem_inv_update [OF assms(1) Some, of _ "f P"], simp_all add: upd_pool_some [OF Some] pool_ok_def same_core_def)
next
  case None
  with assms(1) show ?thesis by (simp add: upd_pool_none)
qed

section \<open>Buffers in use\<close>

definition is_held :: "mempools \<Rightarrow> nat \<Rightarrow> bool" where
  "is_held s k = (case pool_of (bufs s) k of None \<Rightarrow> False | Some p \<Rightarrow> k \<notin> set (free_list (pool_at s p)))"

definition in_use :: "mempools \<Rightarrow> nat set" where
  "in_use s = Collect (is_held s)"

lemma in_use_alt: "in_use s = {k. \<exists>p. pool_of (bufs s) k = Some p \<and> k \<notin> set (free_list (pool_at s p))}"
  by (auto simp: in_use_def is_held_def split: option.splits)

lemma is_held_iff: "is_held s b \<longleftrightarrow> b \<in> in_use s"
  by (simp add: in_use_def)

lemma in_use_cong:
  "bufs s' = bufs s \<Longrightarrow> (\<And>q. free_list (pool_at s' q) = free_list (pool_at s q)) \<Longrightarrow> in_use s' = in_use s"
  by (simp add: in_use_alt)

lemma in_use_upd_pool: "(\<And>P. same_core (f P) P) \<Longrightarrow> in_use (upd_pool p f s) = in_use s"
  by (cases "pools s p") (auto simp: upd_pool_some upd_pool_none same_core_def intro!: in_use_cong)

text \<open>Handing out the first buffer of a free list.\<close>

definition handed_out :: "nat \<Rightarrow> rtw_mem_pool \<Rightarrow> nat list \<Rightarrow> mempools \<Rightarrow> mempools" where
  "handed_out p P bs s = s\<lparr>pools := (pools s)(p \<mapsto> P\<lparr>free_list := bs, count := count P - 1, used := used P + 1\<rparr>)\<rparr>"

lemma handed_out_ok:
  assumes "mem_inv s" and P: "pools s p = Some P" and F: "free_list P = b # bs"
  shows "mem_inv (handed_out p P bs s)" and "in_use (handed_out p P bs s) = insert b (in_use s)" and "b \<notin> in_use s"
proof -
  note ok = mem_invD(1) [OF assms(1) P]
  have "bufs_ok (handed_out p P bs s)"
    using mem_invD(2) [OF assms(1)] by (rule bufs_ok_shrink) (auto simp: handed_out_def)
  then show "mem_inv (handed_out p P bs s)"
    using ok F by - (rule mem_inv_update [OF assms(1) P], auto simp: handed_out_def pool_ok_def)
  have b: "pool_of (bufs s) b = Some p" "b \<notin> set bs"
    using ok F by (auto simp: pool_ok_def owned_def)
  then show "in_use (handed_out p P bs s) = insert b (in_use s)" and "b \<notin> in_use s"
    using P F by (fastforce simp: in_use_alt handed_out_def split: if_splits, simp add: in_use_alt)
qed

text \<open>A new buffer at the end of a free list.\<close>

definition filled :: "nat \<Rightarrow> rtw_mem_pool \<Rightarrow> mempools \<Rightarrow> mempools" where
  "filled p P s = s\<lparr>pools := (pools s)(p \<mapsto> P\<lparr>buf_alloced := buf_alloced P + 1, mem_used := mem_used P + obj_size P,
       free_list := free_list P @ [allocs s], count := count P + 1\<rparr>),
     bufs := (bufs s)(allocs s \<mapsto> \<lparr>bpool = Some p, magic = RTW_MEM_MAGIC\<rparr>),
     total_mem_used := total_mem_used s + obj_size P, allocs := allocs s + 1\<rparr>"

lemma fresh_buf: "bufs_ok s \<Longrightarrow> bufs s (allocs s) = None"
  unfolding bufs_ok_def by (metis less_irrefl option.exhaust)

lemma bufs_ok_filled: "bufs_ok s \<Longrightarrow> bufs_ok (filled p P s)"
  by (auto simp: bufs_ok_def filled_def less_Suc_eq)

lemma filled_ok:
  assumes "mem_inv s" and P: "pools s p = Some P"
  shows "mem_inv (filled p P s)" and "in_use (filled p P s) = in_use s"
proof -
  note ok = mem_invD(1) [OF assms(1) P]
  have fresh: "bufs s (allocs s) = None" by (rule fresh_buf [OF mem_invD(2) [OF assms(1)]])
  then have none: "pool_of (bufs s) (allocs s) = None" by (simp add: pool_of_def)
  then have new: "allocs s \<notin> owned (bufs s) q" for q by (simp add: owned_def)
  with ok have "allocs s \<notin> set (free_list P)" by (auto simp: pool_ok_def)
  with ok new have "pool_ok (bufs (filled p P s)) p (the (pools (filled p P s) p))"
    by (auto simp: filled_def pool_ok_def owned_upd algebra_simps)
  then show "mem_inv (filled p P s)"
    using bufs_ok_filled [OF mem_invD(2) [OF assms(1)]] new
    by - (rule mem_inv_update [OF assms(1) P, of _ "the (pools (filled p P s) p)"], simp_all add: filled_def owned_upd)
  show "in_use (filled p P s) = in_use s"
    using P none by (auto simp: in_use_alt filled_def split: if_splits)
qed

text \<open>The first buffer of a free list returned to the slab.\<close>

definition shrunk :: "nat \<Rightarrow> rtw_mem_pool \<Rightarrow> nat \<Rightarrow> nat list \<Rightarrow> mempools \<Rightarrow> mempools" where
  "shrunk p P b bs s = s\<lparr>pools := (pools s)(p \<mapsto> P\<lparr>free_list := bs, count := count P - 1,
       buf_returned := buf_returned P + 1, mem_used := mem_used P - obj_size P\<rparr>),
     total_mem_used := total_mem_used s - obj_size P, bufs := (bufs s)(b := None)\<rparr>"

lemma shrunk_ok:
  assumes "mem_inv s" and P: "pools s p = Some P" and F: "free_list P = b # bs"
  shows "mem_inv (shrunk p P b bs s)" and "in_use (shrunk p P b bs s) = in_use s"
proof -
  note ok = mem_invD(1) [OF assms(1) P]
  have b: "b \<in> owned (bufs s) p" "b \<notin> set bs" using ok F by (auto simp: pool_ok_def)
  with ok obtain n where n: "card (owned (bufs s) p) = Suc n"
    by (metis card_Suc_Diff1 pool_ok_def)
  have other: "q \<noteq> p \<Longrightarrow> b \<notin> owned (bufs s) q" for q using b by (auto simp: owned_def)
  have "bufs_ok (shrunk p P b bs s)"
    using mem_invD(2) [OF assms(1)] by (rule bufs_ok_shrink) (auto simp: shrunk_def map_le_def)
  moreover have "pool_ok (bufs (shrunk p P b bs s)) p (the (pools (shrunk p P b bs s) p))"
    using ok F b by (auto simp: shrunk_def pool_ok_def owned_upd n algebra_simps)
  ultimately show "mem_inv (shrunk p P b bs s)"
    using other by - (rule mem_inv_update [OF assms(1) P, of _ "the (pools (shrunk p P b bs s) p)"], simp_all add: shrunk_def owned_upd)
  show "in_use (shrunk p P b bs s) = in_use s"
    using P F b by (auto simp: in_use_alt shrunk_def owned_def split: if_splits)
qed

text \<open>A buffer in use put back on the free list of its pool.\<close>

definition put_back :: "nat \<Rightarrow> rtw_mem_pool \<Rightarrow> nat \<Rightarrow> mempools \<Rightarrow> mempools" where
  "put_back p P b s = s\<lparr>pools := (pools s)(p \<mapsto> P\<lparr>used := used P - 1, free_list := free_list P @ [b], count := count P + 1\<rparr>)\<rparr>"

lemma put_back_ok:
  assumes "mem_inv s" and P: "pools s p = Some P" and B: "pool_of (bufs s) b = Some p" and "b \<in> in_use s"
  shows "mem_inv (put_back p P b s)" and "in_use (put_back p P b s) = in_use s - {b}"
proof -
  note ok = mem_invD(1) [OF assms(1) P]
  have b: "b \<notin> set (free_list P)" "b \<in> owned (bufs s) p" using assms(4) P B by (auto simp: in_use_alt owned_def split: if_splits)
  have "bufs_ok (put_back p P b s)"
    using mem_invD(2) [OF assms(1)] by (rule bufs_ok_shrink) (auto simp: put_back_def)
  then show "mem_inv (put_back p P b s)"
    using ok b by - (rule mem_inv_update [OF assms(1) P], auto simp: put_back_def pool_ok_def)
  show "in_use (put_back p P b s) = in_use s - {b}"
    using P B by (auto simp: in_use_alt put_back_def split: if_splits)
qed

section \<open>Operations\<close>

text \<open>Steps that leave the buffers in use and the set of pools as they are.\<close>

definition quiet :: "mempools \<Rightarrow> mempools \<Rightarrow> bool" where
  "quiet s s' \<longleftrightarrow> mem_inv s' \<and> in_use s' = in_use s \<and> dom (pools s') = dom (pools s) \<and> info s' = info s"

lemma quiet_refl: "mem_inv s \<Longrightarrow> quiet s s"
  by (simp add: quiet_def)

lemma quiet_trans: "quiet s t \<Longrightarrow> quiet t u \<Longrightarrow> quiet s u"
  by (simp add: quiet_def)

lemma quietD: "quiet s s' \<Longrightarrow> mem_inv s'" "quiet s s' \<Longrightarrow> in_use s' = in_use s"
  by (simp_all add: quiet_def)

lemma quiet_pool: "quiet s s' \<Longrightarrow> pools s p = Some P \<Longrightarrow> \<exists>P'. pools s' p = Some P'"
  unfolding quiet_def by blast

lemma upd_pool_fields [simp]:
  "dom (pools (upd_pool p f s)) = dom (pools s)" "info (upd_pool p f s) = info s"
  "bufs (upd_pool p f s) = bufs s" "allocs (upd_pool p f s) = allocs s"
  by (auto simp: upd_pool_def dom_def)

lemma quiet_upd_pool: "mem_inv s \<Longrightarrow> (\<And>P. same_core (f P) P) \<Longrightarrow> quiet s (upd_pool p f s)"
  by (simp add: quiet_def mem_inv_upd_pool in_use_upd_pool)

lemma quiet_allocs: "mem_inv s \<Longrightarrow> quiet s (s\<lparr>allocs := allocs s + 1\<rparr>)"
  by (auto simp: quiet_def mem_inv_def bufs_ok_def in_use_alt less_Suc_eq)

lemma quiet_thru: "mem_inv s \<Longrightarrow> quiet s (s\<lparr>total_mem_thru := t\<rparr>)"
  by (auto simp: quiet_def mem_inv_def bufs_ok_def in_use_alt)

lemma get_cons:
  assumes "pools s p = Some P" and "free_list P = b # bs"
  shows "rtw_mem_pool_get_from_list p s = (Some b, s\<lparr>pools := (pools s)(p \<mapsto> P\<lparr>free_list := bs, count := count P - 1\<rparr>)\<rparr>)"
  using assms by (simp add: rtw_mem_pool_get_from_list_def upd_pool_some)

lemma get_nil: "pools s p = Some P \<Longrightarrow> free_list P = [] \<Longrightarrow> rtw_mem_pool_get_from_list p s = (None, s)"
  by (simp add: rtw_mem_pool_get_from_list_def)

lemma get_take_used:
  assumes "pools s p = Some P" and "free_list P = b # bs"
  shows "take_used p b (snd (rtw_mem_pool_get_from_list p s)) = (Some b, handed_out p P bs s)"
  using assms by (simp add: get_cons take_used_def handed_out_def upd_pool_some)

lemma get_release:
  assumes "pools s p = Some P" and "free_list P = b # bs"
  shows "release_buf p b (snd (rtw_mem_pool_get_from_list p s)) = shrunk p P b bs s"
  using assms by (simp add: get_cons release_buf_def shrunk_def upd_pool_some Let_def)

lemma fill_one_filled:
  assumes "pools s p = Some P" and "\<not> (total_mem_thru s \<noteq> 0 \<and> total_mem_used s > total_mem_thru s)" and "kmem_ok e (allocs s)"
  shows "fill_one e p s = (True, filled p P s)"
  using assms by (simp add: fill_one_def filled_def rtw_mem_pool_add_to_list_def upd_pool_some Let_def)

lemma quiet_fill_one:
  assumes "mem_inv s" and P: "pools s p = Some P"
  shows "quiet s (snd (fill_one e p s))"
proof -
  have "quiet s (filled p P s)"
    using filled_ok [OF assms] P by (auto simp: quiet_def filled_def)
  moreover have "quiet s (upd_pool p (\<lambda>P. P\<lparr>rmu := rmu P + 1\<rparr>) s)"
    by (rule quiet_upd_pool [OF assms(1)]) (simp add: same_core_def)
  moreover have "quiet s (upd_pool p (\<lambda>P. P\<lparr>buf_alloc_failed := buf_alloc_failed P + 1\<rparr>) (s\<lparr>allocs := allocs s + 1\<rparr>))"
    by (rule quiet_trans [OF quiet_allocs [OF assms(1)] quiet_upd_pool [OF quietD(1) [OF quiet_allocs [OF assms(1)]]]])
      (simp add: same_core_def)
  ultimately show ?thesis
    using fill_one_filled [OF P] by (auto simp: fill_one_def Let_def)
qed

lemma quiet_fill_rounds:
  assumes "mem_inv s" and "pools s p = Some P"
  shows "quiet s (fill_rounds e p n s)"
  using assms
proof (induction n arbitrary: s P)
  case (Suc n)
  note q = quiet_fill_one [OF Suc.prems, of e]
  obtain ok t where t: "fill_one e p s = (ok, t)" by (cases "fill_one e p s")
  with q have qt: "quiet s t" by simp
  obtain P' where "pools t p = Some P'" using quiet_pool [OF qt Suc.prems(2)] by blast
  from Suc.IH [OF quietD(1) [OF qt] this] qt show ?case
    by (cases ok) (auto simp: t intro: quiet_trans)
qed (simp add: quiet_refl)

lemma quiet_return_buffer:
  assumes "mem_inv s" and "pools s p = Some P"
  shows "quiet s (rtw_mem_pool_return_buffer p cnt s)"
  using assms
proof (induction p cnt s arbitrary: P rule: rtw_mem_pool_return_buffer.induct)
  case (1 p cnt s)
  show ?case
  proof (cases "cnt = 0 \<or> free_list P = []")
    case True
    with 1 show ?thesis
      by (subst rtw_mem_pool_return_buffer.simps) (auto simp: get_nil quiet_refl)
  next
    case False
    then obtain b bs where F: "free_list P = b # bs" by (cases "free_list P") auto
    obtain s' where g: "rtw_mem_pool_get_from_list p s = (Some b, s')" using get_cons [OF 1(3) F] by blast
    have r: "release_buf p b s' = shrunk p P b bs s" using get_release [OF 1(3) F] g by simp
    have q: "quiet s (shrunk p P b bs s)"
      using shrunk_ok [OF 1(2,3) F] 1(3) by (auto simp: quiet_def shrunk_def)
    obtain P' where "pools (shrunk p P b bs s) p = Some P'" using quiet_pool [OF q 1(3)] by blast
    with 1(1) [OF _ g [symmetric] refl] False quietD(1) [OF q] r
    have "quiet (shrunk p P b bs s) (rtw_mem_pool_return_buffer p (cnt - 1) (shrunk p P b bs s))" by simp
    with q False show ?thesis
      by (subst rtw_mem_pool_return_buffer.simps) (auto simp: g r intro: quiet_trans)
  qed
qed

lemma quiet_resize:
  assumes "mem_inv s" and "pools s p = Some P"
  shows "quiet s (rtw_mem_pool_resize p level s)"
proof -
  have "quiet s (upd_pool p (\<lambda>P. P\<lparr>resized := resized P + 1\<rparr>) (rtw_mem_pool_return_buffer p n s))" for n
    by (rule quiet_trans [OF quiet_return_buffer [OF assms] quiet_upd_pool [OF quietD(1) [OF quiet_return_buffer [OF assms]]]])
      (simp add: same_core_def)
  then show ?thesis by (simp add: rtw_mem_pool_resize_def Let_def quiet_refl [OF assms(1)])
qed

lemma quiet_timeout:
  assumes "mem_inv s" and "\<forall>sz p. (sz, Some p) \<in> set is \<longrightarrow> p \<in> dom (pools s)"
  shows "quiet s (timeout_slots jiffies is s)"
  using assms
proof (induction jiffies "is" s rule: timeout_slots.induct)
  case (2 jiffies sz p "is" s)
  show ?case
  proof (cases p)
    case (Some q)
    then obtain P where P: "pools s q = Some P" using 2(6) by auto
    have q: "quiet s (rtw_mem_pool_resize q level s)" for level by (rule quiet_resize [OF 2(5) P])
    moreover have "quiet (rtw_mem_pool_resize q level s) (timeout_slots jiffies is (rtw_mem_pool_resize q level s))"
      if "sz \<noteq> 0" "rtw_mem_pool_need_resize jiffies (pool_at s q) = (True, level)" for level
      using 2(2) [OF that(1) Some that(2) [symmetric]] q [of level] 2(6) by (auto simp: quiet_def)
    ultimately show ?thesis
      using 2(3,4) Some 2(5,6) by (auto split: prod.splits bool.splits intro: quiet_trans)
  qed (use 2 in auto)
qed (simp add: quiet_refl)

lemma quiet_set_key: "mem_inv s \<Longrightarrow> quiet s (rtw_mempool_set_key_value p key v s)"
  by (auto simp: rtw_mempool_set_key_value_def same_core_def intro!: quiet_upd_pool quiet_refl)

lemma quiet_set_pairs: "mem_inv s \<Longrightarrow> quiet s (set_pairs e p str s)"
proof (induction e p str s rule: set_pairs.induct)
  case (2 e p str s)
  then show ?case
    using quiet_set_key [OF 2(2)] by (auto split: prod.splits option.splits intro: quiet_refl) (meson quietD(1) quiet_trans)
qed (simp add: quiet_refl)

lemma quiet_entry_write:
  "mem_inv s \<Longrightarrow> rtw_mempool_entry_write e junk ubuf len s = Inr (n, s') \<Longrightarrow> quiet s s'"
  by (auto simp: rtw_mempool_entry_write_def Let_def simp del: set_pairs.simps intro: quiet_refl quiet_thru quiet_set_pairs
      split: option.splits prod.splits if_splits)

lemma same_core_set_max_min: "same_core (set_max_min mx mn P) P"
  by (simp add: set_max_min_def same_core_def Let_def)

lemma quiet_set_max_min: "mem_inv s \<Longrightarrow> rtw_mem_pool_set_max_min p mx mn s = Inr s' \<Longrightarrow> quiet s s'"
  by (auto simp: rtw_mem_pool_set_max_min_def same_core_set_max_min intro!: quiet_upd_pool split: if_splits)

section \<open>Allocation\<close>

text \<open>
  What an allocation does to the buffers in use: a buffer that was not in use is added, or nothing
  changes.
\<close>

definition allocated :: "nat option \<Rightarrow> mempools \<Rightarrow> mempools \<Rightarrow> bool" where
  "allocated r s s' \<longleftrightarrow> mem_inv s' \<and> dom (pools s') = dom (pools s) \<and> info s' = info s \<and>
     (case r of None \<Rightarrow> in_use s' = in_use s | Some b \<Rightarrow> b \<notin> in_use s \<and> in_use s' = insert b (in_use s))"

lemma allocated_none: "quiet s s' \<Longrightarrow> allocated None s s'"
  by (simp add: allocated_def quiet_def)

lemma allocated_trans: "quiet s t \<Longrightarrow> allocated r t u \<Longrightarrow> allocated r s u"
  by (auto simp: allocated_def quiet_def split: option.splits)

lemma allocated_take:
  assumes "mem_inv s" and "pools s p = Some P" and "rtw_mem_pool_get_from_list p s = (Some b, t)"
  shows "allocated (Some b) s (snd (take_used p b t))"
proof -
  obtain bs where F: "free_list P = b # bs"
    using assms(2,3) by (cases "free_list P") (auto simp: get_nil get_cons)
  have "take_used p b t = (Some b, handed_out p P bs s)" using get_take_used [OF assms(2) F] assms(3) by simp
  with handed_out_ok [OF assms(1,2) F] assms(2) show ?thesis by (auto simp: allocated_def handed_out_def)
qed

lemma get_none: "rtw_mem_pool_get_from_list p s = (None, t) \<Longrightarrow> t = s"
  by (auto simp: rtw_mem_pool_get_from_list_def split: list.splits)

lemma alloc_buf_allocated:
  assumes "mem_inv s" and "pools s p = Some P" and "rtw_mem_pool_alloc_buf e p s = (r, s')"
  shows "allocated r s s'"
proof -
  let ?f = "rtw_mem_pool_fill_list e p (batch (pool_at s p)) s"
  have q: "quiet s ?f" unfolding rtw_mem_pool_fill_list_def by (rule quiet_fill_rounds [OF assms(1,2)])
  then obtain P' where P': "pools ?f p = Some P'" using quiet_pool [OF q assms(2)] by blast
  have rpu: "quiet s (upd_pool p (\<lambda>P. P\<lparr>rpu := rpu P + 1\<rparr>) s)"
    by (rule quiet_upd_pool [OF assms(1)]) (simp add: same_core_def)
  have first: "allocated (Some b) s (snd (take_used p b t))" if "rtw_mem_pool_get_from_list p s = (Some b, t)" for b t
    by (rule allocated_take [OF assms(1,2) that])
  have second: "allocated (Some b) s (snd (take_used p b t))" if "rtw_mem_pool_get_from_list p ?f = (Some b, t)" for b t
    by (rule allocated_trans [OF q allocated_take [OF quietD(1) [OF q] P' that]])
  have "allocated None s ?f" by (rule allocated_none [OF q])
  with assms(3) first second allocated_none [OF rpu] show ?thesis
    by (auto simp: rtw_mem_pool_alloc_buf_def take_used_def dest!: get_none split: if_splits prod.splits option.splits)
qed

text \<open>
  Freeing a buffer in use.  \<open>ksize\<close> reports the object size of the slab a buffer comes from.
\<close>

definition ksize_law :: "mem_env \<Rightarrow> bool" where
  "ksize_law e \<longleftrightarrow> (\<forall>P b. ksize e P b = obj_size P)"

lemma free_buf_ok:
  assumes "mem_inv s" and "b \<in> in_use s" and "ksize_law e"
  shows "mem_inv (snd (rtw_mem_pool_free_buf e jiffies (Some b) s))"
    and "in_use (snd (rtw_mem_pool_free_buf e jiffies (Some b) s)) = in_use s - {b}"
    and "dom (pools (snd (rtw_mem_pool_free_buf e jiffies (Some b) s))) = dom (pools s)"
    and "info (snd (rtw_mem_pool_free_buf e jiffies (Some b) s)) = info s"
proof -
  obtain p B where p: "pool_of (bufs s) b = Some p" and B: "bufs s b = Some B" "bpool B = Some p"
    using assms(2) by (auto simp: in_use_alt pool_of_def split: option.splits)
  then obtain P where P: "pools s p = Some P"
    using mem_invD(2) [OF assms(1)] by (force simp: bufs_ok_def)
  let ?g = "\<lambda>P. if count P > thru P
      then P\<lparr>freed := freed P + 1, timestamp := (if timestamp P = 0 then jiffies else timestamp P)\<rparr>
      else P\<lparr>freed := 0, timestamp := 0\<rparr>"
  have eq: "snd (rtw_mem_pool_free_buf e jiffies (Some b) s) = upd_pool p ?g (put_back p P b s)"
    using assms(3) B P p
    by (simp add: rtw_mem_pool_free_buf_def ksize_law_def rtw_mem_pool_add_to_list_def upd_pool_some put_back_def Let_def)
  note ok = put_back_ok [OF assms(1) P p assms(2)]
  have q: "quiet (put_back p P b s) (upd_pool p ?g (put_back p P b s))"
    by (rule quiet_upd_pool [OF ok(1)]) (simp add: same_core_def)
  show "mem_inv (snd (rtw_mem_pool_free_buf e jiffies (Some b) s))"
    and "in_use (snd (rtw_mem_pool_free_buf e jiffies (Some b) s)) = in_use s - {b}"
    and "dom (pools (snd (rtw_mem_pool_free_buf e jiffies (Some b) s))) = dom (pools s)"
    and "info (snd (rtw_mem_pool_free_buf e jiffies (Some b) s)) = info s"
    using q ok P by (auto simp: eq quiet_def put_back_def)
qed

lemma find_pool:
  assumes "mem_inv s" and "rtw_find_mem_pool bsize s = Some p"
  obtains P where "pools s p = Some P"
proof -
  obtain i where i: "find (\<lambda>(sz, p). sz = bsize) (info s) = Some i" "snd i = Some p"
    using assms(2) by (auto simp: rtw_find_mem_pool_def split: option.splits)
  then have "i \<in> set (info s)" unfolding find_Some_iff by (metis nth_mem)
  with i(2) have "\<exists>sz. (sz, Some p) \<in> set (info s)" by (metis prod.collapse)
  then show thesis using mem_invD(3) [OF assms(1)] that by blast
qed

lemma alloc_skb_allocated:
  assumes "mem_inv s" and "ksize_law e" and "rtw_mem_pool_alloc_skb e jiffies bsize s = (r, s')"
  shows "allocated r s s'"
proof (cases "rtw_find_mem_pool bsize s")
  case None
  with assms show ?thesis by (simp add: rtw_mem_pool_alloc_skb_def allocated_none quiet_refl)
next
  case (Some p)
  then obtain P where P: "pools s p = Some P" by (rule find_pool [OF assms(1)])
  obtain r0 t where a: "rtw_mem_pool_alloc_buf e p s = (r0, t)" by fastforce
  have al: "allocated r0 s t" by (rule alloc_buf_allocated [OF assms(1) P a])
  show ?thesis
  proof (cases r0)
    case None
    with al a Some assms(3) show ?thesis by (simp add: rtw_mem_pool_alloc_skb_def)
  next
    case (Some b)
    with al have t: "mem_inv t" "b \<in> in_use t" by (auto simp: allocated_def)
    have "allocated None s (snd (rtw_mem_pool_free_buf e jiffies (Some b) t))"
      using free_buf_ok [OF t assms(2)] al Some by (auto simp: allocated_def)
    with al a Some \<open>rtw_find_mem_pool bsize s = Some p\<close> assms(3) show ?thesis
      by (auto simp: rtw_mem_pool_alloc_skb_def split: if_splits)
  qed
qed

section \<open>Creating pools\<close>

lemma mem_inv_new_pool:
  assumes "mem_inv s" and "same_core P (new_pool name\<lparr>obj_size := obj_size P\<rparr>)"
  shows "mem_inv (s\<lparr>creates := creates s + 1, pools := (pools s)(creates s \<mapsto> P)\<rparr>)" (is "mem_inv ?t")
    and "in_use (s\<lparr>creates := creates s + 1, pools := (pools s)(creates s \<mapsto> P)\<rparr>) = in_use s"
proof -
  have new: "creates s \<notin> dom (pools s)" using mem_invD(5) [OF assms(1)] by fastforce
  then have none: "owned (bufs s) (creates s) = {}"
    using mem_invD(2) [OF assms(1)] by (force simp: bufs_ok_def owned_def pool_of_def split: option.splits)
  have zero: "free_list P = []" "count P = 0" "used P = 0" "mem_used P = 0" "buf_alloced P = 0" "buf_returned P = 0"
    using assms(2) by (simp_all add: same_core_def new_pool_def)
  have ok: "pool_ok (bufs ?t) q Q \<and> q < creates ?t" if "pools ?t q = Some Q" for q Q
    using that none zero mem_invD(1,5) [OF assms(1), of q Q]
    by (cases "q = creates s") (auto simp: pool_ok_def)
  have bufs: "bufs_ok ?t" using mem_invD(2) [OF assms(1)] by (rule bufs_ok_shrink) auto
  have dom: "dom (pools ?t) = insert (creates s) (dom (pools s))" by auto
  have "(\<Sum>p\<in>dom (pools s). mem_used (pool_at ?t p)) = (\<Sum>p\<in>dom (pools s). mem_used (pool_at s p))"
    using new by (intro sum.cong) auto
  then have total: "total_mem_used ?t = (\<Sum>p\<in>dom (pools ?t). mem_used (pool_at ?t p))"
    unfolding dom using mem_invD(4,6) [OF assms(1)] new zero by simp
  have "pools ?t q \<noteq> None" if "(sz, Some q) \<in> set (info ?t)" for sz q
    using mem_invD(3) [OF assms(1), of sz q] that by auto
  with ok bufs total mem_invD(4) [OF assms(1)] show "mem_inv ?t"
    unfolding mem_inv_def dom by blast
  show "in_use ?t = in_use s"
    using none by (fastforce simp: in_use_alt owned_def split: if_splits)
qed

lemma add_slot_info: "add_slot sz p is = Some js \<Longrightarrow> set js \<subseteq> insert (sz, Some p) (set is)"
  by (induction "is" arbitrary: js rule: add_slot.induct) (auto split: if_splits)

lemma mem_inv_add:
  assumes "mem_inv s" and "pools s p = Some P"
  shows "mem_inv (snd (rtw_add_mem_pool bsize p s))" and "in_use (snd (rtw_add_mem_pool bsize p s)) = in_use s"
proof -
  have "in_use (s\<lparr>info := js\<rparr>) = in_use s" for js by (simp add: in_use_alt)
  then show "in_use (snd (rtw_add_mem_pool bsize p s)) = in_use s"
    by (simp add: rtw_add_mem_pool_def split: option.splits)
  have "mem_inv (s\<lparr>info := js\<rparr>)" if "add_slot bsize p (info s) = Some js" for js
  proof -
    have "pools s q \<noteq> None" if "(sz, Some q) \<in> set js" for sz q
      using that add_slot_info [OF \<open>add_slot bsize p (info s) = Some js\<close>] mem_invD(3) [OF assms(1), of sz q] assms(2)
      by auto
    with assms(1) show ?thesis by (simp add: mem_inv_def bufs_ok_def)
  qed
  with assms(1) show "mem_inv (snd (rtw_add_mem_pool bsize p s))"
    by (simp add: rtw_add_mem_pool_def split: option.splits)
qed

lemma mem_inv_creates: "mem_inv s \<Longrightarrow> mem_inv (s\<lparr>creates := creates s + 1\<rparr>) \<and> in_use (s\<lparr>creates := creates s + 1\<rparr>) = in_use s"
  by (auto simp: mem_inv_def bufs_ok_def in_use_alt less_Suc_eq)

lemma create_ok:
  assumes "mem_inv s" and "rtw_create_mem_pool e name mx mn bsize s = Inr (r, s')"
  shows "mem_inv s' \<and> in_use s' = in_use s"
proof (cases "kmalloc_ok e (creates s)")
  case True
  let ?P = "(set_max_min mx mn (new_pool name))\<lparr>obj_size := obj_size_of e bsize\<rparr>"
  let ?t = "s\<lparr>creates := creates s + 1, pools := (pools s)(creates s \<mapsto> ?P)\<rparr>"
  let ?f = "fill_rounds e (creates s) (nat mn) ?t"
  have s': "s' = snd (rtw_add_mem_pool bsize (creates s) ?f)"
    using assms(2) True
    by (auto simp: rtw_create_mem_pool_def rtw_mem_pool_set_max_min_def rtw_mem_pool_fill_list_def upd_pool_some Let_def
        split: if_splits)
  have "same_core ?P (new_pool name\<lparr>obj_size := obj_size ?P\<rparr>)"
    using same_core_set_max_min [of mx mn "new_pool name"] by (simp add: same_core_def)
  note t = mem_inv_new_pool [OF assms(1) this]
  have q: "quiet ?t ?f" by (rule quiet_fill_rounds [OF t(1)]) simp
  obtain P' where "pools ?f (creates s) = Some P'" using quiet_pool [OF q, of "creates s"] by auto
  from mem_inv_add [OF quietD(1) [OF q] this] quietD(2) [OF q] t(2) show ?thesis by (simp add: s')
next
  case False
  with assms mem_inv_creates [OF assms(1)] show ?thesis by (auto simp: rtw_create_mem_pool_def Let_def)
qed

lemma create_ex_ok:
  assumes "mem_inv s" and "rtw_create_mem_pool_ex e name mx mn bsize s = Inr s'"
  shows "mem_inv s' \<and> in_use s' = in_use s"
  using assms by (auto simp: rtw_create_mem_pool_ex_def quiet_refl dest: create_ok quiet_set_max_min quietD
      split: prod.splits if_splits option.splits sum.splits)

lemma find_by_name_pool:
  assumes "mem_inv s" and "rtw_find_mem_pool_by_name name s = Some p"
  obtains P where "pools s p = Some P"
proof -
  obtain i where i: "find (slot_named name s) (info s) = Some i" "snd i = Some p"
    using assms(2) by (auto simp: rtw_find_mem_pool_by_name_def split: option.splits)
  then have "i \<in> set (info s)" unfolding find_Some_iff by (metis nth_mem)
  with i(2) have "\<exists>sz. (sz, Some p) \<in> set (info s)" by (metis prod.collapse)
  then show thesis using mem_invD(3) [OF assms(1)] that by blast
qed

lemma quiet_remove_ex:
  assumes "mem_inv s"
  shows "quiet s (snd (rtw_remove_mem_pool_ex name s))"
proof (cases "rtw_find_mem_pool_by_name name s")
  case (Some p)
  then obtain P where "pools s p = Some P" by (rule find_by_name_pool [OF assms])
  from quiet_return_buffer [OF assms this] Some show ?thesis by (simp add: rtw_remove_mem_pool_ex_def)
qed (simp add: rtw_remove_mem_pool_ex_def quiet_refl assms)

section \<open>Sequences of operations\<close>

text \<open>
  The operations of the interface, as events.  A client frees only what it was given; a fault ends
  the sequence.
\<close>

datatype mem_event =
    MemCreate string int int int
  | MemAlloc u32 int
  | MemFree u32 nat
  | MemTimeout u32
  | MemWrite string "string option" nat
  | MemRemove string

fun mem_step :: "mem_env \<Rightarrow> mem_event \<Rightarrow> fault + mempools \<Rightarrow> fault + mempools" where
  "mem_step e ev (Inl f) = Inl f"
| "mem_step e (MemCreate name mx mn bsize) (Inr s) = rtw_create_mem_pool_ex e name mx mn bsize s"
| "mem_step e (MemAlloc jiffies bsize) (Inr s) = Inr (snd (rtw_mem_pool_alloc_skb e jiffies bsize s))"
| "mem_step e (MemFree jiffies b) (Inr s) =
     Inr (if is_held s b then snd (rtw_mem_pool_free_buf e jiffies (Some b) s) else s)"
| "mem_step e (MemTimeout jiffies) (Inr s) = Inr (rtw_mem_pool_timeout jiffies s)"
| "mem_step e (MemWrite junk ubuf len) (Inr s) = map_sum id snd (rtw_mempool_entry_write e junk ubuf len s)"
| "mem_step e (MemRemove name) (Inr s) = Inr (snd (rtw_remove_mem_pool_ex name s))"

definition run_ok :: "fault + mempools \<Rightarrow> bool" where
  "run_ok r \<longleftrightarrow> (case r of Inl f \<Rightarrow> True | Inr s \<Rightarrow> mem_inv s)"

lemma mem_step_ok:
  assumes "ksize_law e" and "mem_inv s"
  shows "run_ok (mem_step e ev (Inr s))"
proof (cases ev)
  case (MemAlloc jiffies bsize)
  then show ?thesis
    using alloc_skb_allocated [OF assms(2,1), of jiffies bsize "fst (rtw_mem_pool_alloc_skb e jiffies bsize s)"]
    by (simp add: run_ok_def allocated_def)
next
  case (MemTimeout jiffies)
  have "quiet s (rtw_mem_pool_timeout jiffies s)"
    unfolding rtw_mem_pool_timeout_def using mem_invD(3) [OF assms(2)] by (intro quiet_timeout [OF assms(2)]) blast
  with MemTimeout show ?thesis by (simp add: run_ok_def quietD)
next
  case (MemWrite junk ubuf len)
  then show ?thesis
    using quiet_entry_write [OF assms(2), of e junk ubuf len]
    by (cases "rtw_mempool_entry_write e junk ubuf len s") (auto simp: run_ok_def dest: quietD(1))
next
  case (MemCreate name mx mn bsize)
  then show ?thesis using create_ex_ok [OF assms(2)] by (auto simp: run_ok_def split: sum.splits)
qed (simp_all add: run_ok_def assms is_held_iff free_buf_ok quietD(1) [OF quiet_remove_ex])

interpretation mem_ops: event_system "\<lambda>(e, ev). mem_step e ev" "\<lambda>(e, ev). ksize_law e" run_ok
proof
  fix x :: "mem_env \<times> mem_event" and r
  assume "case x of (e, ev) \<Rightarrow> ksize_law e" "run_ok r"
  then show "run_ok ((case x of (e, ev) \<Rightarrow> mem_step e ev) r)"
    by (cases x; cases r) (auto simp: run_ok_def [of "Inr _"] mem_step_ok run_ok_def [of "Inl _"])
qed

definition no_pools :: mempools where
  "no_pools = \<lparr>info = [], pools = Map.empty, bufs = Map.empty, total_mem_used = 0, total_mem_thru = 0, allocs = 0, creates = 0\<rparr>"

lemma mem_inv_init: "mem_inv (rtw_mem_pool_init no_pools)"
  by (auto simp: mem_inv_def bufs_ok_def rtw_mem_pool_init_def no_pools_def)

lemma mem_run_inv:
  assumes "ksize_law e" and "fold (mem_step e) es (Inr (rtw_mem_pool_init no_pools)) = Inr s"
  shows "mem_inv s"
proof -
  have "run_ok (fold (\<lambda>(e, ev). mem_step e ev) (map (Pair e) es) (Inr (rtw_mem_pool_init no_pools)))"
    by (rule mem_ops.run_inv) (auto simp: list_all_iff assms(1) run_ok_def mem_inv_init)
  with assms(2) show ?thesis by (simp add: fold_map comp_def run_ok_def)
qed

lemma used_in_use:
  assumes "mem_inv s" and P: "pools s p = Some P"
  shows "used P = int (card {b \<in> in_use s. pool_of (bufs s) b = Some p})"
proof -
  note ok = mem_invD(1) [OF assms]
  have "{b \<in> in_use s. pool_of (bufs s) b = Some p} = owned (bufs s) p - set (free_list P)"
    using P by (auto simp: in_use_alt owned_def)
  moreover have "card (owned (bufs s) p - set (free_list P)) = card (owned (bufs s) p) - length (free_list P)"
    using ok by (simp add: pool_ok_def card_Diff_subset distinct_card)
  moreover have "length (free_list P) \<le> card (owned (bufs s) p)"
    using ok by (metis card_mono distinct_card pool_ok_def)
  ultimately show ?thesis using ok by (simp add: pool_ok_def)
qed

section \<open>Buffer allocator\<close>

text \<open>A client that allocates \<open>n\<close> times.\<close>

primrec many :: "('s \<Rightarrow> 'b option \<times> 's) \<Rightarrow> nat \<Rightarrow> 's \<Rightarrow> 'b list \<times> 's" where
  "many alloc 0 s = ([], s)"
| "many alloc (Suc n) s = (case alloc s of (None, s') \<Rightarrow> many alloc n s'
     | (Some b, s') \<Rightarrow> (let (bs, s'') = many alloc n s' in (b # bs, s'')))"

text \<open>
  What the pools promise their clients: an abstract allocator that hands out buffers that are not
  held and takes them back.
\<close>

locale allocator =
  fixes alloc :: "'s \<Rightarrow> 'b option \<times> 's"
    and free :: "'b \<Rightarrow> 's \<Rightarrow> 's"
    and held :: "'s \<Rightarrow> 'b set"
    and inv :: "'s \<Rightarrow> bool"
  assumes alloc_some: "inv s \<Longrightarrow> alloc s = (Some b, s') \<Longrightarrow> b \<notin> held s \<and> held s' = insert b (held s) \<and> inv s'"
    and alloc_none: "inv s \<Longrightarrow> alloc s = (None, s') \<Longrightarrow> held s' = held s \<and> inv s'"
    and free_held: "inv s \<Longrightarrow> b \<in> held s \<Longrightarrow> held (free b s) = held s - {b} \<and> inv (free b s)"
begin

lemma many_held:
  "inv s \<Longrightarrow> many alloc n s = (bs, s') \<Longrightarrow> distinct bs \<and> set bs \<inter> held s = {} \<and> held s' = held s \<union> set bs \<and> inv s'"
proof (induction n arbitrary: s bs s')
  case (Suc n)
  obtain r t where a: "alloc s = (r, t)" by fastforce
  show ?case
  proof (cases r)
    case None
    then have t: "held t = held s" "inv t" using alloc_none [OF Suc.prems(1)] a by blast+
    have "many alloc n t = (bs, s')" using Suc.prems(2) a None by simp
    from Suc.IH [OF t(2) this] show ?thesis unfolding t(1) .
  next
    case (Some b)
    obtain bs' where m: "many alloc n t = (bs', s')" "bs = b # bs'"
      using Suc.prems(2) a Some by (auto split: prod.splits)
    have t: "b \<notin> held s" "held t = insert b (held s)" "inv t" using alloc_some [OF Suc.prems(1)] a Some by auto
    from Suc.IH [OF t(3) m(1)] t(1,2) show ?thesis unfolding m(2) t(2) by simp
  qed
qed simp

lemma free_many:
  "inv s \<Longrightarrow> set bs \<subseteq> held s \<Longrightarrow> distinct bs \<Longrightarrow> held (fold free bs s) = held s - set bs \<and> inv (fold free bs s)"
proof (induction bs arbitrary: s)
  case (Cons b bs)
  have f: "held (free b s) = held s - {b}" "inv (free b s)" using free_held [OF Cons.prems(1), of b] Cons.prems(2) by simp_all
  have "set bs \<subseteq> held (free b s)" "distinct bs" using Cons.prems(2,3) f(1) by auto
  from Cons.IH [OF f(2) this] show ?case unfolding f(1) by auto
qed simp

lemma many_then_free:
  assumes "inv s" and "many alloc n s = (bs, s')"
  shows "held (fold free bs s') = held s"
proof -
  have m: "distinct bs" "set bs \<inter> held s = {}" "held s' = held s \<union> set bs" "inv s'"
    using many_held [OF assms] by blast+
  have "held (fold free bs s') = held s' - set bs"
    using free_many [OF m(4) _ m(1)] m(3) by blast
  with m(2,3) show ?thesis by blast
qed

end

text \<open>The pools implement it, for an environment that keeps the law of \<open>ksize\<close>.\<close>

definition mem_alloc :: "u32 \<Rightarrow> int \<Rightarrow> mem_env \<times> mempools \<Rightarrow> nat option \<times> (mem_env \<times> mempools)" where
  "mem_alloc jiffies bsize es = (case rtw_mem_pool_alloc_skb (fst es) jiffies bsize (snd es) of (r, s) \<Rightarrow> (r, (fst es, s)))"

definition mem_free :: "u32 \<Rightarrow> nat \<Rightarrow> mem_env \<times> mempools \<Rightarrow> mem_env \<times> mempools" where
  "mem_free jiffies b es = (fst es, snd (rtw_mem_pool_free_buf (fst es) jiffies (Some b) (snd es)))"

lemma mem_alloc_ok:
  assumes "ksize_law (fst s) \<and> mem_inv (snd s)" and "mem_alloc jiffies bsize s = (r, s')"
  shows "allocated r (snd s) (snd s')" and "ksize_law (fst s')"
proof -
  have a: "rtw_mem_pool_alloc_skb (fst s) jiffies bsize (snd s) = (r, snd s')" "fst s' = fst s"
    using assms(2) by (auto simp: mem_alloc_def split: prod.splits)
  show "allocated r (snd s) (snd s')" by (rule alloc_skb_allocated [OF _ _ a(1)]) (use assms(1) in simp_all)
  show "ksize_law (fst s')" using assms(1) a(2) by simp
qed

interpretation skbs: allocator "mem_alloc jiffies bsize" "mem_free jiffies" "\<lambda>es. in_use (snd es)"
    "\<lambda>es. ksize_law (fst es) \<and> mem_inv (snd es)"
  for jiffies bsize
proof (unfold_locales, goal_cases)
  case (1 s b s')
  then show ?case using mem_alloc_ok [OF 1] by (simp add: allocated_def)
next
  case (2 s s')
  then show ?case using mem_alloc_ok [OF 2] by (simp add: allocated_def)
next
  case (3 s b)
  then show ?case using free_buf_ok [of "snd s" b "fst s" jiffies] by (simp add: mem_free_def)
qed

section \<open>Filling and shrinking\<close>

lemma fill_rounds_nonempty:
  "pools s p = Some P \<Longrightarrow> free_list P \<noteq> [] \<Longrightarrow> \<exists>P'. pools (fill_rounds e p n s) p = Some P' \<and> free_list P' \<noteq> []"
proof (induction n arbitrary: s P)
  case (Suc n)
  show ?case
  proof (cases "fst (fill_one e p s)")
    case True
    then have f: "fill_one e p s = (True, filled p P s)"
      by (intro fill_one_filled [OF Suc.prems(1)]) (auto simp: fill_one_def Let_def split: if_splits)
    with Suc.IH [of "filled p P s"] show ?thesis by (simp add: filled_def)
  next
    case False
    then have "snd (fill_one e p s) = upd_pool p (\<lambda>P. P\<lparr>rmu := rmu P + 1\<rparr>) s \<or>
      snd (fill_one e p s) = upd_pool p (\<lambda>P. P\<lparr>buf_alloc_failed := buf_alloc_failed P + 1\<rparr>) (s\<lparr>allocs := allocs s + 1\<rparr>)"
      by (auto simp: fill_one_def Let_def split: if_splits)
    with False Suc.prems show ?thesis by (auto simp: upd_pool_some split: prod.splits bool.splits)
  qed
qed simp

text \<open>When a fill puts a buffer on an empty list.\<close>

definition can_fill :: "mem_env \<Rightarrow> rtw_mem_pool \<Rightarrow> mempools \<Rightarrow> bool" where
  "can_fill e P s \<longleftrightarrow> batch P > 0 \<and> \<not> (total_mem_thru s \<noteq> 0 \<and> total_mem_used s > total_mem_thru s) \<and> kmem_ok e (allocs s)"

lemma fill_list_nonempty:
  assumes P: "pools s p = Some P" and "free_list P = []"
  shows "\<exists>P'. pools (rtw_mem_pool_fill_list e p (batch P) s) p = Some P' \<and> (free_list P' \<noteq> [] \<longleftrightarrow> can_fill e P s)"
proof (cases "nat (batch P)")
  case (Suc n)
  show ?thesis
  proof (cases "can_fill e P s")
    case True
    then have f: "fill_one e p s = (True, filled p P s)"
      by (intro fill_one_filled [OF P]) (simp_all add: can_fill_def)
    have "pools (filled p P s) p = Some (pool_at (filled p P s) p)" "free_list (pool_at (filled p P s) p) \<noteq> []"
      by (simp_all add: filled_def)
    from fill_rounds_nonempty [OF this, of e n] f True show ?thesis
      by (simp add: rtw_mem_pool_fill_list_def Suc)
  next
    case False
    with Suc assms show ?thesis
      by (auto simp: rtw_mem_pool_fill_list_def can_fill_def fill_one_def upd_pool_some Let_def)
  qed
qed (use assms in \<open>auto simp: rtw_mem_pool_fill_list_def can_fill_def\<close>)

lemma return_buffer_count:
  "pools s p = Some P \<Longrightarrow> count P = int (length (free_list P)) \<Longrightarrow> 0 \<le> cnt \<Longrightarrow>
   \<exists>P'. pools (rtw_mem_pool_return_buffer p cnt s) p = Some P' \<and> used P' = used P \<and> count P' = count P - min cnt (count P)"
proof (induction p cnt s arbitrary: P rule: rtw_mem_pool_return_buffer.induct)
  case (1 p cnt s)
  show ?case
  proof (cases "cnt = 0 \<or> free_list P = []")
    case True
    with 1(2-4) show ?thesis
      by (subst rtw_mem_pool_return_buffer.simps) (auto simp: get_nil)
  next
    case False
    then obtain b bs where F: "free_list P = b # bs" by (cases "free_list P") auto
    obtain s' where g: "rtw_mem_pool_get_from_list p s = (Some b, s')" using get_cons [OF 1(2) F] by blast
    have r: "release_buf p b s' = shrunk p P b bs s" using get_release [OF 1(2) F] g by simp
    have "\<exists>P'. pools (rtw_mem_pool_return_buffer p (cnt - 1) (shrunk p P b bs s)) p = Some P' \<and> used P' = used P
        \<and> count P' = (count P - 1) - min (cnt - 1) (count P - 1)"
      using 1(1) [OF _ g [symmetric] refl, of "pool_at (shrunk p P b bs s) p"] False 1(3,4) F r
      by (simp add: shrunk_def)
    with False F 1(3) show ?thesis
      by (subst rtw_mem_pool_return_buffer.simps) (auto simp: g r)
  qed
qed

section \<open>Properties\<close>

text \<open>An environment in which every request succeeds, and a run with one pool of which one buffer is held.\<close>

definition demo_env :: mem_env where
  "demo_env = \<lparr>kmem_ok = \<lambda>_. True, kmalloc_ok = \<lambda>_. True, build_skb_ok = \<lambda>_. True,
     ksize = \<lambda>P b. obj_size P, obj_size_of = \<lambda>n. n + 96, simple_strtol = \<lambda>_. 0\<rparr>"

definition demo_ops :: "mem_event list" where
  "demo_ops = [MemCreate ''eth'' 4 2 64, MemAlloc 7 64]"

definition demo_run :: "fault + mempools" where
  "demo_run = fold (mem_step demo_env) demo_ops (Inr (rtw_mem_pool_init no_pools))"

definition busy_run :: "fault + mempools" where
  "busy_run = fold (mem_step demo_env) [MemCreate ''eth'' 40 12 64, MemCreate ''eth'' 40 2 64] (Inr (rtw_mem_pool_init no_pools))"

lemma demo_law: "ksize_law demo_env"
  by (simp add: ksize_law_def demo_env_def)

lemma demo_state: "\<exists>s P. demo_run = Inr s \<and> pools s 0 = Some P \<and> used P = 1 \<and> count P = 1 \<and> pmin P = 2 \<and> pmax P = 4 \<and> batch P = 8"
proof -
  have "(case demo_run of Inl _ \<Rightarrow> False | Inr s \<Rightarrow> (case pools s 0 of None \<Rightarrow> False
     | Some P \<Rightarrow> used P = 1 \<and> count P = 1 \<and> pmin P = 2 \<and> pmax P = 4 \<and> batch P = 8))"
    by code_simp
  then show ?thesis by (auto split: sum.splits option.splits)
qed

text \<open>
  C22: after any sequence of creating, allocating, freeing, timer ticks, configuration writes and
  removals, the counters of every pool agree with its buffers: \<open>used\<close> counts the buffers its
  clients hold, \<open>count\<close> its free list, \<open>mem_used\<close> the memory of both, and the global
  \<open>total_mem_used\<close> is the sum over the pools.
\<close>

theorem mempool_counters_agree:
  assumes "ksize_law e" and "fold (mem_step e) es (Inr (rtw_mem_pool_init no_pools)) = Inr s" and "pools s p = Some P"
  shows "used P = int (card {b \<in> in_use s. pool_of (bufs s) b = Some p}) \<and> count P = int (length (free_list P))
    \<and> distinct (free_list P) \<and> set (free_list P) \<inter> in_use s = {}
    \<and> mem_used P = obj_size P * (used P + count P) \<and> buf_alloced P - buf_returned P = used P + count P
    \<and> total_mem_used s = (\<Sum>q\<in>dom (pools s). mem_used (pool_at s q))"
proof -
  have inv: "mem_inv s" by (rule mem_run_inv [OF assms(1,2)])
  note ok = mem_invD(1) [OF inv assms(3)]
  have "set (free_list P) \<inter> in_use s = {}"
    using ok assms(3) by (auto simp: in_use_alt pool_ok_def owned_def)
  with ok used_in_use [OF inv assms(3)] mem_invD(6) [OF inv] show ?thesis by (simp add: pool_ok_def)
qed

theorem mempool_counters_agree_witness:
  "\<exists>s P. demo_run = Inr s \<and> pools s 0 = Some P \<and> used P = 1 \<and> mem_used P = obj_size P * 2
     \<and> card {b \<in> in_use s. pool_of (bufs s) b = Some 0} = 1"
proof -
  obtain s P where s: "demo_run = Inr s" "pools s 0 = Some P" "used P = 1" "count P = 1" using demo_state by blast
  with mempool_counters_agree [OF demo_law s(1) [unfolded demo_run_def] s(2)] show ?thesis by auto
qed

text \<open>
  C21: the pools implement an allocator.  Allocating any number of buffers gives distinct buffers,
  none of which was in use, and adds exactly those to the buffers in use; freeing them again
  restores the buffers in use.
\<close>

theorem mempool_no_double_handout:
  assumes "ksize_law e" and "fold (mem_step e) es (Inr (rtw_mem_pool_init no_pools)) = Inr s"
    and "many (mem_alloc jiffies bsize) n (e, s) = (bs, s')"
  shows "distinct bs \<and> set bs \<inter> in_use s = {} \<and> in_use (snd s') = in_use s \<union> set bs
    \<and> in_use (snd (fold (mem_free jiffies) bs s')) = in_use s"
proof -
  have inv: "ksize_law (fst (e, s)) \<and> mem_inv (snd (e, s))" using mem_run_inv [OF assms(1,2)] assms(1) by simp
  from skbs.many_held [OF inv assms(3)] skbs.many_then_free [OF inv assms(3)] show ?thesis by simp
qed

theorem mempool_no_double_handout_witness:
  "\<exists>s bs s'. demo_run = Inr s \<and> many (mem_alloc 7 64) 3 (demo_env, s) = (bs, s') \<and> length bs = 3 \<and> distinct bs
     \<and> set bs \<inter> in_use s = {} \<and> in_use (snd (fold (mem_free 7) bs s')) = in_use s"
proof -
  obtain s P where s: "demo_run = Inr s" "pools s 0 = Some P" using demo_state by blast
  obtain bs s' where m: "many (mem_alloc 7 64) 3 (demo_env, s) = (bs, s')"
    by (cases "many (mem_alloc 7 64) 3 (demo_env, s)")
  have "case demo_run of Inl _ \<Rightarrow> False | Inr s \<Rightarrow> length (fst (many (mem_alloc 7 64) 3 (demo_env, s))) = 3"
    by code_simp
  then have "length bs = 3" by (simp add: s(1) m)
  with mempool_no_double_handout [OF demo_law s(1) [unfolded demo_run_def] m] s m show ?thesis by blast
qed





text \<open>The limit admits one buffer more than the maximum.\<close>

lemma mempool_exceeds_max:
  assumes "pools s p = Some P" and "used P = pmax P" and "free_list P \<noteq> []"
  shows "used (pool_at (snd (rtw_mem_pool_alloc_buf e p s)) p) = pmax P + 1"
  using assms by (cases "free_list P") (auto simp: rtw_mem_pool_alloc_buf_def get_cons take_used_def upd_pool_some)

lemma mempool_zero_min_faults:
  "kmalloc_ok e (creates s) \<Longrightarrow> rtw_create_mem_pool e name mx 0 bsize s = Inl Oops"
  by (simp add: rtw_create_mem_pool_def rtw_mem_pool_set_max_min_def Let_def)

end
