(* ===== verification/Timer.thy ===== *)
theory Timer
  imports Bsp_Prelude
begin

text \<open>
  The system timers (\<open>arch/mips/rtl9607c/cevt-ext.c\<close>): one hardware block counts as clocksource,
  and each CPU owns a block that raises its tick.
\<close>

section \<open>State\<close>

definition TIMER_FREQ :: u32 where "TIMER_FREQ = 10000000"
definition RTK_CLOCK_DEFAULT_FACTOR :: u32 where "RTK_CLOCK_DEFAULT_FACTOR = 2"
definition CLOCKSOURCE_MASK28 :: u32 where "CLOCKSOURCE_MASK28 = 0x0FFFFFFF"
definition TICK_HZ :: u32 where "TICK_HZ = 100"

datatype tc_reg = Tc_data | Tc_value | Tc_ctrl | Tc_intr

text \<open>A register: the mapped base of its block and its name.\<close>

type_synonym timer_reg = "u32 \<times> tc_reg"

record rtk_cevt_device =
  base :: "u32 option"
  dev_irq :: nat
  irq_requested :: bool

text \<open>
  The globals, with what has been handed to the kernel: the frequency of the clocksource, the
  callers of \<open>sched_clock_register\<close>, the clock event devices registered, by CPU, and the CPU each
  interrupt is routed to.
\<close>

record timers = "timer_reg bus" +
  rtk_csrc_base :: "u32 option"
  rtk_timer_base_freq :: u32
  tick_div :: u32
  clk_freq :: u32
  hw_timer_used_idx :: nat
  rtk_cdev :: "nat \<Rightarrow> rtk_cevt_device"
  csrc_freq :: "u32 option"
  sched_clocks :: "u32 list"
  clockevents :: "nat list"
  affinity :: "nat \<Rightarrow> nat option"

text \<open>
  The hardware and the kernel: the clock of the node, the addresses and interrupts of the device
  tree, \<open>ioremap\<close>, the outcomes of registering the clocksource and of requesting an interrupt,
  the possible CPUs, the handler of the tick.
\<close>

record timer_env =
  tdev :: "timer_reg device"
  of_clk_rate :: "u32 option"
  of_get_address :: "nat \<Rightarrow> u32 option"
  ioremap :: "u32 \<Rightarrow> u32 option"
  irq_of_parse_and_map :: "nat \<Rightarrow> nat"
  clocksource_register_ok :: "u32 \<Rightarrow> bool"
  request_irq :: "nat \<Rightarrow> errno option"
  possible_cpus :: "nat list"
  event_handler :: "nat \<Rightarrow> timers \<Rightarrow> timers"

definition CONFIG_NR_CPUS :: nat where "CONFIG_NR_CPUS = 4"

type_synonym 'a timer_m = "(timers, 'a) state"

section \<open>Clocksource\<close>

definition rtk_timer_read :: "timer_env \<Rightarrow> u32 \<Rightarrow> u64 timer_m" where
  "rtk_timer_read e csrc = do { v \<leftarrow> reg_rd (tdev e) (csrc, Tc_value); State_Monad.return (ucast v) }"

definition rtk_read_sched_clock :: "timer_env \<Rightarrow> u32 \<Rightarrow> u64 timer_m" where
  "rtk_read_sched_clock e csrc = do { v \<leftarrow> reg_rd (tdev e) (csrc, Tc_value); State_Monad.return (ucast v) }"

definition rtk_clocksource_setup :: "timer_env \<Rightarrow> u32 \<Rightarrow> u32 \<Rightarrow> unit timer_m" where
  "rtk_clocksource_setup e b d = do {
     c \<leftarrow> gets rtk_csrc_base;
     if c \<noteq> None then State_Monad.return ()
     else if d < 2 \<or> d > 0xffff then State_Monad.return ()
     else do {
       modify (\<lambda>s. s\<lparr>rtk_csrc_base := Some b\<rparr>);
       reg_wr (b, Tc_ctrl) 0;
       reg_wr (b, Tc_intr) 0;
       reg_wr (b, Tc_data) CLOCKSOURCE_MASK28;
       reg_wr (b, Tc_ctrl) (BIT 28 OR BIT 24 OR d);
       f \<leftarrow> gets rtk_timer_base_freq;
       let freq = f div d;
       (if \<not> clocksource_register_ok e freq then modify (\<lambda>s. s\<lparr>rtk_csrc_base := None\<rparr>)
        else modify (\<lambda>s. s\<lparr>csrc_freq := Some freq\<rparr>));
       modify (\<lambda>s. s\<lparr>sched_clocks := freq # sched_clocks s\<rparr>) } }"

section \<open>Clock events\<close>

definition cevt_shutdown :: "timer_env \<Rightarrow> u32 \<Rightarrow> unit timer_m" where
  "cevt_shutdown e b = do {
     reg_wr (b, Tc_ctrl) 0;
     v \<leftarrow> reg_rd (tdev e) (b, Tc_intr);
     reg_wr (b, Tc_intr) (v AND NOT (BIT 20)) }"

definition rtk_cevt_shutdown :: "timer_env \<Rightarrow> u32 \<Rightarrow> int timer_m" where
  "rtk_cevt_shutdown e b = do { cevt_shutdown e b; State_Monad.return 0 }"

text \<open>\<open>DIV_ROUND_UP\<close> of the kernel.\<close>

definition DIV_ROUND_UP :: "u32 \<Rightarrow> u32 \<Rightarrow> u32" where
  "DIV_ROUND_UP n d = (n + d - 1) div d"

definition rtk_cevt_set_periodic :: "timer_env \<Rightarrow> u32 \<Rightarrow> int timer_m" where
  "rtk_cevt_set_periodic e b = do {
     cevt_shutdown e b;
     reg_wr (b, Tc_data) (DIV_ROUND_UP TIMER_FREQ TICK_HZ);
     reg_wr (b, Tc_intr) (BIT 20);
     d \<leftarrow> gets tick_div;
     reg_wr (b, Tc_ctrl) (BIT 28 OR BIT 24 OR d);
     State_Monad.return 0 }"

text \<open>The loop that waits for the counter to start, at most \<open>n\<close> more reads.\<close>

fun wait_value :: "timer_env \<Rightarrow> u32 \<Rightarrow> nat \<Rightarrow> unit timer_m" where
  "wait_value e b 0 = State_Monad.return ()"
| "wait_value e b (Suc n) = do {
     tmp \<leftarrow> reg_rd (tdev e) (b, Tc_value);
     if tmp = 0 then wait_value e b n else State_Monad.return () }"

text \<open>One round of \<open>rtk_cevt_next_event\<close>, from the label to the test; true when it starts over.\<close>

definition next_event_round :: "timer_env \<Rightarrow> u32 \<Rightarrow> u32 \<Rightarrow> bool timer_m" where
  "next_event_round e b event = do {
     cevt_shutdown e b;
     reg_wr (b, Tc_data) event;
     reg_wr (b, Tc_intr) (BIT 20);
     d \<leftarrow> gets tick_div;
     reg_wr (b, Tc_ctrl) (BIT 28 OR d);
     wait_value e b 10;
     v \<leftarrow> reg_rd (tdev e) (b, Tc_value);
     if v \<noteq> 0 then State_Monad.return False
     else do {
       i \<leftarrow> reg_rd (tdev e) (b, Tc_intr);
       State_Monad.return (i AND BIT 16 = 0) } }"

text \<open>The loop ends when the hardware starts; \<open>None\<close> when it never does.\<close>

partial_function (option) rtk_cevt_next_event :: "timer_env \<Rightarrow> u32 \<Rightarrow> u32 \<Rightarrow> timers \<Rightarrow> (int \<times> timers) option" where
  "rtk_cevt_next_event e b event s =
     (case run_state (next_event_round e b event) s of (again, s') \<Rightarrow>
        if again then rtk_cevt_next_event e b event s' else Some (0, s'))"

definition rtk_timer_interrupt :: "timer_env \<Rightarrow> nat \<Rightarrow> (fault + unit) timer_m" where
  "rtk_timer_interrupt e cpu = do {
     c \<leftarrow> gets (\<lambda>s. rtk_cdev s cpu);
     (case base c of None \<Rightarrow> State_Monad.return (Inl Oops)
      | Some b \<Rightarrow> do {
          v \<leftarrow> reg_rd (tdev e) (b, Tc_intr);
          reg_wr (b, Tc_intr) v;
          modify (event_handler e cpu);
          State_Monad.return (Inr ()) }) }"

section \<open>Bringing up a CPU\<close>

definition rtk_clockevent_setup :: "nat \<Rightarrow> unit timer_m" where
  "rtk_clockevent_setup this_cpu = modify (\<lambda>s. s\<lparr>clockevents := this_cpu # clockevents s\<rparr>)"

text \<open>The callback runs on the CPU that comes online.\<close>

definition rtk_timer_online_cpu :: "timer_env \<Rightarrow> nat \<Rightarrow> (errno + unit) timer_m" where
  "rtk_timer_online_cpu e cpu = do {
     c \<leftarrow> gets (\<lambda>s. rtk_cdev s cpu);
     if dev_irq c \<noteq> 0 \<and> \<not> irq_requested c then
       (case request_irq e (dev_irq c) of
          Some err \<Rightarrow> State_Monad.return (Inl err)
        | None \<Rightarrow> do {
            modify (\<lambda>s. s\<lparr>rtk_cdev := (rtk_cdev s)(cpu := c\<lparr>irq_requested := True\<rparr>)\<rparr>);
            modify (\<lambda>s. s\<lparr>affinity := (affinity s)(dev_irq c \<mapsto> cpu)\<rparr>);
            rtk_clockevent_setup cpu;
            State_Monad.return (Inr ()) })
     else do { rtk_clockevent_setup cpu; State_Monad.return (Inr ()) } }"

section \<open>Initialisation\<close>

text \<open>The loop over the possible CPUs; false when it returns early.\<close>

fun assign_blocks :: "timer_env \<Rightarrow> nat list \<Rightarrow> bool timer_m" where
  "assign_blocks e [] = State_Monad.return True"
| "assign_blocks e (cpu # cpus) =
     (if cpu \<ge> CONFIG_NR_CPUS then State_Monad.return True
      else do {
        idx \<leftarrow> gets hw_timer_used_idx;
        (case of_get_address e idx of
           None \<Rightarrow> State_Monad.return False
         | Some addr \<Rightarrow> do {
             let irq = irq_of_parse_and_map e idx;
             modify (\<lambda>s. s\<lparr>rtk_cdev := (rtk_cdev s)(cpu := (rtk_cdev s cpu)\<lparr>base := ioremap e addr\<rparr>)\<rparr>);
             (if ioremap e addr = None then State_Monad.return False
              else do {
                modify (\<lambda>s. s\<lparr>rtk_cdev := (rtk_cdev s)(cpu := (rtk_cdev s cpu)\<lparr>dev_irq := irq\<rparr>),
                             hw_timer_used_idx := hw_timer_used_idx s + 1\<rparr>);
                assign_blocks e cpus }) }) })"

text \<open>
  \<open>Inl\<close> is the panic without a clock.  On success the callback of the CPUs is installed; the result
  is false when the function returned before that.
\<close>

definition rtk_clocksource_of_init :: "timer_env \<Rightarrow> (fault + bool) timer_m" where
  "rtk_clocksource_of_init e = (case of_clk_rate e of
     None \<Rightarrow> State_Monad.return (Inl Oops)
   | Some rate \<Rightarrow> do {
       modify (\<lambda>s. s\<lparr>clk_freq := rate, tick_div := rate div TIMER_FREQ, rtk_timer_base_freq := rate\<rparr>);
       idx \<leftarrow> gets hw_timer_used_idx;
       (case of_get_address e idx of
          None \<Rightarrow> State_Monad.return (Inr False)
        | Some addr \<Rightarrow>
            (case ioremap e addr of
               None \<Rightarrow> State_Monad.return (Inr False)
             | Some mem \<Rightarrow> do {
                 rtk_clocksource_setup e mem RTK_CLOCK_DEFAULT_FACTOR;
                 modify (\<lambda>s. s\<lparr>hw_timer_used_idx := hw_timer_used_idx s + 1\<rparr>);
                 ok \<leftarrow> assign_blocks e (possible_cpus e);
                 State_Monad.return (Inr ok) })) })"

definition timers_boot :: timers where
  "timers_boot = \<lparr>io = [], rtk_csrc_base = None, rtk_timer_base_freq = 0, tick_div = 0, clk_freq = 0,
     hw_timer_used_idx = 0, rtk_cdev = (\<lambda>_. \<lparr>base = None, dev_irq = 0, irq_requested = False\<rparr>),
     csrc_freq = None, sched_clocks = [], clockevents = [], affinity = Map.empty\<rparr>"

section \<open>Starting a block\<close>

text \<open>
  How the hardware may misbehave.  \<open>fails\<close> counts the starts of a block since its counter was last
  seen running; the block \<open>starts_within k\<close> when after \<open>k\<close> such starts, or once it runs, a counter
  that reads zero has expired and its interrupt is pending.
\<close>

fun fails :: "timer_reg history \<Rightarrow> u32 \<Rightarrow> nat" where
  "fails [] b = 0"
| "fails (Wr r v # h) b = (if r = (b, Tc_ctrl) \<and> bit v 28 then Suc (fails h b) else fails h b)"
| "fails (Rd r v # h) b = (if r = (b, Tc_value) \<and> v \<noteq> 0 then 0 else fails h b)"

fun running :: "timer_reg history \<Rightarrow> u32 \<Rightarrow> bool" where
  "running [] b \<longleftrightarrow> False"
| "running (Wr r v # h) b \<longleftrightarrow> r \<noteq> (b, Tc_ctrl) \<and> running h b"
| "running (Rd r v # h) b \<longleftrightarrow> r = (b, Tc_value) \<and> v \<noteq> 0 \<or> running h b"

definition starts_within :: "timer_reg device \<Rightarrow> u32 \<Rightarrow> nat \<Rightarrow> bool" where
  "starts_within d b k \<longleftrightarrow> (\<forall>h. k \<le> fails h b \<or> running h b \<longrightarrow> d h (b, Tc_value) = 0 \<longrightarrow>
     d (Rd (b, Tc_value) 0 # h) (b, Tc_intr) AND BIT 16 \<noteq> 0)"

text \<open>What a round of the loop has programmed.\<close>

definition programmed :: "u32 \<Rightarrow> u32 \<Rightarrow> timers \<Rightarrow> bool" where
  "programmed b event s \<longleftrightarrow> last_write (io s) (b, Tc_data) = Some event \<and> last_write (io s) (b, Tc_intr) = Some (BIT 20)
     \<and> last_write (io s) (b, Tc_ctrl) = Some (BIT 28 OR tick_div s)"

lemma wait_value_run:
  obtains h where "run_state (wait_value e b n) s = ((), s\<lparr>io := h\<rparr>)" and "\<And>r. last_write h r = last_write (io s) r"
    and "running h b \<or> fails h b = fails (io s) b"
proof -
  have "\<exists>h. run_state (wait_value e b n) s = ((), s\<lparr>io := h\<rparr>) \<and> (\<forall>r. last_write h r = last_write (io s) r)
      \<and> (running h b \<or> fails h b = fails (io s) b)"
  proof (induction n arbitrary: s)
    case 0
    show ?case by (rule exI [of _ "io s"]) simp
  next
    case (Suc n)
    let ?v = "tdev e (io s) (b, Tc_value)"
    let ?s = "s\<lparr>io := Rd (b, Tc_value) ?v # io s\<rparr>"
    show ?case
    proof (cases "?v = 0")
      case True
      obtain h where h: "run_state (wait_value e b n) ?s = ((), ?s\<lparr>io := h\<rparr>)" "\<forall>r. last_write h r = last_write (io ?s) r"
        "running h b \<or> fails h b = fails (io ?s) b"
        using Suc.IH [of ?s] by blast
      show ?thesis by (rule exI [of _ h]) (use h True in simp)
    next
      case False
      show ?thesis by (rule exI [of _ "Rd (b, Tc_value) ?v # io s"]) (use False in simp)
    qed
  qed
  then show thesis using that by blast
qed

lemma round_programs:
  assumes "run_state (next_event_round e b event) s = (again, s')"
  shows "programmed b event s' \<and> tick_div s' = tick_div s"
    and "starts_within (tdev e) b k \<Longrightarrow> again \<Longrightarrow> fails (io s') b = Suc (fails (io s) b)"
    and "starts_within (tdev e) b k \<Longrightarrow> k \<le> Suc (fails (io s) b) \<Longrightarrow> \<not> again"
proof -
  define v where "v = tdev e (Wr (b, Tc_ctrl) 0 # io s) (b, Tc_intr)"
  define h1 where "h1 = Wr (b, Tc_ctrl) (BIT 28 OR tick_div s) # Wr (b, Tc_intr) (BIT 20) # Wr (b, Tc_data) event #
    Wr (b, Tc_intr) (v AND NOT (BIT 20)) # Rd (b, Tc_intr) v # Wr (b, Tc_ctrl) 0 # io s"
  have f1: "fails h1 b = Suc (fails (io s) b)" by (simp add: h1_def bit_simps)
  obtain h where w: "run_state (wait_value e b 10) (s\<lparr>io := h1\<rparr>) = ((), s\<lparr>io := h\<rparr>)"
    and l: "\<And>r. last_write h r = last_write h1 r" and f: "running h b \<or> fails h b = fails h1 b"
    using wait_value_run [of e b 10 "s\<lparr>io := h1\<rparr>"] by auto
  have run: "run_state (next_event_round e b event) s =
     (let x = tdev e h (b, Tc_value); h2 = Rd (b, Tc_value) x # h in
      if x \<noteq> 0 then (False, s\<lparr>io := h2\<rparr>)
      else (tdev e h2 (b, Tc_intr) AND BIT 16 = 0, s\<lparr>io := Rd (b, Tc_intr) (tdev e h2 (b, Tc_intr)) # h2\<rparr>))"
    using w by (simp add: next_event_round_def cevt_shutdown_def Let_def h1_def v_def)
  show "programmed b event s' \<and> tick_div s' = tick_div s"
    using assms l by (auto simp: run programmed_def Let_def h1_def split: if_splits)
  show "starts_within (tdev e) b k \<Longrightarrow> k \<le> Suc (fails (io s) b) \<Longrightarrow> \<not> again"
    using assms f f1 by (auto simp: run Let_def starts_within_def split: if_splits)
  show "starts_within (tdev e) b k \<Longrightarrow> again \<Longrightarrow> fails (io s') b = Suc (fails (io s) b)"
    using assms f f1 by (auto simp: run Let_def starts_within_def split: if_splits)
qed

lemma next_event_returns:
  assumes "starts_within (tdev e) b k"
  shows "\<exists>s'. rtk_cevt_next_event e b event s = Some (0, s') \<and> programmed b event s' \<and> tick_div s' = tick_div s"
proof (induction "k - fails (io s) b" arbitrary: s rule: less_induct)
  case less
  obtain again t where r: "run_state (next_event_round e b event) s = (again, t)" by fastforce
  note p = round_programs [OF r]
  show ?case
  proof (cases again)
    case True
    then have f: "fails (io t) b = Suc (fails (io s) b)" "\<not> k \<le> Suc (fails (io s) b)"
      using p(2,3) [OF assms] by blast+
    then have "k - fails (io t) b < k - fails (io s) b" by simp
    from less [OF this] True p(1) show ?thesis
      by (subst rtk_cevt_next_event.simps) (simp add: r)
  next
    case False
    with p(1) show ?thesis by (subst rtk_cevt_next_event.simps) (simp add: r)
  qed
qed

section \<open>Assigning blocks\<close>

text \<open>
  The device tree lists different blocks at different positions, and mapping keeps them apart.
\<close>

definition blocks_apart :: "timer_env \<Rightarrow> bool" where
  "blocks_apart e \<longleftrightarrow> (\<forall>i j a b m. of_get_address e i = Some a \<longrightarrow> of_get_address e j = Some b \<longrightarrow>
     ioremap e a = Some m \<longrightarrow> ioremap e b = Some m \<longrightarrow> i = j)"

definition block :: "timer_env \<Rightarrow> nat \<Rightarrow> u32 option" where
  "block e i = Option.bind (of_get_address e i) (ioremap e)"

lemma block_inj: "blocks_apart e \<Longrightarrow> block e i = Some m \<Longrightarrow> block e j = Some m \<Longrightarrow> i = j"
  by (auto simp: block_def blocks_apart_def bind_eq_Some_conv)

text \<open>The CPUs get consecutive blocks.\<close>

lemma assign_blocks_consecutive:
  assumes "run_state (assign_blocks e cpus) s = (True, s')" and "distinct cpus" and "\<forall>c\<in>set cpus. c < CONFIG_NR_CPUS"
  shows "hw_timer_used_idx s' = hw_timer_used_idx s + length cpus
    \<and> (\<forall>i<length cpus. block e (hw_timer_used_idx s + i) \<noteq> None \<and> base (rtk_cdev s' (cpus ! i)) = block e (hw_timer_used_idx s + i)
         \<and> dev_irq (rtk_cdev s' (cpus ! i)) = irq_of_parse_and_map e (hw_timer_used_idx s + i))
    \<and> (\<forall>c. c \<notin> set cpus \<longrightarrow> rtk_cdev s' c = rtk_cdev s c) \<and> rtk_csrc_base s' = rtk_csrc_base s"
  using assms
proof (induction cpus arbitrary: s)
  case (Cons c cpus)
  obtain a where a: "of_get_address e (hw_timer_used_idx s) = Some a"
    using Cons.prems by (cases "of_get_address e (hw_timer_used_idx s)") auto
  obtain m where m: "ioremap e a = Some m"
    using Cons.prems a by (cases "ioremap e a") (auto simp: Let_def)
  let ?t = "s\<lparr>rtk_cdev := (rtk_cdev s)(c := (rtk_cdev s c)\<lparr>base := Some m, dev_irq := irq_of_parse_and_map e (hw_timer_used_idx s)\<rparr>),
     hw_timer_used_idx := hw_timer_used_idx s + 1\<rparr>"
  have "run_state (assign_blocks e cpus) ?t = (True, s')"
    using Cons.prems a m by (simp add: Let_def)
  from Cons.IH [OF this] Cons.prems(2,3)
  have ih: "hw_timer_used_idx s' = hw_timer_used_idx ?t + length cpus"
    "\<forall>i<length cpus. block e (hw_timer_used_idx ?t + i) \<noteq> None \<and> base (rtk_cdev s' (cpus ! i)) = block e (hw_timer_used_idx ?t + i)
         \<and> dev_irq (rtk_cdev s' (cpus ! i)) = irq_of_parse_and_map e (hw_timer_used_idx ?t + i)"
    "\<forall>d. d \<notin> set cpus \<longrightarrow> rtk_cdev s' d = rtk_cdev ?t d" "rtk_csrc_base s' = rtk_csrc_base ?t"
    by auto
  have "base (rtk_cdev s' c) = Some m \<and> dev_irq (rtk_cdev s' c) = irq_of_parse_and_map e (hw_timer_used_idx s)"
    using ih(3) Cons.prems(2) by simp
  moreover have "block e (hw_timer_used_idx s) = Some m" using a m by (simp add: block_def)
  ultimately have "block e (hw_timer_used_idx s + i) \<noteq> None \<and> base (rtk_cdev s' ((c # cpus) ! i)) = block e (hw_timer_used_idx s + i)
      \<and> dev_irq (rtk_cdev s' ((c # cpus) ! i)) = irq_of_parse_and_map e (hw_timer_used_idx s + i)" if "i < length (c # cpus)" for i
    using that ih(2) by (cases i) auto
  with ih(1,3,4) show ?case by auto
qed auto

section \<open>Properties\<close>


text \<open>A block whose counter fails to start twice.\<close>

definition flawed :: "timer_reg device" where
  "flawed h r = (if r = (7, Tc_value) \<and> (2 < fails h 7 \<or> running h 7) then 99 else 0)"

definition demo_timer :: timer_env where
  "demo_timer = \<lparr>tdev = flawed, of_clk_rate = Some 200000000,
     of_get_address = \<lambda>i. if i < 5 then Some (0x18003200 + of_nat i * 0x10) else None,
     ioremap = \<lambda>a. Some (a OR 0xA0000000), irq_of_parse_and_map = \<lambda>i. i + 20, clocksource_register_ok = \<lambda>_. True,
     request_irq = \<lambda>_. None, possible_cpus = [0, 1, 2, 3], event_handler = \<lambda>_ s. s\<rparr>"

lemma flawed_starts: "starts_within flawed 7 3"
  by (simp add: starts_within_def flawed_def)


text \<open>
  C26: when initialisation completes, every CPU owns a timer block of its own, none of them the block
  of the clocksource, and its interrupt is the one the device tree lists at the position of its
  block.
\<close>

theorem timer_blocks_distinct:
  assumes "run_state (rtk_clocksource_of_init e) timers_boot = (Inr True, s)" and "blocks_apart e"
    and "distinct (possible_cpus e)" and "\<forall>c\<in>set (possible_cpus e). c < CONFIG_NR_CPUS"
  shows "(\<forall>c\<in>set (possible_cpus e). base (rtk_cdev s c) \<noteq> None \<and> base (rtk_cdev s c) \<noteq> block e 0
      \<and> (\<exists>i. 0 < i \<and> base (rtk_cdev s c) = block e i \<and> dev_irq (rtk_cdev s c) = irq_of_parse_and_map e i))
    \<and> inj_on (\<lambda>c. base (rtk_cdev s c)) (set (possible_cpus e))
    \<and> rtk_csrc_base s \<in> {None, block e 0}"
proof -
  let ?cs = "possible_cpus e"
  obtain rate a m where c: "of_clk_rate e = Some rate" "of_get_address e 0 = Some a" "ioremap e a = Some m"
    using assms(1) by (auto simp: rtk_clocksource_of_init_def timers_boot_def split: option.splits)
  obtain t where t: "run_state (assign_blocks e ?cs) t = (True, s)" "hw_timer_used_idx t = 1" "rtk_csrc_base t \<in> {None, Some m}"
    using assms(1) c
    by (auto simp: rtk_clocksource_of_init_def rtk_clocksource_setup_def timers_boot_def Let_def split: if_splits prod.splits)
  note b = assign_blocks_consecutive [OF t(1) assms(3,4), unfolded t(2)]
  have c0: "block e 0 = Some m" using c by (simp add: block_def)
  have at: "base (rtk_cdev s (?cs ! i)) \<noteq> None" "base (rtk_cdev s (?cs ! i)) = block e (1 + i)"
    "dev_irq (rtk_cdev s (?cs ! i)) = irq_of_parse_and_map e (1 + i)" if "i < length ?cs" for i
    using b that by auto
  have "base (rtk_cdev s c) \<noteq> None \<and> base (rtk_cdev s c) \<noteq> block e 0
      \<and> (\<exists>i. 0 < i \<and> base (rtk_cdev s c) = block e i \<and> dev_irq (rtk_cdev s c) = irq_of_parse_and_map e i)"
    if mem: "c \<in> set ?cs" for c
  proof -
    obtain i where i: "i < length ?cs" "?cs ! i = c" using mem by (auto simp: in_set_conv_nth)
    have "block e (1 + i) \<noteq> Some m" using block_inj [OF assms(2), of "1 + i" m 0] c0 by auto
    with at [OF i(1)] i(2) c0 show ?thesis by (intro conjI exI [of _ "1 + i"]) auto
  qed
  moreover have "inj_on (\<lambda>c. base (rtk_cdev s c)) (set ?cs)"
  proof (rule inj_onI)
    fix c d
    assume "c \<in> set ?cs" "d \<in> set ?cs" and eq: "base (rtk_cdev s c) = base (rtk_cdev s d)"
    then obtain i j where i: "i < length ?cs" "?cs ! i = c" and j: "j < length ?cs" "?cs ! j = d"
      by (auto simp: in_set_conv_nth)
    then obtain m' where "block e (1 + i) = Some m'" "block e (1 + j) = Some m'"
      using at [OF i(1)] at [OF j(1)] eq by (metis not_None_eq)
    then have "i = j" using block_inj [OF assms(2)] by fastforce
    with i j show "c = d" by simp
  qed
  moreover have "rtk_csrc_base s \<in> {None, block e 0}" using b t(3) c0 by auto
  ultimately show ?thesis by blast
qed

lemma demo_timer_init: "fst (run_state (rtk_clocksource_of_init demo_timer) timers_boot) = Inr True"
  by code_simp

lemma demo_addresses:
  "\<forall>i\<in>set [0..<5]. \<forall>j\<in>set [0..<5]. (0x18003200 + of_nat i * 0x10 :: u32) OR 0xA0000000 = (0x18003200 + of_nat j * 0x10) OR 0xA0000000 \<longrightarrow> i = j"
  by code_simp

lemma demo_timer_apart: "blocks_apart demo_timer"
proof -
  have "i = j" if "(if i < 5 then Some (0x18003200 + of_nat i * 0x10 :: u32) else None) = Some a"
    "(if j < 5 then Some (0x18003200 + of_nat j * 0x10 :: u32) else None) = Some b" "a OR 0xA0000000 = b OR 0xA0000000" for i j a b
  proof -
    have "i < 5" "j < 5" "a = 0x18003200 + of_nat i * 0x10" "b = 0x18003200 + of_nat j * 0x10"
      using that(1,2) by (metis option.distinct(1) option.inject)+
    with that(3) demo_addresses show ?thesis by (metis atLeastLessThan_iff set_upt zero_le)
  qed
  then show ?thesis unfolding blocks_apart_def demo_timer_def timer_env.simps by (metis option.inject)
qed

theorem timer_blocks_distinct_witness:
  "\<exists>s. run_state (rtk_clocksource_of_init demo_timer) timers_boot = (Inr True, s)
     \<and> inj_on (\<lambda>c. base (rtk_cdev s c)) {0, 1, 2, 3} \<and> base (rtk_cdev s 2) \<noteq> None"
proof -
  obtain s where s: "run_state (rtk_clocksource_of_init demo_timer) timers_boot = (Inr True, s)"
    using demo_timer_init by (metis prod.collapse)
  have c: "possible_cpus demo_timer = [0, 1, 2, 3]" by (simp add: demo_timer_def)
  have "distinct (possible_cpus demo_timer)" "\<forall>c\<in>set (possible_cpus demo_timer). c < CONFIG_NR_CPUS"
    by (simp_all add: c CONFIG_NR_CPUS_def)
  from timer_blocks_distinct [OF s demo_timer_apart this] s show ?thesis unfolding c by auto
qed

text \<open>A clocksource that could not be registered still leaves its scheduler clock behind.\<close>

lemma sched_clock_without_base:
  assumes "\<not> clocksource_register_ok e (rtk_timer_base_freq s div 2)" and "rtk_csrc_base s = None"
  shows "rtk_csrc_base (snd (run_state (rtk_clocksource_setup e b 2) s)) = None
    \<and> sched_clocks (snd (run_state (rtk_clocksource_setup e b 2) s)) \<noteq> []"
  using assms by (simp add: rtk_clocksource_setup_def Let_def)

end
