(* ===== verification/Gpio.thy ===== *)
theory Gpio
  imports Bsp_Prelude
begin

text \<open>
  The GPIO driver (\<open>drivers/gpio/gpio-rtk-soc.c\<close>), in the configuration that goes through the GPIO
  layer of the switch SDK: the pin operations, the interrupt controller of a bank, and the
  registration of the banks.
\<close>

section \<open>State\<close>

definition RTK_GPIO_DIR :: u32 where "RTK_GPIO_DIR = 0x00"
definition RTK_GPIO_DAT :: u32 where "RTK_GPIO_DAT = 0x04"
definition RTK_GPIO_ISR :: u32 where "RTK_GPIO_ISR = 0x08"
definition RTK_GPIO_CFG_OUT :: u32 where "RTK_GPIO_CFG_OUT = 1"
definition RTK_GPIO_CFG_IN :: u32 where "RTK_GPIO_CFG_IN = 0"
definition GPIO_MAX_BANK_NUM :: nat where "GPIO_MAX_BANK_NUM = 3"
definition GPIO_BANK_SIZE :: nat where "GPIO_BANK_SIZE = 32"
definition GPIO_BANK_REG_OFFSET :: u32 where "GPIO_BANK_REG_OFFSET = 0x1C"
definition GPIO_ENABLE_REG_OFFSET :: u32 where "GPIO_ENABLE_REG_OFFSET = 0x4"

record rtk_gpio_bank =
  chip_base :: nat
  ngpio :: nat
  breg :: u32
  benable_reg :: u32
  birq :: nat
  imr :: u32
  trig_type :: "nat \<Rightarrow> u32"
  domain :: bool

text \<open>The calls of the SDK, and what they answer: an error code and, for a getter, the value stored.\<close>

datatype hal_call =
    Gpio_state_set nat u32
  | Gpio_mode_set nat u32
  | Gpio_mode_get nat
  | Gpio_databit_set nat u32
  | Gpio_databit_get nat
  | Gpio_intr_set nat u32

text \<open>The banks that were registered, by index; all chips known to the kernel; the SDK calls made, latest first.\<close>

record gpio = "u32 bus" +
  hal :: "hal_call list"
  info_bank :: "nat \<Rightarrow> rtk_gpio_bank option"
  chips :: "rtk_gpio_bank list"
  kallocs :: nat

record gpio_node =
  n_reg :: "nat option"
  n_ngpios :: "nat option"
  n_interrupt_controller :: bool
  n_irq :: nat

text \<open>
  The hardware, the SDK with its constants, and the kernel: memory, chip registration, interrupt
  lines and domains, mapped resources, and the flow handler behind \<open>generic_handle_irq\<close>.  \<open>junk\<close> is
  the value of a variable a failing getter did not set.
\<close>

record gpio_env =
  gdev :: "u32 device"
  sdk :: "hal_call list \<Rightarrow> hal_call \<Rightarrow> int \<times> u32 option"
  junk :: u32
  GPIO_INPUT :: u32
  GPIO_OUTPUT :: u32
  GPIO_INTR_DISABLE :: u32
  kzalloc_ok :: "nat \<Rightarrow> bool"
  gpiochip_add :: "rtk_gpio_bank \<Rightarrow> errno option"
  devm_request_irq :: "nat \<Rightarrow> errno option"
  domain_ok :: "nat \<Rightarrow> bool"
  chips_ok :: "nat \<Rightarrow> bool"
  devm_ioremap_resource :: "nat \<Rightarrow> u32"
  generic_handle_irq :: "nat \<Rightarrow> nat \<Rightarrow> gpio \<Rightarrow> gpio"

type_synonym 'a gpio_m = "(gpio, 'a) state"

definition hal_do :: "gpio_env \<Rightarrow> hal_call \<Rightarrow> (int \<times> u32 option) gpio_m" where
  "hal_do e c = do {
     h \<leftarrow> gets hal;
     modify (\<lambda>s. s\<lparr>hal := c # hal s\<rparr>);
     State_Monad.return (sdk e h c) }"

definition upd_bank :: "nat \<Rightarrow> (rtk_gpio_bank \<Rightarrow> rtk_gpio_bank) \<Rightarrow> unit gpio_m" where
  "upd_bank i f = modify (\<lambda>s. s\<lparr>info_bank := (info_bank s)(i := map_option f (info_bank s i))\<rparr>)"

abbreviation bank_at :: "gpio \<Rightarrow> nat \<Rightarrow> rtk_gpio_bank" where
  "bank_at s i \<equiv> the (info_bank s i)"

section \<open>Registers\<close>

definition rtk_gpio_write :: "rtk_gpio_bank \<Rightarrow> u32 \<Rightarrow> u32 \<Rightarrow> unit gpio_m" where
  "rtk_gpio_write B offs data = reg_wr (breg B + offs) data"

definition rtk_gpio_read :: "gpio_env \<Rightarrow> rtk_gpio_bank \<Rightarrow> u32 \<Rightarrow> u32 gpio_m" where
  "rtk_gpio_read e B offs = reg_rd (gdev e) (breg B + offs)"

definition rtk_gpio_clear_bit :: "gpio_env \<Rightarrow> rtk_gpio_bank \<Rightarrow> u32 \<Rightarrow> nat \<Rightarrow> unit gpio_m" where
  "rtk_gpio_clear_bit e B offs k = do { v \<leftarrow> rtk_gpio_read e B offs; rtk_gpio_write B offs (v AND NOT (BIT k)) }"

definition rtk_gpio_set_bit :: "gpio_env \<Rightarrow> rtk_gpio_bank \<Rightarrow> u32 \<Rightarrow> nat \<Rightarrow> unit gpio_m" where
  "rtk_gpio_set_bit e B offs k = do { v \<leftarrow> rtk_gpio_read e B offs; rtk_gpio_write B offs (v OR BIT k) }"

definition rtk_gpio_get_bit :: "gpio_env \<Rightarrow> rtk_gpio_bank \<Rightarrow> u32 \<Rightarrow> nat \<Rightarrow> u32 gpio_m" where
  "rtk_gpio_get_bit e B offs k = do {
     v \<leftarrow> rtk_gpio_read e B offs;
     State_Monad.return (if v AND BIT k \<noteq> 0 then 1 else 0) }"

section \<open>Pins\<close>

text \<open>The operations of a chip; errors of the SDK are only reported.\<close>

definition rtk_gpio_request :: "gpio_env \<Rightarrow> nat \<Rightarrow> nat \<Rightarrow> int gpio_m" where
  "rtk_gpio_request e i offset = do {
     B \<leftarrow> gets (\<lambda>s. bank_at s i);
     _ \<leftarrow> hal_do e (Gpio_state_set (chip_base B + offset) 1);
     State_Monad.return 0 }"

definition rtk_gpio_free :: "gpio_env \<Rightarrow> nat \<Rightarrow> nat \<Rightarrow> unit gpio_m" where
  "rtk_gpio_free e i offset = do {
     B \<leftarrow> gets (\<lambda>s. bank_at s i);
     _ \<leftarrow> hal_do e (Gpio_state_set (chip_base B + offset) 0);
     State_Monad.return () }"

definition GPIO_LINE_DIRECTION_IN :: int where "GPIO_LINE_DIRECTION_IN = 1"
definition GPIO_LINE_DIRECTION_OUT :: int where "GPIO_LINE_DIRECTION_OUT = 0"

definition rtk_gpio_get_direction :: "gpio_env \<Rightarrow> nat \<Rightarrow> nat \<Rightarrow> int gpio_m" where
  "rtk_gpio_get_direction e i offset = do {
     B \<leftarrow> gets (\<lambda>s. bank_at s i);
     (ret, out) \<leftarrow> hal_do e (Gpio_mode_get (chip_base B + offset));
     let val = (case out of Some v \<Rightarrow> v | None \<Rightarrow> junk e);
     State_Monad.return (if val = RTK_GPIO_CFG_IN then GPIO_LINE_DIRECTION_IN else GPIO_LINE_DIRECTION_OUT) }"

definition rtk_gpio_direction_input :: "gpio_env \<Rightarrow> nat \<Rightarrow> nat \<Rightarrow> int gpio_m" where
  "rtk_gpio_direction_input e i offset = do {
     B \<leftarrow> gets (\<lambda>s. bank_at s i);
     _ \<leftarrow> hal_do e (Gpio_state_set (chip_base B + offset) 1);
     _ \<leftarrow> hal_do e (Gpio_mode_set (chip_base B + offset) (GPIO_INPUT e));
     State_Monad.return 0 }"

definition rtk_gpio_direction_output :: "gpio_env \<Rightarrow> nat \<Rightarrow> nat \<Rightarrow> u32 \<Rightarrow> int gpio_m" where
  "rtk_gpio_direction_output e i offset output_value = do {
     B \<leftarrow> gets (\<lambda>s. bank_at s i);
     _ \<leftarrow> hal_do e (Gpio_state_set (chip_base B + offset) 1);
     _ \<leftarrow> hal_do e (Gpio_mode_set (chip_base B + offset) (GPIO_OUTPUT e));
     _ \<leftarrow> hal_do e (Gpio_databit_set (chip_base B + offset) output_value);
     State_Monad.return 0 }"

definition rtk_gpio_get :: "gpio_env \<Rightarrow> nat \<Rightarrow> nat \<Rightarrow> u32 gpio_m" where
  "rtk_gpio_get e i offset = do {
     B \<leftarrow> gets (\<lambda>s. bank_at s i);
     (ret, out) \<leftarrow> hal_do e (Gpio_databit_get (chip_base B + offset));
     State_Monad.return (case out of Some v \<Rightarrow> v | None \<Rightarrow> junk e) }"

definition rtk_gpio_set :: "gpio_env \<Rightarrow> nat \<Rightarrow> nat \<Rightarrow> u32 \<Rightarrow> int gpio_m" where
  "rtk_gpio_set e i offset output_value = do {
     d \<leftarrow> rtk_gpio_get_direction e i offset;
     if d = GPIO_LINE_DIRECTION_IN then State_Monad.return 0
     else do {
       B \<leftarrow> gets (\<lambda>s. bank_at s i);
       _ \<leftarrow> hal_do e (Gpio_databit_set (chip_base B + offset) output_value);
       State_Monad.return 0 } }"

section \<open>Interrupts\<close>

datatype irq_type =
    IRQ_TYPE_NONE
  | IRQ_TYPE_EDGE_FALLING
  | IRQ_TYPE_EDGE_RISING
  | IRQ_TYPE_EDGE_BOTH
  | IRQ_TYPE_OTHER nat

definition trig_of :: "irq_type \<Rightarrow> u32 option" where
  "trig_of type = (case type of
     IRQ_TYPE_NONE \<Rightarrow> Some 0
   | IRQ_TYPE_EDGE_FALLING \<Rightarrow> Some 1
   | IRQ_TYPE_EDGE_RISING \<Rightarrow> Some 2
   | IRQ_TYPE_EDGE_BOTH \<Rightarrow> Some 3
   | IRQ_TYPE_OTHER _ \<Rightarrow> None)"

definition rtk_gpio_set_irq_type :: "nat \<Rightarrow> nat \<Rightarrow> irq_type \<Rightarrow> (errno + unit) gpio_m" where
  "rtk_gpio_set_irq_type i hwirq type = (case trig_of type of
     None \<Rightarrow> State_Monad.return (Inl EINVAL)
   | Some t \<Rightarrow> do {
       upd_bank i (\<lambda>B. B\<lparr>trig_type := (trig_type B)(hwirq := t)\<rparr>);
       State_Monad.return (Inr ()) })"

definition rtk_gpio_ack_irq :: "nat \<Rightarrow> nat \<Rightarrow> unit gpio_m" where
  "rtk_gpio_ack_irq i hwirq = do {
     B \<leftarrow> gets (\<lambda>s. bank_at s i);
     rtk_gpio_write B RTK_GPIO_ISR (push_bit hwirq 1) }"

definition rtk_gpio_mask_irq :: "gpio_env \<Rightarrow> nat \<Rightarrow> nat \<Rightarrow> unit gpio_m" where
  "rtk_gpio_mask_irq e i hwirq = do {
     B \<leftarrow> gets (\<lambda>s. bank_at s i);
     _ \<leftarrow> hal_do e (Gpio_intr_set (chip_base B + hwirq) (GPIO_INTR_DISABLE e));
     upd_bank i (\<lambda>B. B\<lparr>imr := imr B AND NOT (push_bit hwirq 1)\<rparr>) }"

definition rtk_gpio_unmask_irq :: "gpio_env \<Rightarrow> nat \<Rightarrow> nat \<Rightarrow> unit gpio_m" where
  "rtk_gpio_unmask_irq e i hwirq = do {
     B \<leftarrow> gets (\<lambda>s. bank_at s i);
     _ \<leftarrow> hal_do e (Gpio_intr_set (chip_base B + hwirq) (trig_type B hwirq));
     upd_bank i (\<lambda>B. B\<lparr>imr := imr B OR push_bit hwirq 1\<rparr>) }"

definition rtk_gpio_startup_irq :: "gpio_env \<Rightarrow> nat \<Rightarrow> nat \<Rightarrow> int gpio_m" where
  "rtk_gpio_startup_irq e i hwirq = do {
     _ \<leftarrow> rtk_gpio_direction_input e i hwirq;
     rtk_gpio_unmask_irq e i hwirq;
     State_Monad.return 0 }"

text \<open>\<open>__ffs\<close>: the number of the lowest set bit.\<close>

definition ffs :: "u32 \<Rightarrow> nat" where
  "ffs w = hd (filter (bit w) [0..<32])"

definition weight :: "u32 \<Rightarrow> nat" where
  "weight w = length (filter (bit w) [0..<32])"

lemma filter_bit_nonempty: "w \<noteq> (0 :: u32) \<Longrightarrow> filter (bit w) [0..<32] \<noteq> []"
proof -
  assume "w \<noteq> 0"
  then obtain n where "bit w n" using bit_word_eqI [of w 0] by auto
  moreover from this have "n < 32" using bit_imp_le_length by fastforce
  ultimately show ?thesis by (auto simp: filter_empty_conv)
qed

lemma filter_bit_clear:
  assumes "filter (bit (w :: u32)) [0..<32] = n # ns"
  shows "filter (bit (w AND NOT (BIT n))) [0..<32] = ns"
proof -
  have d: "n \<notin> set ns" using distinct_filter [of "[0..<32]" "bit w"] assms by simp
  have "filter (bit (w AND NOT (BIT n))) [0..<32] = filter (\<lambda>k. k \<noteq> n) (filter (bit w) [0..<32])"
    unfolding filter_filter by (rule filter_cong) (auto simp: bit_simps)
  also have "\<dots> = ns" unfolding assms using d by (auto simp: filter_id_conv)
  finally show ?thesis .
qed

text \<open>The loop of the handler: a call for each pending line.\<close>

function irq_loop :: "gpio_env \<Rightarrow> nat \<Rightarrow> u32 \<Rightarrow> unit gpio_m" where
  "irq_loop e i isr =
     (if isr = 0 then State_Monad.return ()
      else do {
        let n = ffs isr;
        modify (generic_handle_irq e i n);
        irq_loop e i (isr AND NOT (BIT n)) })"
  by pat_completeness auto

termination irq_loop
proof (relation "measure (\<lambda>(e, i, isr). weight isr)", simp, goal_cases)
  case (1 e i isr n x)
  then have "filter (bit isr) [0..<32] \<noteq> []" by (intro filter_bit_nonempty)
  then obtain ns where "filter (bit isr) [0..<32] = n # ns"
    using 1(2) by (cases "filter (bit isr) [0..<32]") (auto simp: ffs_def)
  with filter_bit_clear [OF this] show ?case by (simp add: weight_def)
qed

declare irq_loop.simps [simp del]

definition rtk_gpio_irq_handler :: "gpio_env \<Rightarrow> nat \<Rightarrow> unit gpio_m" where
  "rtk_gpio_irq_handler e i = do {
     B \<leftarrow> gets (\<lambda>s. bank_at s i);
     isr \<leftarrow> rtk_gpio_read e B RTK_GPIO_ISR;
     irq_loop e i (isr AND imr B) }"

section \<open>Registration\<close>

text \<open>The interrupt side of a bank.\<close>

definition setup_bank_irq :: "gpio_env \<Rightarrow> rtk_gpio_bank \<Rightarrow> errno + rtk_gpio_bank" where
  "setup_bank_irq e B = (case devm_request_irq e (birq B) of
     Some err \<Rightarrow> Inl err
   | None \<Rightarrow>
       if \<not> domain_ok e (ngpio B) then Inl ENOMEM
       else if \<not> chips_ok e (ngpio B) then Inl ENOMEM
       else Inr (B\<lparr>domain := True\<rparr>))"

text \<open>A bank before it is added: register addresses, numbering and size.\<close>

definition new_bank :: "u32 \<Rightarrow> u32 \<Rightarrow> nat \<Rightarrow> gpio_node \<Rightarrow> rtk_gpio_bank" where
  "new_bank preg penable index np = \<lparr>
     chip_base = index * GPIO_BANK_SIZE,
     ngpio = (case n_ngpios np of
        None \<Rightarrow> GPIO_BANK_SIZE
      | Some n \<Rightarrow> if n > GPIO_BANK_SIZE then GPIO_BANK_SIZE else n),
     breg = (if index = 2 then preg + of_nat index * GPIO_BANK_REG_OFFSET + 0x8 else preg + of_nat index * GPIO_BANK_REG_OFFSET),
     benable_reg = penable + of_nat index * GPIO_ENABLE_REG_OFFSET,
     birq = 0, imr = 0, trig_type = (\<lambda>_. 0), domain = False\<rparr>"

definition kzalloc :: "gpio_env \<Rightarrow> bool gpio_m" where
  "kzalloc e = do {
     n \<leftarrow> gets kallocs;
     modify (\<lambda>s. s\<lparr>kallocs := kallocs s + 1\<rparr>);
     State_Monad.return (kzalloc_ok e n) }"

definition rtk_gpio_bank_probe :: "gpio_env \<Rightarrow> u32 \<Rightarrow> u32 \<Rightarrow> nat \<Rightarrow> gpio_node \<Rightarrow> (errno + rtk_gpio_bank) gpio_m" where
  "rtk_gpio_bank_probe e preg penable index np = do {
     ok \<leftarrow> kzalloc e;
     if \<not> ok then State_Monad.return (Inl ENOMEM)
     else
       let B = new_bank preg penable index np in
       (case gpiochip_add e B of
          Some err \<Rightarrow> State_Monad.return (Inl err)
        | None \<Rightarrow> do {
            modify (\<lambda>s. s\<lparr>chips := B # chips s\<rparr>);
            if n_interrupt_controller np then
              (if n_irq np = 0 then State_Monad.return (Inr B)
               else State_Monad.return (setup_bank_irq e (B\<lparr>birq := n_irq np\<rparr>)))
            else State_Monad.return (Inr B) }) }"

text \<open>The loop over the child nodes.\<close>

fun register_nodes :: "gpio_env \<Rightarrow> u32 \<Rightarrow> u32 \<Rightarrow> gpio_node list \<Rightarrow> unit gpio_m" where
  "register_nodes e preg penable [] = State_Monad.return ()"
| "register_nodes e preg penable (np # nps) =
     (case n_reg np of
        None \<Rightarrow> register_nodes e preg penable nps
      | Some addr \<Rightarrow>
          if addr \<ge> GPIO_MAX_BANK_NUM then register_nodes e preg penable nps
          else do {
            ok \<leftarrow> kzalloc e;
            if \<not> ok then State_Monad.return ()
            else do {
              ret \<leftarrow> rtk_gpio_bank_probe e preg penable addr np;
              (case ret of
                 Inl err \<Rightarrow> State_Monad.return ()
               | Inr B \<Rightarrow> modify (\<lambda>s. s\<lparr>info_bank := (info_bank s)(addr \<mapsto> B)\<rparr>));
              register_nodes e preg penable nps } })"

definition rtk_gpio_register_banks :: "gpio_env \<Rightarrow> u32 \<Rightarrow> u32 \<Rightarrow> gpio_node list \<Rightarrow> unit gpio_m" where
  "rtk_gpio_register_banks e preg penable nps = do {
     modify (\<lambda>s. s\<lparr>info_bank := Map.empty\<rparr>);
     register_nodes e preg penable nps }"

text \<open>\<open>None\<close> for the nodes when the device is not in the device tree.\<close>

definition rtk_gpio_probe :: "gpio_env \<Rightarrow> gpio_node list option \<Rightarrow> (errno + unit) gpio_m" where
  "rtk_gpio_probe e nodes = (case nodes of
     None \<Rightarrow> State_Monad.return (Inl ENOENT)
   | Some nps \<Rightarrow> do {
       ok \<leftarrow> kzalloc e;
       if \<not> ok then State_Monad.return (Inl ENOMEM)
       else if devm_ioremap_resource e 0 = 0 then State_Monad.return (Inl ENOMEM)
       else if devm_ioremap_resource e 1 = 0 then State_Monad.return (Inl ENOMEM)
       else do {
         rtk_gpio_register_banks e (devm_ioremap_resource e 1) (devm_ioremap_resource e 0) nps;
         State_Monad.return (Inr ()) } })"

definition rtk_gpio_remove :: "unit gpio_m" where
  "rtk_gpio_remove = modify (\<lambda>s. s\<lparr>chips := filter (\<lambda>c.
     \<not> list_ex (\<lambda>i. info_bank s i \<noteq> None \<and> chip_base (bank_at s i) = chip_base c) [0..<GPIO_MAX_BANK_NUM]) (chips s)\<rparr>)"

end
