(* ===== verification/Gpio_Props.thy ===== *)
theory Gpio_Props
  imports Gpio
begin

text \<open>
  Properties of the GPIO driver: the interrupt handler serves each pending line once, the lines of a
  bank are independent interrupt sources, and the banks share neither pins nor registers.
\<close>

section \<open>The interrupt loop\<close>

lemma irq_loop_fold:
  "run_state (irq_loop e i isr) s = ((), fold (generic_handle_irq e i) (filter (bit isr) [0..<32]) s)"
proof (induction e i isr arbitrary: s rule: irq_loop.induct)
  case (1 e i isr)
  show ?case
  proof (cases "isr = 0")
    case True
    then show ?thesis by (subst irq_loop.simps) simp
  next
    case False
    then obtain ns where f: "filter (bit isr) [0..<32] = ffs isr # ns"
      using filter_bit_nonempty [OF False] by (cases "filter (bit isr) [0..<32]") (auto simp: ffs_def)
    with 1 [OF False refl] filter_bit_clear [OF f] False show ?thesis
      by (subst irq_loop.simps) (simp add: Let_def)
  qed
qed

lemma bit_and_fun: "bit (a AND b :: u32) = (\<lambda>n. bit a n \<and> bit b n)"
  by (rule ext) (rule bit_and_iff)

text \<open>
  C28: the interrupt handler calls the kernel once for every line that is pending and unmasked, in
  ascending order, and for no other line.
\<close>

theorem gpio_irq_dispatch:
  "run_state (rtk_gpio_irq_handler e i) s =
     (let B = bank_at s i; r = breg B + RTK_GPIO_ISR; isr = gdev e (io s) r
      in ((), fold (generic_handle_irq e i) (filter (\<lambda>n. bit isr n \<and> bit (imr B) n) [0..<32]) (s\<lparr>io := Rd r isr # io s\<rparr>)))"
  by (simp add: rtk_gpio_irq_handler_def rtk_gpio_read_def irq_loop_fold Let_def bit_and_fun)

section \<open>Interrupt lines\<close>

datatype irq_event =
    Irq_set_type nat irq_type
  | Irq_mask nat
  | Irq_unmask nat
  | Irq_startup nat
  | Irq_ack nat

fun line :: "irq_event \<Rightarrow> nat" where
  "line (Irq_set_type n t) = n"
| "line (Irq_mask n) = n"
| "line (Irq_unmask n) = n"
| "line (Irq_startup n) = n"
| "line (Irq_ack n) = n"

fun irq_step :: "gpio_env \<Rightarrow> nat \<Rightarrow> irq_event \<Rightarrow> gpio \<Rightarrow> gpio" where
  "irq_step e i (Irq_set_type n t) s = snd (run_state (rtk_gpio_set_irq_type i n t) s)"
| "irq_step e i (Irq_mask n) s = snd (run_state (rtk_gpio_mask_irq e i n) s)"
| "irq_step e i (Irq_unmask n) s = snd (run_state (rtk_gpio_unmask_irq e i n) s)"
| "irq_step e i (Irq_startup n) s = snd (run_state (rtk_gpio_startup_irq e i n) s)"
| "irq_step e i (Irq_ack n) s = snd (run_state (rtk_gpio_ack_irq i n) s)"

text \<open>The abstract line: its trigger, whether it is unmasked, and what the hardware was last told.\<close>

record irq_line =
  trigger :: u32
  unmasked :: bool
  programmed :: "u32 option"

fun line_step :: "u32 \<Rightarrow> irq_event \<Rightarrow> irq_line \<Rightarrow> irq_line" where
  "line_step dis (Irq_set_type n t) l = (case trig_of t of None \<Rightarrow> l | Some v \<Rightarrow> l\<lparr>trigger := v\<rparr>)"
| "line_step dis (Irq_mask n) l = l\<lparr>unmasked := False, programmed := Some dis\<rparr>"
| "line_step dis (Irq_unmask n) l = l\<lparr>unmasked := True, programmed := Some (trigger l)\<rparr>"
| "line_step dis (Irq_startup n) l = l\<lparr>unmasked := True, programmed := Some (trigger l)\<rparr>"
| "line_step dis (Irq_ack n) l = l"

fun last_intr :: "hal_call list \<Rightarrow> nat \<Rightarrow> u32 option" where
  "last_intr [] pin = None"
| "last_intr (Gpio_intr_set p v # cs) pin = (if p = pin then Some v else last_intr cs pin)"
| "last_intr (c # cs) pin = last_intr cs pin"

definition line_of :: "gpio \<Rightarrow> nat \<Rightarrow> nat \<Rightarrow> irq_line" where
  "line_of s i k = \<lparr>trigger = trig_type (bank_at s i) k, unmasked = bit (imr (bank_at s i)) k,
     programmed = last_intr (hal s) (chip_base (bank_at s i) + k)\<rparr>"

lemma run_hal_do [simp]: "run_state (hal_do e c) s = (sdk e (hal s) c, s\<lparr>hal := c # hal s\<rparr>)"
  by (simp add: hal_do_def)

lemma run_upd_bank [simp]:
  "info_bank s i = Some B \<Longrightarrow> run_state (upd_bank i f) s = ((), s\<lparr>info_bank := (info_bank s)(i \<mapsto> f B)\<rparr>)"
  by (simp add: upd_bank_def)

lemmas irq_ops = rtk_gpio_set_irq_type_def rtk_gpio_mask_irq_def rtk_gpio_unmask_irq_def rtk_gpio_startup_irq_def
  rtk_gpio_ack_irq_def rtk_gpio_direction_input_def rtk_gpio_write_def

lemma irq_step_bank: "info_bank s i = Some B \<Longrightarrow> \<exists>B'. info_bank (irq_step e i ev s) i = Some B' \<and> chip_base B' = chip_base B"
  by (cases ev) (auto simp: irq_ops split: option.splits)

lemma irq_step_line:
  assumes B: "info_bank s i = Some B" and "k < 32"
  shows "line_of (irq_step e i ev s) i k = (if line ev = k then line_step (GPIO_INTR_DISABLE e) ev (line_of s i k) else line_of s i k)"
  using assms
  by (cases ev) (auto simp: irq_ops line_of_def bit_simps split: option.splits)


definition demo_gpio_env :: gpio_env where
  "demo_gpio_env = \<lparr>gdev = \<lambda>_ _. 0, sdk = \<lambda>_ _. (0, Some 1), junk = 0, GPIO_INPUT = 0, GPIO_OUTPUT = 1, GPIO_INTR_DISABLE = 0,
     kzalloc_ok = \<lambda>_. True, gpiochip_add = \<lambda>_. None, devm_request_irq = \<lambda>_. None, domain_ok = \<lambda>_. True, chips_ok = \<lambda>_. True,
     devm_ioremap_resource = \<lambda>k. if k = 0 then 0xB8003200 else 0xB8003300, generic_handle_irq = \<lambda>_ _ s. s\<rparr>"

definition demo_nodes :: "gpio_node list" where
  "demo_nodes = [\<lparr>n_reg = Some 0, n_ngpios = Some 32, n_interrupt_controller = True, n_irq = 9\<rparr>,
     \<lparr>n_reg = Some 2, n_ngpios = Some 40, n_interrupt_controller = False, n_irq = 0\<rparr>,
     \<lparr>n_reg = Some 7, n_ngpios = None, n_interrupt_controller = False, n_irq = 0\<rparr>]"

definition demo_gpio :: gpio where
  "demo_gpio = snd (run_state (rtk_gpio_probe demo_gpio_env (Some demo_nodes))
     \<lparr>io = [], hal = [], info_bank = Map.empty, chips = [], kallocs = 0\<rparr>)"

lemma demo_gpio_banks: "\<exists>B C. info_bank demo_gpio 0 = Some B \<and> info_bank demo_gpio 2 = Some C \<and> ngpio C = 32
    \<and> line_of demo_gpio 0 3 = \<lparr>trigger = 0, unmasked = False, programmed = None\<rparr>"
proof -
  have "info_bank demo_gpio 0 \<noteq> None" "(case info_bank demo_gpio 2 of None \<Rightarrow> False | Some C \<Rightarrow> ngpio C = 32)"
    "line_of demo_gpio 0 3 = \<lparr>trigger = 0, unmasked = False, programmed = None\<rparr>"
    by code_simp+
  then show ?thesis by (auto split: option.splits)
qed


section \<open>Banks\<close>

definition bank_offset :: "nat \<Rightarrow> u32" where
  "bank_offset i = (if i = 2 then 0x40 else if i = 1 then 0x1C else 0)"

definition bank_ok :: "u32 \<Rightarrow> nat \<Rightarrow> rtk_gpio_bank \<Rightarrow> bool" where
  "bank_ok preg i B \<longleftrightarrow> i < 3 \<and> chip_base B = 32 * i \<and> ngpio B \<le> 32 \<and> breg B = preg + bank_offset i"

definition banks_ok :: "u32 \<Rightarrow> gpio \<Rightarrow> bool" where
  "banks_ok preg s \<longleftrightarrow> (\<forall>i B. info_bank s i = Some B \<longrightarrow> bank_ok preg i B)"

lemma bank_offset_apart:
  assumes "i < 3" and "j < 3" and "i \<noteq> j" and "a < 0x14" and "b < 0x14"
  shows "(p :: u32) + bank_offset i + a \<noteq> p + bank_offset j + b"
proof
  assume "p + bank_offset i + a = p + bank_offset j + b"
  then have "bank_offset i + a = bank_offset j + b" by (simp add: add.assoc)
  then have "unat (bank_offset i + a) = unat (bank_offset j + b)" by simp
  moreover have "unat (bank_offset k + c) = unat (bank_offset k) + unat c" if "c < 0x14" for k c
  proof -
    have "unat c < 20" using that by (simp add: word_less_nat_alt)
    moreover have "unat (bank_offset k) \<le> 64" by (simp add: bank_offset_def)
    ultimately show ?thesis by (intro unat_add_lem [THEN iffD1]) simp
  qed
  moreover have "unat a < 20" "unat b < 20" using assms(4,5) by (simp_all add: word_less_nat_alt)
  ultimately show False using assms(1-5) by (auto simp: bank_offset_def split: if_splits)
qed

lemma new_bank_ok: "i < GPIO_MAX_BANK_NUM \<Longrightarrow> bank_ok preg i (new_bank preg pen i np)"
proof -
  assume "i < GPIO_MAX_BANK_NUM"
  then have "i = 0 \<or> i = 1 \<or> i = 2" by (auto simp: GPIO_MAX_BANK_NUM_def)
  then show ?thesis
    by (elim disjE) (auto simp: new_bank_def bank_ok_def bank_offset_def GPIO_BANK_SIZE_def GPIO_BANK_REG_OFFSET_def
        split: option.splits)
qed

lemma bank_probe_ok:
  assumes "run_state (rtk_gpio_bank_probe e preg pen i np) s = (Inr B, s')" and "i < GPIO_MAX_BANK_NUM"
  shows "bank_ok preg i B \<and> info_bank s' = info_bank s"
  using assms(1) new_bank_ok [OF assms(2), of preg pen np]
  by (auto simp: rtk_gpio_bank_probe_def kzalloc_def setup_bank_irq_def bank_ok_def Let_def split: if_splits option.splits)

lemma bank_probe_info: "info_bank (snd (run_state (rtk_gpio_bank_probe e preg pen i np) s)) = info_bank s"
  by (auto simp: rtk_gpio_bank_probe_def kzalloc_def Let_def split: option.splits)

lemma register_nodes_ok: "banks_ok preg s \<Longrightarrow> banks_ok preg (snd (run_state (register_nodes e preg pen nps) s))"
proof (induction e preg pen nps arbitrary: s rule: register_nodes.induct)
  case (2 e preg pen np nps)
  show ?case
  proof (cases "n_reg np")
    case (Some i)
    show ?thesis
    proof (cases "i < GPIO_MAX_BANK_NUM \<and> kzalloc_ok e (kallocs s)")
      case True
      let ?t = "s\<lparr>kallocs := kallocs s + 1\<rparr>"
      obtain r u where r: "run_state (rtk_gpio_bank_probe e preg pen i np) ?t = (r, u)" by fastforce
      then have u: "info_bank u = info_bank s" using bank_probe_info [of e preg pen i np ?t] by simp
      have "banks_ok preg (case r of Inl err \<Rightarrow> u | Inr B \<Rightarrow> u\<lparr>info_bank := (info_bank u)(i \<mapsto> B)\<rparr>)"
        using bank_probe_ok [of e preg pen i np ?t] r u "2.prems" True by (auto simp: banks_ok_def split: sum.splits)
      with "2.IH"(3) [OF Some] True Some r show ?thesis
        by (cases r) (simp_all add: kzalloc_def)
    next
      case False
      with "2.IH"(2) [OF Some] Some "2.prems" show ?thesis by (auto simp: kzalloc_def banks_ok_def)
    qed
  qed (use "2.IH"(1) "2.prems" in simp)
qed simp

text \<open>
  C29: the banks a probe installs are numbered below three, have at most 32 pins each, and share
  neither a global pin number nor a register of their windows of 20 bytes.
\<close>

theorem gpio_banks_disjoint:
  assumes "run_state (rtk_gpio_probe e nodes) s = (Inr (), s')" and "info_bank s' i = Some B" and "info_bank s' j = Some C"
  shows "i < 3 \<and> ngpio B \<le> 32 \<and> (i \<noteq> j \<longrightarrow> {chip_base B ..< chip_base B + ngpio B} \<inter> {chip_base C ..< chip_base C + ngpio C} = {}
    \<and> (\<forall>a b. a < 0x14 \<longrightarrow> b < 0x14 \<longrightarrow> breg B + a \<noteq> breg C + b))"
proof -
  define preg where "preg = devm_ioremap_resource e 1"
  obtain t where "run_state (register_nodes e preg (devm_ioremap_resource e 0) (the nodes)) t = ((), s')" "info_bank t = Map.empty"
    using assms(1) by (auto simp: rtk_gpio_probe_def rtk_gpio_register_banks_def kzalloc_def preg_def split: option.splits if_splits prod.splits)
  then have "banks_ok preg s'" using register_nodes_ok [of preg t e] by (simp add: banks_ok_def) (metis snd_conv)
  then have B: "bank_ok preg i B" and C: "bank_ok preg j C" using assms(2,3) by (auto simp: banks_ok_def)
  have pins: "{chip_base B ..< chip_base B + ngpio B} \<inter> {chip_base C ..< chip_base C + ngpio C} = {}" if "i \<noteq> j"
    using B C that by (auto simp: bank_ok_def)
  have regs: "breg B + a \<noteq> breg C + b" if "i \<noteq> j" "a < 0x14" "b < 0x14" for a b
    using B C that by (auto simp: bank_ok_def bank_offset_apart)
  show ?thesis using B pins regs by (auto simp: bank_ok_def)
qed

theorem gpio_banks_disjoint_witness:
  "\<exists>B C. info_bank demo_gpio 0 = Some B \<and> info_bank demo_gpio 2 = Some C
     \<and> {chip_base B ..< chip_base B + ngpio B} \<inter> {chip_base C ..< chip_base C + ngpio C} = {}"
proof -
  obtain B C where B: "info_bank demo_gpio 0 = Some B" "info_bank demo_gpio 2 = Some C" using demo_gpio_banks by blast
  let ?s = "\<lparr>io = [], hal = [], info_bank = Map.empty, chips = [], kallocs = 0\<rparr> :: gpio"
  have "fst (run_state (rtk_gpio_probe demo_gpio_env (Some demo_nodes)) ?s) = Inr ()" by code_simp
  then have "run_state (rtk_gpio_probe demo_gpio_env (Some demo_nodes)) ?s = (Inr (), demo_gpio)"
    by (metis demo_gpio_def prod.collapse)
  from gpio_banks_disjoint [OF this B] B show ?thesis by simp
qed

end
