(* ===== verification/Igmp_Data.thy ===== *)
theory Igmp_Data
  imports Bsp_Prelude
begin

text \<open>
  Multicast snooping (\<open>drivers/net/ethernet/realtek/rtl86900/igmpHookModule/rtk_igmp_snooping.c\<close>):
  the database of groups, their clients and the sources each client asked for, as the IGMP and
  MLD reports and the timer change it.  This theory has the entries and the operations on their
  lists.  A linked list is the list of its entries, head first; a pool of entries is the number of
  its free ones.  The calls into the cache of flows are recorded; the cache itself is in \<open>Igmp_Flow\<close>.
\<close>

section \<open>Data\<close>

definition IGMP_MAX_GROUP_COUNT :: nat where "IGMP_MAX_GROUP_COUNT = 512"
definition IGMP_MAX_SOURCE_COUNT :: nat where "IGMP_MAX_SOURCE_COUNT = 512"
definition IGMP_MAX_CLIENT_COUNT :: nat where "IGMP_MAX_CLIENT_COUNT = 512"
definition IGMP_HASH_TBL_SIZE :: nat where "IGMP_HASH_TBL_SIZE = 2 ^ 5"

datatype ipver = IP_VERSION4 | IP_VERSION6

text \<open>An address of four words; IPv4 uses the first.\<close>

datatype addr = Addr (a0: u32) (a1: u32) (a2: u32) (a3: u32)

datatype nf_ret = RTK_IGMP_NF_DROP | RTK_IGMP_NF_ACCEPT | RTK_IGMP_NF_CONTINUE

datatype igmp_version = IGMP_NONE | IGMP_V1 | IGMP_V2 | IGMP_V3 | MLD_V1 | MLD_V2

record sourceEntry =
  sourceAddr :: addr
  portTimer :: u32
  fwdState :: bool
  setOpFlag :: bool

record clientEntry =
  clientAddr :: addr
  clientMacAddr :: "u8 list"
  inIfidx :: u32
  extraPortInfo :: "bool \<times> u8"
  igmpVersion :: igmp_version
  groupFilterTimer :: u32
  joinSystemSecTime :: u32
  reportCtagif :: bool
  reportVlanId :: u16
  reportStagif :: bool
  reportSVlanId :: u16
  sourceList :: "sourceEntry list"

record groupEntry =
  groupAddr :: addr
  ipVersion :: ipver
  groupIdx :: nat
  clientList :: "clientEntry list"

text \<open>Calls into the flow cache and the hardware callbacks, latest first.\<close>

datatype db_call =
    GroupAdd ipver addr
  | GroupDel ipver addr
  | InvalidateFlow nat ipver addr
  | ReflushFlow addr
  | AgeFlow nat
  | DeleteUnknownFlow nat

text \<open>The counters of joins and of reports over the weight, of the devices and the bridges.\<close>

record igmp_stats =
  devJoinCnt :: "u32 \<Rightarrow> ipver \<Rightarrow> u32"
  brJoinCnt :: "nat \<Rightarrow> ipver \<Rightarrow> u32"
  devWeightExceedCnt :: "u32 \<Rightarrow> ipver \<Rightarrow> u32"
  brWeightExceedCnt :: "nat \<Rightarrow> ipver \<Rightarrow> u32"

record igmpdb =
  tables :: "nat \<Rightarrow> ipver \<Rightarrow> nat \<Rightarrow> groupEntry list"
  group_free :: nat
  client_free :: nat
  source_free :: nat
  groupIncIdx :: nat
  startTime :: u32
  sysUpSeconds :: u32
  calls :: "db_call list"
  stats :: igmp_stats

text \<open>The configuration of a device; a limit of zero is no limit.\<close>

record dev_conf =
  igmpMcMemberAgingInterval :: u32
  igmpMcLastMemberAgingInterval :: u32
  igmpfastLeave :: bool
  igmp6McMemberAgingInterval :: u32
  igmp6McLastMemberAgingInterval :: u32
  igmp6fastLeave :: bool
  igmpMaxGroupSize :: nat
  igmp6MaxGroupSize :: nat
  igmpMaxWeight :: u32
  igmp6MaxWeight :: u32
  igmpOverWeightDrop :: bool
  igmp6OverWeightDrop :: bool

text \<open>
  A received packet: where it came from, its sender, and the configuration of the device it
  arrived on.
\<close>

record pkt =
  moduleIndex :: nat
  devIfindex :: u32
  smac :: "u8 list"
  pver :: ipver
  saddr :: addr
  DevExtPortEn :: bool
  DevExtPortId :: u8
  ingressCtagif :: bool
  ingressCvid :: u16
  ingressStagif :: bool
  ingressSvid :: u16
  devConf :: dev_conf

text \<open>An address range that the user reserved for the protocol stack.\<close>

record userResvGroup =
  rIsIpv6 :: bool
  isCopy2cpu :: bool
  ignGroupIpStart :: addr
  ignGroupIpEnd :: addr

section \<open>Addresses and hashing\<close>

definition addr_eq :: "ipver \<Rightarrow> addr \<Rightarrow> addr \<Rightarrow> bool" where
  "addr_eq v a b \<longleftrightarrow> (case v of IP_VERSION4 \<Rightarrow> a0 a = a0 b | IP_VERSION6 \<Rightarrow> a0 a = a0 b \<and> a1 a = a1 b \<and> a2 a = a2 b \<and> a3 a = a3 b)"

definition rtk_igmp_hashAlgorithm :: "ipver \<Rightarrow> addr \<Rightarrow> nat" where
  "rtk_igmp_hashAlgorithm v a = (case v of
     IP_VERSION4 \<Rightarrow> unat (31 AND a0 a)
   | IP_VERSION6 \<Rightarrow> unat (31 AND (a3 a XOR a2 a XOR a1 a XOR a0 a)))"

text \<open>Comparison of IPv6 addresses, word by word.\<close>

definition iprange_ipv6_lt :: "addr \<Rightarrow> addr \<Rightarrow> bool" where
  "iprange_ipv6_lt a b \<longleftrightarrow>
     (if a0 a \<noteq> a0 b then a0 a < a0 b
      else if a1 a \<noteq> a1 b then a1 a < a1 b
      else if a2 a \<noteq> a2 b then a2 a < a2 b
      else if a3 a \<noteq> a3 b then a3 a < a3 b
      else False)"

definition resv_hit :: "ipver \<Rightarrow> addr \<Rightarrow> userResvGroup \<Rightarrow> bool" where
  "resv_hit v g r \<longleftrightarrow>
     (if v = IP_VERSION6 \<and> rIsIpv6 r
      then \<not> (iprange_ipv6_lt g (ignGroupIpStart r) \<or> iprange_ipv6_lt (ignGroupIpEnd r) g)
      else if v = IP_VERSION4 \<and> \<not> rIsIpv6 r
      then (if a0 (ignGroupIpEnd r) = 0 then a0 (ignGroupIpStart r) = a0 g
            else a0 (ignGroupIpStart r) \<le> a0 g \<and> a0 g \<le> a0 (ignGroupIpEnd r))
      else False)"

definition rtk_igmp_checkGroupToPsTbl :: "userResvGroup list \<Rightarrow> ipver \<Rightarrow> addr \<Rightarrow> userResvGroup option" where
  "rtk_igmp_checkGroupToPsTbl rs v g = find (resv_hit v g) rs"

section \<open>Lists of entries\<close>

text \<open>Change or remove the first entry that satisfies a predicate.\<close>

fun update_first :: "('a \<Rightarrow> bool) \<Rightarrow> ('a \<Rightarrow> 'a) \<Rightarrow> 'a list \<Rightarrow> 'a list" where
  "update_first P f [] = []"
| "update_first P f (x # xs) = (if P x then f x # xs else x # update_first P f xs)"

fun remove_first :: "('a \<Rightarrow> bool) \<Rightarrow> 'a list \<Rightarrow> 'a list" where
  "remove_first P [] = []"
| "remove_first P (x # xs) = (if P x then xs else x # remove_first P xs)"

section \<open>Groups\<close>

abbreviation bucket :: "igmpdb \<Rightarrow> nat \<Rightarrow> ipver \<Rightarrow> addr \<Rightarrow> groupEntry list" where
  "bucket db m v ga \<equiv> tables db m v (rtk_igmp_hashAlgorithm v ga)"

definition set_bucket :: "nat \<Rightarrow> ipver \<Rightarrow> nat \<Rightarrow> groupEntry list \<Rightarrow> igmpdb \<Rightarrow> igmpdb" where
  "set_bucket m v h gs db = db\<lparr>tables := (tables db)(m := (tables db m)(v := (tables db m v)(h := gs)))\<rparr>"

definition call :: "db_call \<Rightarrow> igmpdb \<Rightarrow> igmpdb" where
  "call c db = db\<lparr>calls := c # calls db\<rparr>"

definition is_group :: "ipver \<Rightarrow> addr \<Rightarrow> groupEntry \<Rightarrow> bool" where
  "is_group v ga g \<longleftrightarrow> addr_eq v ga (groupAddr g)"

definition rtk_igmp_searchGroupEntry :: "igmpdb \<Rightarrow> nat \<Rightarrow> ipver \<Rightarrow> addr \<Rightarrow> groupEntry option" where
  "rtk_igmp_searchGroupEntry db m v ga = find (is_group v ga) (bucket db m v ga)"

definition rtk_igmp_allocateGroupEntry :: "igmpdb \<Rightarrow> igmpdb option" where
  "rtk_igmp_allocateGroupEntry db = (if group_free db = 0 then None else Some (db\<lparr>group_free := group_free db - 1\<rparr>))"

definition rtk_igmp_linkGroupEntry :: "nat \<Rightarrow> ipver \<Rightarrow> addr \<Rightarrow> igmpdb \<Rightarrow> igmpdb" where
  "rtk_igmp_linkGroupEntry m v ga db =
     (let db = db\<lparr>groupIncIdx := groupIncIdx db + 1\<rparr>;
          g = \<lparr>groupAddr = ga, ipVersion = v, groupIdx = groupIncIdx db, clientList = []\<rparr>
      in call (GroupAdd v ga) (set_bucket m v (rtk_igmp_hashAlgorithm v ga) (g # bucket db m v ga) db))"

text \<open>Change the entry of a group in its table.\<close>

definition upd_group :: "nat \<Rightarrow> ipver \<Rightarrow> addr \<Rightarrow> (groupEntry \<Rightarrow> groupEntry) \<Rightarrow> igmpdb \<Rightarrow> igmpdb" where
  "upd_group m v ga f db = set_bucket m v (rtk_igmp_hashAlgorithm v ga) (update_first (is_group v ga) f (bucket db m v ga)) db"

definition sources_of :: "groupEntry \<Rightarrow> nat" where
  "sources_of g = sum_list (map (\<lambda>c. length (sourceList c)) (clientList g))"

definition rtk_igmp_deleteGroupEntry :: "nat \<Rightarrow> ipver \<Rightarrow> addr \<Rightarrow> igmpdb \<Rightarrow> igmpdb" where
  "rtk_igmp_deleteGroupEntry m v ga db = (case rtk_igmp_searchGroupEntry db m v ga of
     None \<Rightarrow> db
   | Some g \<Rightarrow>
       let db = db\<lparr>client_free := client_free db + length (clientList g), source_free := source_free db + sources_of g\<rparr>;
           db = call (GroupDel v ga) (call (InvalidateFlow m v ga) db);
           db = set_bucket m v (rtk_igmp_hashAlgorithm v ga) (remove_first (is_group v ga) (bucket db m v ga)) db
       in db\<lparr>group_free := group_free db + 1\<rparr>)"

section \<open>Clients\<close>

definition is_client :: "ipver \<Rightarrow> addr \<Rightarrow> u8 list \<Rightarrow> clientEntry \<Rightarrow> bool" where
  "is_client v ca mac c \<longleftrightarrow> addr_eq v (clientAddr c) ca \<and> clientMacAddr c = mac"

text \<open>A client that is found is moved to the port the packet came from.\<close>

definition move_client :: "pkt \<Rightarrow> clientEntry \<Rightarrow> clientEntry" where
  "move_client p c =
     (let c = (if inIfidx c \<noteq> devIfindex p then c\<lparr>inIfidx := devIfindex p\<rparr> else c)
      in if fst (extraPortInfo c) \<noteq> DevExtPortEn p \<or> snd (extraPortInfo c) \<noteq> DevExtPortId p
         then c\<lparr>extraPortInfo := (DevExtPortEn p, DevExtPortId p)\<rparr> else c)"

definition rtk_igmp_searchClientEntry :: "pkt \<Rightarrow> groupEntry \<Rightarrow> groupEntry option" where
  "rtk_igmp_searchClientEntry p g =
     (if list_ex (is_client (pver p) (saddr p) (smac p)) (clientList g)
      then Some (g\<lparr>clientList := update_first (is_client (pver p) (saddr p) (smac p)) (move_client p) (clientList g)\<rparr>)
      else None)"

definition rtk_igmp_allocateClientEntry :: "pkt \<Rightarrow> igmpdb \<Rightarrow> (clientEntry \<times> igmpdb) option" where
  "rtk_igmp_allocateClientEntry p db =
     (if client_free db = 0 then None
      else Some (\<lparr>clientAddr = saddr p, clientMacAddr = smac p, inIfidx = devIfindex p,
          extraPortInfo = (DevExtPortEn p, DevExtPortId p), igmpVersion = IGMP_NONE, groupFilterTimer = 0,
          joinSystemSecTime = sysUpSeconds db, reportCtagif = False, reportVlanId = 0, reportStagif = False,
          reportSVlanId = 0, sourceList = []\<rparr>, db\<lparr>client_free := client_free db - 1\<rparr>))"

definition rtk_igmp_linkClientEntry :: "clientEntry \<Rightarrow> groupEntry \<Rightarrow> groupEntry" where
  "rtk_igmp_linkClientEntry c g = g\<lparr>clientList := c # clientList g\<rparr>"

definition rtk_igmp_deleteClientEntry :: "nat \<Rightarrow> addr \<Rightarrow> pkt \<Rightarrow> igmpdb \<Rightarrow> igmpdb" where
  "rtk_igmp_deleteClientEntry m ga p db = (case rtk_igmp_searchGroupEntry db m (pver p) ga of
     None \<Rightarrow> db
   | Some g \<Rightarrow> (case find (is_client (pver p) (saddr p) (smac p)) (clientList g) of
       None \<Rightarrow> db
     | Some c \<Rightarrow>
         let db = db\<lparr>source_free := source_free db + length (sourceList c), client_free := client_free db + 1\<rparr>
         in upd_group m (pver p) ga (\<lambda>g. g\<lparr>clientList := remove_first (is_client (pver p) (saddr p) (smac p)) (clientList g)\<rparr>) db))"

text \<open>The port a client is served on: while it excludes, or includes a source that is alive.\<close>

definition rtk_igmp_getClientFwdIfIdx :: "clientEntry \<Rightarrow> u32 \<Rightarrow> u32 option" where
  "rtk_igmp_getClientFwdIfIdx c sysTime =
     (if groupFilterTimer c > sysTime then Some (inIfidx c)
      else if list_ex (\<lambda>s. portTimer s > sysTime) (sourceList c) then Some (inIfidx c)
      else None)"

section \<open>Sources\<close>

text \<open>
  The source list of a client together with the number of free entries.  A loop over the sources of
  a record ends early, with false, when the pool is empty.
\<close>

type_synonym src_state = "sourceEntry list \<times> nat"

definition is_source :: "ipver \<Rightarrow> addr \<Rightarrow> sourceEntry \<Rightarrow> bool" where
  "is_source v a s \<longleftrightarrow> addr_eq v a (sourceAddr s)"

definition rtk_igmp_searchSourceEntry :: "ipver \<Rightarrow> addr \<Rightarrow> sourceEntry list \<Rightarrow> sourceEntry option" where
  "rtk_igmp_searchSourceEntry v a ss = find (is_source v a) ss"

definition new_source :: "addr \<Rightarrow> u32 \<Rightarrow> sourceEntry" where
  "new_source a t = \<lparr>sourceAddr = a, portTimer = t, fwdState = False, setOpFlag = False\<rparr>"

text \<open>Allocating a source and linking it at the head.\<close>

definition link_new_source :: "addr \<Rightarrow> u32 \<Rightarrow> src_state \<Rightarrow> src_state option" where
  "link_new_source a t st = (case st of (ss, free) \<Rightarrow> if free = 0 then None else Some (new_source a t # ss, free - 1))"

definition upd_source :: "ipver \<Rightarrow> addr \<Rightarrow> (sourceEntry \<Rightarrow> sourceEntry) \<Rightarrow> src_state \<Rightarrow> src_state" where
  "upd_source v a f st = (case st of (ss, free) \<Rightarrow> (update_first (is_source v a) f ss, free))"

text \<open>Run a step for each source of a record.\<close>

fun each_source :: "(addr \<Rightarrow> src_state \<Rightarrow> src_state option) \<Rightarrow> addr list \<Rightarrow> src_state \<Rightarrow> bool \<times> src_state" where
  "each_source f [] st = (True, st)"
| "each_source f (a # as) st = (case f a st of None \<Rightarrow> (False, st) | Some st' \<Rightarrow> each_source f as st')"

text \<open>Deleting the sources whose flag is set, and all sources.\<close>

definition delete_flagged :: "src_state \<Rightarrow> src_state" where
  "delete_flagged st = (case st of (ss, free) \<Rightarrow> (filter (\<lambda>s. \<not> setOpFlag s) ss, free + length (filter setOpFlag ss)))"

definition rtk_igmp_deleteSourceList :: "src_state \<Rightarrow> src_state" where
  "rtk_igmp_deleteSourceList st = (case st of (ss, free) \<Rightarrow> ([], free + length ss))"

definition flag_all :: "src_state \<Rightarrow> src_state" where
  "flag_all st = (case st of (ss, free) \<Rightarrow> (map (\<lambda>s. s\<lparr>setOpFlag := True\<rparr>) ss, free))"

end
