(* ===== verification/Igmp_Rules.thy ===== *)
theory Igmp_Rules
  imports Igmp_Data
begin

text \<open>
  The white list and the black list of the multicast snooping.  Both are a table of rules with
  reference counts, in the order of their indices, and for every device and address family the
  ordered list of the indices it uses.  A check walks the two lists side by side: the position in
  the table goes on from the rule that was looked at last.  The two lists share the operations
  below.
\<close>

section \<open>The table of rules\<close>

record 'p rule_entry =
  ruleIdx :: nat
  patten :: 'p
  refCnt :: int

text \<open>
  \<open>devs\<close> are the registered devices.  The index counter of the code is a 32-bit integer; here it
  does not wrap.
\<close>

record 'p rules =
  ruleList :: "'p rule_entry list"
  icrIdx :: nat
  devs :: "u32 list"
  idxs :: "u32 \<Rightarrow> ipver \<Rightarrow> nat list"

definition rules_init :: "u32 list \<Rightarrow> 'p rules" where
  "rules_init ds = \<lparr>ruleList = [], icrIdx = 0, devs = ds, idxs = (\<lambda>_ _. [])\<rparr>"

definition set_idxs :: "u32 \<Rightarrow> ipver \<Rightarrow> nat list \<Rightarrow> 'p rules \<Rightarrow> 'p rules" where
  "set_idxs d v is st = st\<lparr>idxs := (idxs st)(d := (idxs st d)(v := is))\<rparr>"

definition entry_malloc :: "'p \<Rightarrow> 'p rules \<Rightarrow> 'p rules" where
  "entry_malloc p st = st\<lparr>ruleList := ruleList st @ [\<lparr>ruleIdx = icrIdx st, patten = p, refCnt = 0\<rparr>], icrIdx := icrIdx st + 1\<rparr>"

definition entry_free :: "nat \<Rightarrow> 'p rules \<Rightarrow> 'p rules" where
  "entry_free i st = st\<lparr>ruleList := filter (\<lambda>e. ruleIdx e \<noteq> i) (ruleList st)\<rparr>"

text \<open>Drop a reference to a rule; the rule goes with the last one.\<close>

definition entry_del :: "'p rule_entry \<Rightarrow> 'p rules \<Rightarrow> 'p rules" where
  "entry_del e st =
     (if refCnt e - 1 = 0 then entry_free (ruleIdx e) st
      else st\<lparr>ruleList := map (\<lambda>x. if ruleIdx x = ruleIdx e then x\<lparr>refCnt := refCnt e - 1\<rparr> else x) (ruleList st)\<rparr>)"

text \<open>Insert an index before the first larger one; \<open>None\<close> when it is there already.\<close>

fun insert_idx :: "nat \<Rightarrow> nat list \<Rightarrow> nat list option" where
  "insert_idx i [] = Some [i]"
| "insert_idx i (x # xs) =
     (if x = i then None else if x > i then Some (i # x # xs) else map_option ((#) x) (insert_idx i xs))"

datatype add_result = Added nat | Present nat | Failed

text \<open>
  Adding a rule to a device.  \<open>ok_entry\<close> and \<open>ok_idx\<close> say whether the two allocations succeed; the
  pattern is copied into the new rule before the pointer is tested.
\<close>

definition attach :: "ipver \<Rightarrow> u32 \<Rightarrow> bool \<Rightarrow> nat \<Rightarrow> 'p rules \<Rightarrow> add_result \<times> 'p rules" where
  "attach v d ok_idx i st = (case insert_idx i (idxs st d v) of
     None \<Rightarrow> (Present i, st)
   | Some is \<Rightarrow>
       if \<not> ok_idx then (Failed, st)
       else (Added i, (set_idxs d v is st)\<lparr>ruleList := map (\<lambda>x. if ruleIdx x = i then x\<lparr>refCnt := refCnt x + 1\<rparr> else x) (ruleList st)\<rparr>))"

definition rule_add :: "('p \<Rightarrow> ipver) \<Rightarrow> bool \<Rightarrow> bool \<Rightarrow> 'p \<Rightarrow> u32 \<Rightarrow> 'p rules \<Rightarrow> fault + (add_result \<times> 'p rules)" where
  "rule_add ver ok_entry ok_idx p d st =
     (if d \<notin> set (devs st) then Inr (Failed, st)
      else case find (\<lambda>e. patten e = p) (ruleList st) of
        Some e \<Rightarrow> Inr (attach (ver p) d ok_idx (ruleIdx e) st)
      | None \<Rightarrow>
          if \<not> ok_entry then Inl Oops
          else let i = icrIdx st; st = entry_malloc p st
               in if \<not> ok_idx then Inr (Failed, entry_free i st)
                  else Inr (attach (ver p) d True i st))"

text \<open>Taking a rule from a device, by its index.\<close>

definition rule_del_byIdx :: "u32 \<Rightarrow> nat \<Rightarrow> 'p rules \<Rightarrow> bool \<times> 'p rules" where
  "rule_del_byIdx d i st =
     (if d \<notin> set (devs st) then (False, st)
      else let v = (if i \<in> set (idxs st d IP_VERSION4) then IP_VERSION4 else IP_VERSION6)
           in if i \<notin> set (idxs st d v) then (False, st)
              else let st = set_idxs d v (remove1 i (idxs st d v)) st
                   in (True, case find (\<lambda>e. ruleIdx e = i) (ruleList st) of None \<Rightarrow> st | Some e \<Rightarrow> entry_del e st))"

text \<open>
  \<open>list_for_each_entry_continue\<close> over the table: the rule with the index and the rest behind it.
  Without one the position is back at the head of the table.
\<close>

fun seek :: "nat \<Rightarrow> 'p rule_entry list \<Rightarrow> ('p rule_entry \<times> 'p rule_entry list) option" where
  "seek i [] = None"
| "seek i (e # es) = (if ruleIdx e = i then Some (e, es) else seek i es)"

text \<open>Taking every rule that fits a pattern from a device.\<close>

fun rule_del_loop :: "('p \<Rightarrow> bool) \<Rightarrow> u32 \<Rightarrow> ipver \<Rightarrow> 'p rule_entry list \<Rightarrow> nat list \<Rightarrow> 'p rules \<Rightarrow> 'p rules" where
  "rule_del_loop fits d v rest [] st = st"
| "rule_del_loop fits d v rest (i # is) st = (case seek i rest of
     None \<Rightarrow> rule_del_loop fits d v (ruleList st) is st
   | Some (e, rest') \<Rightarrow>
       if fits (patten e)
       then rule_del_loop fits d v (if refCnt e - 1 = 0 then rest' else e\<lparr>refCnt := refCnt e - 1\<rparr> # rest') is
              (entry_del e (set_idxs d v (remove1 i (idxs st d v)) st))
       else rule_del_loop fits d v rest' is st)"

definition rule_del :: "('p \<Rightarrow> bool) \<Rightarrow> ipver \<Rightarrow> u32 \<Rightarrow> 'p rules \<Rightarrow> bool \<times> 'p rules" where
  "rule_del fits v d st =
     (if d \<notin> set (devs st) then (False, st)
      else (True, rule_del_loop fits d v (ruleList st) (idxs st d v) st))"

text \<open>The check: whether a rule of the device hits, and whether one was looked at.\<close>

fun rule_scan :: "('p \<Rightarrow> bool) \<Rightarrow> 'p rule_entry list \<Rightarrow> 'p rule_entry list \<Rightarrow> nat list \<Rightarrow> bool \<Rightarrow> bool \<times> bool" where
  "rule_scan hit all rest [] enabled = (False, enabled)"
| "rule_scan hit all rest (i # is) enabled = (case seek i rest of
     None \<Rightarrow> rule_scan hit all all is enabled
   | Some (e, rest') \<Rightarrow> if hit (patten e) then (True, True) else rule_scan hit all rest' is True)"

section \<open>White list\<close>

record white_pat =
  wIsIpv6 :: bool
  smacChk :: bool
  wsmac :: "u8 list"
  smacMask :: "u8 list"
  gipChk :: bool
  wlGroupIpStart :: addr
  wlGroupIpEnd :: addr
  sipChk :: bool
  wlSipStart :: addr
  wlSipEnd :: addr
  mcSipChk :: bool
  mcSipChkIgnoreNonIGMPv3MLDv2 :: bool
  wlMcSip :: addr
  wlMcSipEnd :: addr

definition fam :: "bool \<Rightarrow> ipver" where
  "fam ipv6 = (if ipv6 then IP_VERSION6 else IP_VERSION4)"

definition white_range_bad :: "white_pat \<Rightarrow> bool" where
  "white_range_bad p \<longleftrightarrow> \<not> wIsIpv6 p \<and>
     (0 < a0 (wlSipEnd p) \<and> a0 (wlSipEnd p) < a0 (wlSipStart p) \<or>
      0 < a0 (wlGroupIpEnd p) \<and> a0 (wlGroupIpEnd p) < a0 (wlGroupIpStart p) \<or>
      0 < a0 (wlMcSipEnd p) \<and> a0 (wlMcSipEnd p) < a0 (wlMcSip p))"

definition rtk_igmp_whiteListAdd :: "bool \<Rightarrow> bool \<Rightarrow> white_pat \<Rightarrow> u32 \<Rightarrow> white_pat rules \<Rightarrow> fault + (add_result \<times> white_pat rules)" where
  "rtk_igmp_whiteListAdd ok_entry ok_idx p d st =
     (if d \<in> set (devs st) \<and> white_range_bad p then Inr (Failed, st)
      else rule_add (\<lambda>p. fam (wIsIpv6 p)) ok_entry ok_idx p d st)"

text \<open>Whether a rule has everything the given pattern asks for.\<close>

definition white_fits :: "white_pat \<Rightarrow> white_pat \<Rightarrow> bool" where
  "white_fits p w \<longleftrightarrow> wIsIpv6 p = wIsIpv6 w \<and>
     (gipChk p \<longrightarrow> gipChk w \<and> wlGroupIpStart w = wlGroupIpStart p \<and> wlGroupIpEnd w = wlGroupIpEnd p) \<and>
     (sipChk p \<longrightarrow> sipChk w \<and> wlSipStart w = wlSipStart p \<and> wlSipEnd w = wlSipEnd p) \<and>
     (smacChk p \<longrightarrow> smacChk w \<and> wsmac w = wsmac p \<and> smacMask w = smacMask p) \<and>
     (mcSipChk p \<longrightarrow> mcSipChk w \<and> wlMcSip w = wlMcSip p \<and> wlMcSipEnd w = wlMcSipEnd p)"

definition rtk_igmp_whiteListDel_byIdx :: "u32 \<Rightarrow> nat \<Rightarrow> white_pat rules \<Rightarrow> bool \<times> white_pat rules" where
  "rtk_igmp_whiteListDel_byIdx d i st = rule_del_byIdx d i st"

definition rtk_igmp_whiteListDel :: "white_pat option \<Rightarrow> u32 \<Rightarrow> nat \<Rightarrow> white_pat rules \<Rightarrow> bool \<times> white_pat rules" where
  "rtk_igmp_whiteListDel pat d i st = (case pat of
     None \<Rightarrow> rtk_igmp_whiteListDel_byIdx d i st
   | Some p \<Rightarrow> rule_del (white_fits p) (fam (wIsIpv6 p)) d st)"

text \<open>A source address of all zeros means that it is not known.\<close>

definition known_smac :: "u8 list \<Rightarrow> u8 list option" where
  "known_smac mac = (if list_all (\<lambda>b. b = 0) mac then None else Some mac)"

definition mac_match :: "u8 list \<Rightarrow> u8 list \<Rightarrow> u8 list \<Rightarrow> bool" where
  "mac_match pat msk mac \<longleftrightarrow> list_all (\<lambda>i. pat ! i AND msk ! i = mac ! i AND msk ! i) [0..<6]"

definition in_range :: "ipver \<Rightarrow> addr \<Rightarrow> addr \<Rightarrow> addr \<Rightarrow> bool" where
  "in_range v lo hi a \<longleftrightarrow> (case v of
     IP_VERSION4 \<Rightarrow> a0 lo \<le> a0 a \<and> a0 a \<le> a0 hi
   | IP_VERSION6 \<Rightarrow> \<not> (iprange_ipv6_lt a lo \<or> iprange_ipv6_lt hi a))"

text \<open>A rule that needs what is not known does not hit.\<close>

definition white_hit :: "ipver \<Rightarrow> bool \<Rightarrow> addr \<Rightarrow> addr \<Rightarrow> addr option \<Rightarrow> u8 list \<Rightarrow> white_pat \<Rightarrow> bool" where
  "white_hit v v3 ga ca src mac w \<longleftrightarrow>
     (smacChk w \<longrightarrow> (case known_smac mac of None \<Rightarrow> False | Some m \<Rightarrow> mac_match (wsmac w) (smacMask w) m)) \<and>
     (gipChk w \<longrightarrow> in_range v (wlGroupIpStart w) (wlGroupIpEnd w) ga) \<and>
     (sipChk w \<longrightarrow> in_range v (wlSipStart w) (wlSipEnd w) ca) \<and>
     (mcSipChk w \<longrightarrow> mcSipChkIgnoreNonIGMPv3MLDv2 w \<and> \<not> v3 \<or>
        (case src of None \<Rightarrow> False | Some s \<Rightarrow> in_range v (wlMcSip w) (wlMcSipEnd w) s))"

text \<open>A device without rules lets everything pass.\<close>

definition rtk_igmp_filterWhiteListCheck :: "white_pat rules \<Rightarrow> u32 \<Rightarrow> ipver \<Rightarrow> bool \<Rightarrow> addr \<Rightarrow> addr \<Rightarrow> addr option \<Rightarrow> u8 list \<Rightarrow> bool" where
  "rtk_igmp_filterWhiteListCheck st d v v3 ga ca src mac =
     (case rule_scan (white_hit v v3 ga ca src mac) (ruleList st) (ruleList st) (idxs st d v) False of
        (hit, enabled) \<Rightarrow> hit \<or> \<not> enabled)"

section \<open>Black list\<close>

record black_pat =
  bIsIpv6 :: bool
  bsmacChk :: bool
  bsmac :: "u8 list"
  bsmacMask :: "u8 list"

definition black_fits :: "black_pat \<Rightarrow> black_pat \<Rightarrow> bool" where
  "black_fits p w \<longleftrightarrow> bIsIpv6 p = bIsIpv6 w \<and>
     (bsmacChk p \<longrightarrow> bsmacChk w \<and> bsmac w = bsmac p \<and> bsmacMask w = bsmacMask p)"

definition rtk_igmp_blackListDel_byIdx :: "u32 \<Rightarrow> nat \<Rightarrow> black_pat rules \<Rightarrow> bool \<times> black_pat rules" where
  "rtk_igmp_blackListDel_byIdx d i st = rule_del_byIdx d i st"

definition rtk_igmp_blackListDel :: "black_pat option \<Rightarrow> u32 \<Rightarrow> nat \<Rightarrow> black_pat rules \<Rightarrow> bool \<times> black_pat rules" where
  "rtk_igmp_blackListDel pat d i st = (case pat of
     None \<Rightarrow> rtk_igmp_blackListDel_byIdx d i st
   | Some p \<Rightarrow> rule_del (black_fits p) (fam (bIsIpv6 p)) d st)"

definition black_hit :: "u8 list \<Rightarrow> black_pat \<Rightarrow> bool" where
  "black_hit mac w \<longleftrightarrow>
     (bsmacChk w \<longrightarrow> (case known_smac mac of None \<Rightarrow> False | Some m \<Rightarrow> mac_match (bsmac w) (bsmacMask w) m))"

definition rtk_igmp_filterblackListCheck :: "black_pat rules \<Rightarrow> u32 \<Rightarrow> ipver \<Rightarrow> u8 list \<Rightarrow> bool" where
  "rtk_igmp_filterblackListCheck st d v mac =
     fst (rule_scan (black_hit mac) (ruleList st) (ruleList st) (idxs st d v) False)"

text \<open>
  A new black list rule drops clients that are already in the database: in every group the first
  client on the device that the rule names.  The search in a group ends with it.
\<close>

definition black_client :: "black_pat \<Rightarrow> u32 \<Rightarrow> clientEntry \<Rightarrow> bool" where
  "black_client p d c \<longleftrightarrow> inIfidx c = d \<and> bsmacChk p \<and> mac_match (bsmac p) (bsmacMask p) (clientMacAddr c)"

fun black_groups :: "nat \<Rightarrow> ipver \<Rightarrow> nat \<Rightarrow> black_pat \<Rightarrow> u32 \<Rightarrow> groupEntry list \<Rightarrow> groupEntry list \<Rightarrow> igmpdb \<Rightarrow> igmpdb" where
  "black_groups m v h p d ds [] db = db"
| "black_groups m v h p d ds (g # gs) db = (case find (black_client p d) (clientList g) of
     None \<Rightarrow> black_groups m v h p d (ds @ [g]) gs db
   | Some c \<Rightarrow>
       let g' = g\<lparr>clientList := remove_first (black_client p d) (clientList g)\<rparr>;
           db = set_bucket m v h (ds @ g' # gs)
                  (db\<lparr>source_free := source_free db + length (sourceList c), client_free := client_free db + 1\<rparr>)
       in black_groups m v h p d (ds @ [g']) gs (call (ReflushFlow (groupAddr g)) db))"

definition rtk_igmp_blackList_updateFlow :: "nat list \<Rightarrow> black_pat \<Rightarrow> u32 \<Rightarrow> igmpdb \<Rightarrow> igmpdb" where
  "rtk_igmp_blackList_updateFlow modules p d db =
     fold (\<lambda>m. fold (\<lambda>h db. black_groups m (fam (bIsIpv6 p)) h p d [] (tables db m (fam (bIsIpv6 p)) h) db)
        [0..<IGMP_HASH_TBL_SIZE]) modules db"

definition rtk_igmp_blackListAdd :: "bool \<Rightarrow> bool \<Rightarrow> nat list \<Rightarrow> black_pat \<Rightarrow> u32 \<Rightarrow> black_pat rules \<times> igmpdb \<Rightarrow> fault + (add_result \<times> black_pat rules \<times> igmpdb)" where
  "rtk_igmp_blackListAdd ok_entry ok_idx modules p d s =
     (case rule_add (\<lambda>p. fam (bIsIpv6 p)) ok_entry ok_idx p d (fst s) of
        Inl f \<Rightarrow> Inl f
      | Inr (Added i, st) \<Rightarrow> Inr (Added i, st, rtk_igmp_blackList_updateFlow modules p d (snd s))
      | Inr (r, st) \<Rightarrow> Inr (r, st, snd s))"

end
