(* ===== verification/Igmp_Limit.thy ===== *)
theory Igmp_Limit
  imports Igmp_Rules
begin

text \<open>
  What decides whether a report is learnt: the reserved groups, the limits on groups, clients and
  joins of a bridge and of a device, the weights of groups, and the white list.
\<close>

section \<open>Configuration\<close>

text \<open>The limits of a bridge; zero is no limit.\<close>

record br_conf =
  sysMaxGroupSize :: nat
  sysIp4MaxGroupSize :: nat
  sysIp6MaxGroupSize :: nat
  sysMaxClientSize :: nat
  sysIp4MaxClientSize :: nat
  sysIp6MaxClientSize :: nat
  perIp4ClientMaxJoinGroupSize :: nat
  perIp6ClientMaxJoinGroupSize :: nat
  sysIp4MaxWeight :: u32
  sysIp6MaxWeight :: u32
  sysIp4OverWeightDrop :: bool
  sysIp6OverWeightDrop :: bool

record group_weight =
  wDevIdx :: u32
  gwIsIpv6 :: bool
  weightGroupIpStart :: addr
  weightGroupIpEnd :: addr
  weight :: u32

text \<open>
  The valid modules are the registered bridges, in the order of their slots; \<open>brIf\<close> is the
  interface index of a bridge.
\<close>

record policy =
  resvGroups :: "userResvGroup list"
  whiteList :: "white_pat rules"
  groupWeights :: "group_weight list"
  modules :: "nat list"
  brIf :: "nat \<Rightarrow> u32"
  brDevConf :: "nat \<Rightarrow> br_conf"

section \<open>Weights\<close>

definition weight_hit :: "u32 \<Rightarrow> ipver \<Rightarrow> addr \<Rightarrow> group_weight \<Rightarrow> bool" where
  "weight_hit d v ga w \<longleftrightarrow> wDevIdx w = d \<and>
     (if v = IP_VERSION6 \<and> gwIsIpv6 w
      then \<not> (iprange_ipv6_lt ga (weightGroupIpStart w) \<or> iprange_ipv6_lt (weightGroupIpEnd w) ga)
      else if v = IP_VERSION4 \<and> \<not> gwIsIpv6 w
      then (if a0 (weightGroupIpEnd w) = 0 then a0 (weightGroupIpStart w) = a0 ga
            else a0 (weightGroupIpStart w) \<le> a0 ga \<and> a0 ga \<le> a0 (weightGroupIpEnd w))
      else False)"

definition rtk_igmp_checkGroupWeightTbl :: "group_weight list \<Rightarrow> u32 \<Rightarrow> ipver \<Rightarrow> addr \<Rightarrow> u32" where
  "rtk_igmp_checkGroupWeightTbl ws d v ga = (case find (weight_hit d v ga) ws of Some w \<Rightarrow> weight w | None \<Rightarrow> 0)"

text \<open>The groups of a module, in the order of the hash table.\<close>

definition groups_of :: "igmpdb \<Rightarrow> nat \<Rightarrow> ipver \<Rightarrow> groupEntry list" where
  "groups_of db m v = concat (map (tables db m v) [0..<IGMP_HASH_TBL_SIZE])"

definition pairs_of :: "igmpdb \<Rightarrow> nat \<Rightarrow> ipver \<Rightarrow> (groupEntry \<times> clientEntry) list" where
  "pairs_of db m v = concat (map (\<lambda>g. map (Pair g) (clientList g)) (groups_of db m v))"

text \<open>
  The group with the smallest index from \<open>lo\<close> on that has a client of the device: each hit lowers
  the bound for the groups behind it.
\<close>

fun next_scan :: "(clientEntry \<Rightarrow> bool) \<Rightarrow> nat \<Rightarrow> groupEntry list \<Rightarrow> nat \<Rightarrow> groupEntry option \<Rightarrow> groupEntry option" where
  "next_scan sel lo [] hi found = found"
| "next_scan sel lo (g # gs) hi found =
     (if lo \<le> groupIdx g \<and> groupIdx g \<le> hi \<and> list_ex sel (clientList g)
      then next_scan sel lo gs (groupIdx g) (Some g)
      else next_scan sel lo gs hi found)"

text \<open>The groups that count for a device, or for a bridge.\<close>

datatype weigh_for = WeighDev u32 | WeighBr u32

definition weigh_groups :: "policy \<Rightarrow> igmpdb \<Rightarrow> ipver \<Rightarrow> weigh_for \<Rightarrow> groupEntry list" where
  "weigh_groups pol db v w = (case w of
     WeighDev d \<Rightarrow> concat (map (\<lambda>m. groups_of db m v) (modules pol))
   | WeighBr d \<Rightarrow> concat (map (\<lambda>m. groups_of db m v) (filter (\<lambda>m. brIf pol m = d) (modules pol))))"

definition weigh_client :: "weigh_for \<Rightarrow> clientEntry \<Rightarrow> bool" where
  "weigh_client w c = (case w of WeighDev d \<Rightarrow> inIfidx c = d | WeighBr d \<Rightarrow> True)"

definition weigh_if :: "weigh_for \<Rightarrow> u32" where
  "weigh_if w = (case w of WeighDev d \<Rightarrow> d | WeighBr d \<Rightarrow> d)"

definition rtk_igmp_nextValidGroupStatistic_get :: "policy \<Rightarrow> igmpdb \<Rightarrow> ipver \<Rightarrow> weigh_for \<Rightarrow> nat \<Rightarrow> groupEntry option" where
  "rtk_igmp_nextValidGroupStatistic_get pol db v w lo =
     next_scan (weigh_client w) lo (weigh_groups pol db v w) (groupIncIdx db) None"

lemma next_scan_bounds:
  "next_scan sel lo gs hi found = Some g \<Longrightarrow> found = Some g \<or> lo \<le> groupIdx g \<and> groupIdx g \<le> hi"
  by (induction sel lo gs hi found rule: next_scan.induct) (fastforce split: if_splits)+

function total_weight :: "policy \<Rightarrow> igmpdb \<Rightarrow> ipver \<Rightarrow> weigh_for \<Rightarrow> nat \<Rightarrow> u32 \<Rightarrow> u32" where
  "total_weight pol db v w lo acc = (case rtk_igmp_nextValidGroupStatistic_get pol db v w lo of
     None \<Rightarrow> acc
   | Some g \<Rightarrow> total_weight pol db v w (groupIdx g + 1) (acc + rtk_igmp_checkGroupWeightTbl (groupWeights pol) (weigh_if w) v (groupAddr g)))"
  by pat_completeness auto
termination total_weight
proof (relation "measure (\<lambda>(pol, db, v, w, lo, acc). groupIncIdx db + 1 - lo)", goal_cases)
  case (2 pol db v w lo acc g)
  then show ?case using next_scan_bounds [of "weigh_client w" lo "weigh_groups pol db v w" "groupIncIdx db" None g]
    by (auto simp: rtk_igmp_nextValidGroupStatistic_get_def)
qed simp

definition over_weight :: "policy \<Rightarrow> igmpdb \<Rightarrow> ipver \<Rightarrow> weigh_for \<Rightarrow> u32 \<Rightarrow> addr \<Rightarrow> bool" where
  "over_weight pol db v w limit ga \<longleftrightarrow> limit \<noteq> 0 \<and>
     total_weight pol db v w 0 0 + rtk_igmp_checkGroupWeightTbl (groupWeights pol) (weigh_if w) v ga > limit"

definition bump :: "'k \<Rightarrow> ipver \<Rightarrow> ('k \<Rightarrow> ipver \<Rightarrow> u32) \<Rightarrow> 'k \<Rightarrow> ipver \<Rightarrow> u32" where
  "bump k v f = f(k := (f k)(v := f k v + 1))"

text \<open>Whether the weights leave room for the group; exceeding a limit is counted.\<close>

definition rtk_igmp_weightOverCheck :: "policy \<Rightarrow> pkt \<Rightarrow> addr \<Rightarrow> igmpdb \<Rightarrow> bool \<times> igmpdb" where
  "rtk_igmp_weightOverCheck pol p ga db =
     (let v = pver p; d = devIfindex p; m = moduleIndex p; dc = devConf p; bc = brDevConf pol m;
          devMax = (case v of IP_VERSION4 \<Rightarrow> igmpMaxWeight dc | IP_VERSION6 \<Rightarrow> igmp6MaxWeight dc);
          brMax = (case v of IP_VERSION4 \<Rightarrow> sysIp4MaxWeight bc | IP_VERSION6 \<Rightarrow> sysIp6MaxWeight bc);
          devDrop = (case v of IP_VERSION4 \<Rightarrow> igmpOverWeightDrop dc | IP_VERSION6 \<Rightarrow> igmp6OverWeightDrop dc);
          brDrop = (case v of IP_VERSION4 \<Rightarrow> sysIp4OverWeightDrop bc | IP_VERSION6 \<Rightarrow> sysIp6OverWeightDrop bc);
          devOver = over_weight pol db v (WeighDev d) devMax ga;
          brOver = over_weight pol db v (WeighBr (brIf pol m)) brMax ga;
          st = stats db;
          st = (if devOver then st\<lparr>devWeightExceedCnt := bump d v (devWeightExceedCnt st)\<rparr> else st);
          st = (if brOver then st\<lparr>brWeightExceedCnt := bump m v (brWeightExceedCnt st)\<rparr> else st)
      in (\<not> (devOver \<and> devDrop) \<and> \<not> (brOver \<and> brDrop), db\<lparr>stats := st\<rparr>))"

section \<open>Limits\<close>

text \<open>
  Whether an entry of a client is the one to count it by: the group of the first entry of the
  client is the group asked about.  For IPv6 both comparisons of the code are negated.
\<close>

definition rtk_igmp_client_cnt :: "igmpdb \<Rightarrow> nat \<Rightarrow> ipver \<Rightarrow> addr \<Rightarrow> addr \<Rightarrow> bool" where
  "rtk_igmp_client_cnt db m v ga ca = (case v of
     IP_VERSION4 \<Rightarrow> (case find (\<lambda>(g, c). a0 ca = a0 (clientAddr c)) (pairs_of db m v) of
       None \<Rightarrow> False | Some (g, c) \<Rightarrow> a0 ga = a0 (groupAddr g))
   | IP_VERSION6 \<Rightarrow> (case find (\<lambda>(g, c). ca \<noteq> clientAddr c) (pairs_of db m v) of
       None \<Rightarrow> False | Some (g, c) \<Rightarrow> ga \<noteq> groupAddr g))"

definition client_total :: "igmpdb \<Rightarrow> nat \<Rightarrow> ipver \<Rightarrow> nat" where
  "client_total db m v = length (filter (\<lambda>(g, c). rtk_igmp_client_cnt db m v (groupAddr g) (clientAddr c)) (pairs_of db m v))"

definition joins_of :: "igmpdb \<Rightarrow> nat \<Rightarrow> ipver \<Rightarrow> addr \<Rightarrow> nat" where
  "joins_of db m v ca = length (filter (\<lambda>(g, c). addr_eq v ca (clientAddr c)) (pairs_of db m v))"

definition dev_joins :: "igmpdb \<Rightarrow> nat \<Rightarrow> ipver \<Rightarrow> u32 \<Rightarrow> nat" where
  "dev_joins db m v d = length (filter (\<lambda>(g, c). inIfidx c = d) (pairs_of db m v))"

definition group_dev_hit :: "igmpdb \<Rightarrow> nat \<Rightarrow> ipver \<Rightarrow> addr \<Rightarrow> u32 \<Rightarrow> bool" where
  "group_dev_hit db m v ga d = list_ex (\<lambda>(g, c). addr_eq v ga (groupAddr g) \<and> inIfidx c = d) (pairs_of db m v)"

definition at_limit :: "nat \<Rightarrow> nat \<Rightarrow> bool" where
  "at_limit limit n \<longleftrightarrow> limit \<noteq> 0 \<and> n \<ge> limit"

text \<open>Whether the client is in the group; the IPv6 comparison is negated here, too.\<close>

definition client_in_group :: "addr \<Rightarrow> groupEntry \<Rightarrow> bool" where
  "client_in_group ca g = list_ex (\<lambda>c. case ipVersion g of
     IP_VERSION4 \<Rightarrow> a0 ca = a0 (clientAddr c) | IP_VERSION6 \<Rightarrow> ca \<noteq> clientAddr c) (clientList g)"

definition dev_limit :: "igmpdb \<Rightarrow> pkt \<Rightarrow> bool" where
  "dev_limit db p = (case pver p of
     IP_VERSION4 \<Rightarrow> at_limit (igmpMaxGroupSize (devConf p)) (dev_joins db (moduleIndex p) IP_VERSION4 (devIfindex p))
   | IP_VERSION6 \<Rightarrow> at_limit (igmp6MaxGroupSize (devConf p)) (dev_joins db (moduleIndex p) IP_VERSION6 (devIfindex p)))"

text \<open>The limits that only a new group, or a group that is new on the device, can exceed.\<close>

definition group_over :: "policy \<Rightarrow> pkt \<Rightarrow> addr \<Rightarrow> igmpdb \<Rightarrow> bool \<times> igmpdb" where
  "group_over pol p ga db =
     (let m = moduleIndex p; v = pver p; bc = brDevConf pol m;
          n4 = length (groups_of db m IP_VERSION4); n6 = length (groups_of db m IP_VERSION6)
      in case rtk_igmp_searchGroupEntry db m v ga of
           None \<Rightarrow>
             if at_limit (sysIp4MaxGroupSize bc) n4 \<or> at_limit (sysIp6MaxGroupSize bc) n6 \<or> at_limit (sysMaxGroupSize bc) (n4 + n6)
             then (True, db)
             else (case rtk_igmp_weightOverCheck pol p ga db of (room, db') \<Rightarrow> (\<not> room \<or> dev_limit db p, db'))
         | Some g \<Rightarrow> (\<not> group_dev_hit db m v ga (devIfindex p) \<and> dev_limit db p, db))"

text \<open>
  The limits on the joins of a known client and on the number of clients.  The client of an IPv4
  report is a new one to the IPv6 half of the test, and the other way round.
\<close>

definition client_over :: "policy \<Rightarrow> pkt \<Rightarrow> addr \<Rightarrow> igmpdb \<Rightarrow> ipver \<Rightarrow> bool" where
  "client_over pol p ga db v =
     (let m = moduleIndex p; bc = brDevConf pol m;
          joins = (if pver p = v then joins_of db m v (saddr p) else 0);
          perClient = (case v of IP_VERSION4 \<Rightarrow> perIp4ClientMaxJoinGroupSize bc | IP_VERSION6 \<Rightarrow> perIp6ClientMaxJoinGroupSize bc);
          maxClient = (case v of IP_VERSION4 \<Rightarrow> sysIp4MaxClientSize bc | IP_VERSION6 \<Rightarrow> sysIp6MaxClientSize bc)
      in if joins \<noteq> 0
         then (case rtk_igmp_searchGroupEntry db m (pver p) ga of
                 None \<Rightarrow> at_limit perClient joins
               | Some g \<Rightarrow> \<not> client_in_group (saddr p) g \<and> at_limit perClient joins)
         else at_limit maxClient (client_total db m v) \<or>
              at_limit (sysMaxClientSize bc) (client_total db m IP_VERSION4 + client_total db m IP_VERSION6))"

definition count_join :: "pkt \<Rightarrow> igmpdb \<Rightarrow> igmpdb" where
  "count_join p db = db\<lparr>stats := (stats db)\<lparr>
     devJoinCnt := bump (devIfindex p) (pver p) (devJoinCnt (stats db)),
     brJoinCnt := bump (moduleIndex p) (pver p) (brJoinCnt (stats db))\<rparr>\<rparr>"

definition rtk_igmp_group_limitCheck :: "policy \<Rightarrow> pkt \<Rightarrow> addr \<Rightarrow> nf_ret \<Rightarrow> igmpdb \<Rightarrow> nf_ret \<times> igmpdb" where
  "rtk_igmp_group_limitCheck pol p ga overLimitAction db =
     (let db = count_join p db in
      case group_over pol p ga db of (over, db) \<Rightarrow>
        if over \<or> client_over pol p ga db IP_VERSION4 \<or> client_over pol p ga db IP_VERSION6
        then (overLimitAction, db) else (RTK_IGMP_NF_CONTINUE, db))"

section \<open>Admission of a report\<close>

text \<open>The checks every report goes through; \<open>None\<close> when it is to be learnt.\<close>

definition admit :: "policy \<Rightarrow> pkt \<Rightarrow> bool \<Rightarrow> addr \<Rightarrow> addr option \<Rightarrow> igmpdb \<Rightarrow> nf_ret option \<times> igmpdb" where
  "admit pol p v3 ga src db =
     (let resv = (case rtk_igmp_checkGroupToPsTbl (resvGroups pol) (pver p) ga of Some r \<Rightarrow> \<not> isCopy2cpu r | None \<Rightarrow> False)
      in if resv then (Some RTK_IGMP_NF_ACCEPT, db)
         else case rtk_igmp_group_limitCheck pol p ga RTK_IGMP_NF_DROP db of (ret, db) \<Rightarrow>
           if ret \<noteq> RTK_IGMP_NF_CONTINUE then (Some ret, db)
           else if \<not> rtk_igmp_filterWhiteListCheck (whiteList pol) (devIfindex p) (pver p) v3 ga (saddr p) src (smac p)
           then (Some RTK_IGMP_NF_DROP, db) else (None, db))"

text \<open>Admission changes nothing but the counters.\<close>

definition only_stats :: "igmpdb \<Rightarrow> igmpdb \<Rightarrow> bool" where
  "only_stats db db' \<longleftrightarrow> (\<exists>st. db' = db\<lparr>stats := st\<rparr>)"

lemma only_stats_refl: "only_stats db db"
  unfolding only_stats_def by (rule exI [of _ "stats db"]) simp

lemma only_stats_upd: "only_stats db (db\<lparr>stats := st\<rparr>)"
  unfolding only_stats_def by blast

lemma only_stats_trans: "only_stats db db' \<Longrightarrow> only_stats db' db'' \<Longrightarrow> only_stats db db''"
  by (auto simp: only_stats_def)

lemma weightOver_frame: "only_stats db (snd (rtk_igmp_weightOverCheck pol p ga db))"
  unfolding rtk_igmp_weightOverCheck_def Let_def snd_conv by (rule only_stats_upd)

lemma group_over_frame: "only_stats db (snd (group_over pol p ga db))"
  unfolding group_over_def Let_def
  by (simp add: weightOver_frame only_stats_refl case_prod_beta split: option.split)

lemma limitCheck_frame: "only_stats db (snd (rtk_igmp_group_limitCheck pol p ga act db))"
proof -
  have "only_stats db (count_join p db)" unfolding count_join_def by (rule only_stats_upd)
  then show ?thesis
    using only_stats_trans group_over_frame unfolding rtk_igmp_group_limitCheck_def Let_def case_prod_beta by (simp add: if_distrib)
qed

lemma admit_frame: "only_stats db (snd (admit pol p v3 ga src db))"
  unfolding admit_def Let_def case_prod_beta by (simp add: limitCheck_frame only_stats_refl)

end
