(* ===== verification/Igmp.thy ===== *)
theory Igmp
  imports Igmp_Limit
begin

text \<open>
  What the reports do to the database: joins and leaves, the six record types of IGMPv3 and MLDv2,
  and the loop over the records of a report.
\<close>

section \<open>Learning from a report\<close>

definition aging_time :: "pkt \<Rightarrow> u32" where
  "aging_time p = (case pver p of IP_VERSION4 \<Rightarrow> igmpMcMemberAgingInterval (devConf p)
     | IP_VERSION6 \<Rightarrow> igmp6McMemberAgingInterval (devConf p))"

definition last_aging_time :: "pkt \<Rightarrow> u32" where
  "last_aging_time p = (case pver p of IP_VERSION4 \<Rightarrow> igmpMcLastMemberAgingInterval (devConf p)
     | IP_VERSION6 \<Rightarrow> igmp6McLastMemberAgingInterval (devConf p))"

definition fast_leave :: "pkt \<Rightarrow> bool" where
  "fast_leave p = (case pver p of IP_VERSION4 \<Rightarrow> igmpfastLeave (devConf p) | IP_VERSION6 \<Rightarrow> igmp6fastLeave (devConf p))"

text \<open>Find the group or create it; false when the pool is empty.\<close>

definition enter_group :: "pkt \<Rightarrow> addr \<Rightarrow> igmpdb \<Rightarrow> bool \<times> igmpdb" where
  "enter_group p ga db = (case rtk_igmp_searchGroupEntry db (moduleIndex p) (pver p) ga of
     Some g \<Rightarrow> (True, db)
   | None \<Rightarrow> (case rtk_igmp_allocateGroupEntry db of
       None \<Rightarrow> (False, db)
     | Some db \<Rightarrow> (True, rtk_igmp_linkGroupEntry (moduleIndex p) (pver p) ga db)))"

text \<open>Find the client in its group or create it, and then whether it is new.\<close>

definition enter_client :: "pkt \<Rightarrow> addr \<Rightarrow> igmpdb \<Rightarrow> bool option \<times> igmpdb" where
  "enter_client p ga db = (case rtk_igmp_searchGroupEntry db (moduleIndex p) (pver p) ga of
     None \<Rightarrow> (None, db)
   | Some g \<Rightarrow> (case rtk_igmp_searchClientEntry p g of
       Some g' \<Rightarrow> (Some False, upd_group (moduleIndex p) (pver p) ga (\<lambda>_. g') db)
     | None \<Rightarrow> (case rtk_igmp_allocateClientEntry p db of
         None \<Rightarrow> (None, db)
       | Some (c, db) \<Rightarrow> (Some True, upd_group (moduleIndex p) (pver p) ga (rtk_igmp_linkClientEntry c) db))))"

definition enter :: "pkt \<Rightarrow> addr \<Rightarrow> igmpdb \<Rightarrow> bool option \<times> igmpdb" where
  "enter p ga db = (case enter_group p ga db of (False, db) \<Rightarrow> (None, db) | (True, db) \<Rightarrow> enter_client p ga db)"

text \<open>Work on the entry of the client, with the pool of sources.\<close>

type_synonym client_body = "u32 \<Rightarrow> clientEntry \<Rightarrow> nat \<Rightarrow> bool \<times> clientEntry \<times> nat"

definition client_of :: "igmpdb \<Rightarrow> nat \<Rightarrow> ipver \<Rightarrow> addr \<Rightarrow> addr \<Rightarrow> u8 list \<Rightarrow> clientEntry option" where
  "client_of db m v ga ca mac = (case rtk_igmp_searchGroupEntry db m v ga of
     None \<Rightarrow> None | Some g \<Rightarrow> find (is_client v ca mac) (clientList g))"

definition on_client :: "pkt \<Rightarrow> addr \<Rightarrow> client_body \<Rightarrow> igmpdb \<Rightarrow> bool \<times> igmpdb" where
  "on_client p ga body db = (case client_of db (moduleIndex p) (pver p) ga (saddr p) (smac p) of
     None \<Rightarrow> (True, db)
   | Some c \<Rightarrow> (case body (sysUpSeconds db) c (source_free db) of (ok, c', free) \<Rightarrow>
       (ok, upd_group (moduleIndex p) (pver p) ga
          (\<lambda>g. g\<lparr>clientList := update_first (is_client (pver p) (saddr p) (smac p)) (\<lambda>_. c') (clientList g)\<rparr>)
          (db\<lparr>source_free := free\<rparr>))))"

definition tag_client :: "pkt \<Rightarrow> clientEntry \<Rightarrow> clientEntry" where
  "tag_client p c =
     (let c = (if ingressCtagif p then c\<lparr>reportCtagif := True, reportVlanId := ingressCvid p\<rparr> else c)
      in if ingressStagif p then c\<lparr>reportStagif := True, reportSVlanId := ingressSvid p\<rparr> else c)"

section \<open>Join and leave\<close>

definition join_body :: "pkt \<Rightarrow> u8 \<Rightarrow> client_body" where
  "join_body p ptype now c free =
     (let c = tag_client p c;
          c = c\<lparr>igmpVersion := (case pver p of IP_VERSION4 \<Rightarrow> if ptype = 0x12 then IGMP_V1 else IGMP_V2 | IP_VERSION6 \<Rightarrow> MLD_V1)\<rparr>;
          (ss, free) = rtk_igmp_deleteSourceList (sourceList c, free)
      in (True, c\<lparr>sourceList := ss, groupFilterTimer := now + aging_time p\<rparr>, free))"

text \<open>The group of an IPv4 report is only read from a version 1 or 2 report.\<close>

definition join_group :: "pkt \<Rightarrow> u8 \<Rightarrow> addr \<Rightarrow> addr" where
  "join_group p ptype a = (case pver p of
     IP_VERSION4 \<Rightarrow> if ptype = 0x12 \<or> ptype = 0x16 then Addr (a0 a) 0 0 0 else Addr 0 0 0 0
   | IP_VERSION6 \<Rightarrow> a)"

definition rtk_igmp_processJoin :: "policy \<Rightarrow> pkt \<Rightarrow> u8 \<Rightarrow> addr \<Rightarrow> igmpdb \<Rightarrow> nf_ret \<times> igmpdb" where
  "rtk_igmp_processJoin pol p ptype a db =
     (let ga = join_group p ptype a in
      case admit pol p False ga None db of
        (Some r, db) \<Rightarrow> (r, db)
      | (None, db) \<Rightarrow> (case enter p ga db of
          (None, db) \<Rightarrow> (RTK_IGMP_NF_ACCEPT, db)
        | (Some _, db) \<Rightarrow>
            let db = snd (on_client p ga (join_body p ptype) db)
            in (RTK_IGMP_NF_ACCEPT, call (ReflushFlow ga) db)))"

text \<open>A leave shortens the timers of the client and its sources.\<close>

definition leave_body :: "pkt \<Rightarrow> client_body" where
  "leave_body p now c free =
     (let t = now + last_aging_time p
      in (True, c\<lparr>sourceList := map (\<lambda>s. if portTimer s > t then s\<lparr>portTimer := t\<rparr> else s) (sourceList c),
                groupFilterTimer := (if groupFilterTimer c > t then t else groupFilterTimer c)\<rparr>, free))"

definition rtk_igmp_processLeave :: "pkt \<Rightarrow> addr \<Rightarrow> igmpdb \<Rightarrow> nf_ret \<times> igmpdb" where
  "rtk_igmp_processLeave p ga db =
     (let m = moduleIndex p; v = pver p;
          db = (case rtk_igmp_searchGroupEntry db m v ga of
             None \<Rightarrow> db
           | Some g \<Rightarrow>
               (case rtk_igmp_searchClientEntry p g of
                  None \<Rightarrow> db
                | Some g' \<Rightarrow>
                    let db = upd_group m v ga (\<lambda>_. g') db
                    in if fast_leave p then rtk_igmp_deleteClientEntry m ga p db
                       else snd (on_client p ga (leave_body p) db)));
          db = (case rtk_igmp_searchGroupEntry db m v ga of
             Some g \<Rightarrow> if clientList g = [] then rtk_igmp_deleteGroupEntry m v ga db else db
           | None \<Rightarrow> db)
      in (RTK_IGMP_NF_ACCEPT, if fast_leave p then call (ReflushFlow ga) db else db))"

section \<open>Records of IGMPv3 and MLDv2\<close>

record group_record =
  rtype :: u8
  auxLen :: nat
  rgroup :: addr
  srcList :: "addr list"

definition v3_client :: "pkt \<Rightarrow> clientEntry \<Rightarrow> clientEntry" where
  "v3_client p c = c\<lparr>igmpVersion := (case pver p of IP_VERSION4 \<Rightarrow> IGMP_V3 | IP_VERSION6 \<Rightarrow> MLD_V2)\<rparr>"

text \<open>Replace the source list of a client by the result of a loop over the sources of a record.\<close>

definition with_sources :: "clientEntry \<Rightarrow> bool \<times> src_state \<Rightarrow> bool \<times> clientEntry \<times> nat" where
  "with_sources c r = (case r of (ok, ss, free) \<Rightarrow> (ok, c\<lparr>sourceList := ss\<rparr>, free))"

text \<open>Refresh a source or record it.\<close>

definition refresh_source :: "ipver \<Rightarrow> u32 \<Rightarrow> addr \<Rightarrow> src_state \<Rightarrow> src_state option" where
  "refresh_source v t a st = (case rtk_igmp_searchSourceEntry v a (fst st) of
     Some s \<Rightarrow> Some (upd_source v a (\<lambda>s. s\<lparr>portTimer := t\<rparr>) st)
   | None \<Rightarrow> link_new_source a t st)"

definition isInclude_body :: "pkt \<Rightarrow> addr list \<Rightarrow> bool \<Rightarrow> client_body" where
  "isInclude_body p srcs new now c free =
     (let c = (if new then c\<lparr>groupFilterTimer := now\<rparr> else c);
          c = v3_client p (tag_client p c);
          t = now + aging_time p
      in if fast_leave p
         then let c = c\<lparr>groupFilterTimer := now\<rparr>
              in with_sources c (each_source (\<lambda>a. link_new_source a t) srcs (rtk_igmp_deleteSourceList (sourceList c, free)))
         else with_sources c (each_source (refresh_source (pver p) t) srcs (sourceList c, free)))"

text \<open>
  One source of an exclude record: recorded sources are kept, with the timer of an expired one reset
  to now; an unrecorded one is asked for in exclude mode and blocked in include mode.
\<close>

definition exclude_source :: "ipver \<Rightarrow> u32 \<Rightarrow> u32 \<Rightarrow> bool \<Rightarrow> addr \<Rightarrow> src_state \<Rightarrow> src_state option" where
  "exclude_source v now t ex_mode a st = (case rtk_igmp_searchSourceEntry v a (fst st) of
     Some s \<Rightarrow>
       if ex_mode
       then Some (upd_source v a (\<lambda>s. (if portTimer s \<le> now then s\<lparr>portTimer := now\<rparr> else s)\<lparr>setOpFlag := False\<rparr>) st)
       else Some (upd_source v a (\<lambda>s. s\<lparr>setOpFlag := False\<rparr>) st)
   | None \<Rightarrow> link_new_source a (if ex_mode then t else now) st)"

definition isExclude_body :: "pkt \<Rightarrow> addr list \<Rightarrow> bool \<Rightarrow> client_body" where
  "isExclude_body p srcs new now c free =
     (let c = v3_client p (tag_client p c);
          t = now + aging_time p
      in case each_source (exclude_source (pver p) now t (groupFilterTimer c > now)) srcs (flag_all (sourceList c, free)) of
           (False, st) \<Rightarrow> with_sources c (False, st)
         | (True, st) \<Rightarrow> with_sources (c\<lparr>groupFilterTimer := t\<rparr>) (True, delete_flagged st))"

text \<open>The first loop of a change to include mode: flag the live sources and shorten their timers.\<close>

definition shorten_source :: "u32 \<Rightarrow> u32 \<Rightarrow> sourceEntry \<Rightarrow> sourceEntry" where
  "shorten_source now t s =
     (let s = s\<lparr>setOpFlag := portTimer s > now\<rparr>
      in if portTimer s > t then s\<lparr>portTimer := t\<rparr> else s)"

definition toInclude_source :: "ipver \<Rightarrow> u32 \<Rightarrow> addr \<Rightarrow> src_state \<Rightarrow> src_state option" where
  "toInclude_source v t a st = (case rtk_igmp_searchSourceEntry v a (fst st) of
     Some s \<Rightarrow> Some (upd_source v a (\<lambda>s. s\<lparr>portTimer := t, setOpFlag := False\<rparr>) st)
   | None \<Rightarrow> link_new_source a t st)"

definition toInclude_body :: "pkt \<Rightarrow> addr list \<Rightarrow> bool \<Rightarrow> client_body" where
  "toInclude_body p srcs new now c free =
     (let c = v3_client p (tag_client p c);
          t = now + aging_time p;
          l = now + last_aging_time p
      in if fast_leave p
         then let c = c\<lparr>groupFilterTimer := now\<rparr>
              in with_sources c (each_source (\<lambda>a. link_new_source a t) srcs (rtk_igmp_deleteSourceList (sourceList c, free)))
         else case each_source (toInclude_source (pver p) t) srcs (map (shorten_source now l) (sourceList c), free) of
             (False, st) \<Rightarrow> with_sources c (False, st)
           | (True, st) \<Rightarrow> with_sources (if groupFilterTimer c > l then c\<lparr>groupFilterTimer := l\<rparr> else c) (True, st))"

text \<open>
  The loop of a change to exclude mode.  Its \<open>continue\<close> statements leave the pointer to the current
  source where it is, except for an expired source of exclude mode and a new one of include mode:
  \<open>n\<close> rounds are left and \<open>ps\<close> starts at the pointer.
\<close>

fun toExclude_loop :: "ipver \<Rightarrow> u32 \<Rightarrow> u32 \<Rightarrow> nat \<Rightarrow> addr list \<Rightarrow> src_state \<Rightarrow> bool \<times> src_state" where
  "toExclude_loop v now gft 0 ps st = (True, st)"
| "toExclude_loop v now gft (Suc n) [] st = (True, st)"
| "toExclude_loop v now gft (Suc n) (a # ps) st =
     (case rtk_igmp_searchSourceEntry v a (fst st) of
        Some s \<Rightarrow>
          let st = upd_source v a (\<lambda>s. s\<lparr>setOpFlag := False\<rparr>) st
          in if gft > now \<and> \<not> portTimer s > now then toExclude_loop v now gft n ps st
             else toExclude_loop v now gft n (a # ps) st
      | None \<Rightarrow>
          (case link_new_source a (if gft > now then gft else now) st of
             None \<Rightarrow> (False, st)
           | Some st \<Rightarrow> toExclude_loop v now gft n (if gft > now then a # ps else ps) st))"

definition toExclude_body :: "pkt \<Rightarrow> addr list \<Rightarrow> bool \<Rightarrow> client_body" where
  "toExclude_body p srcs new now c free =
     (let c = v3_client p (tag_client p c)
      in case toExclude_loop (pver p) now (groupFilterTimer c) (length srcs) srcs (flag_all (sourceList c, free)) of
           (False, st) \<Rightarrow> with_sources c (False, st)
         | (True, st) \<Rightarrow> with_sources (c\<lparr>groupFilterTimer := now + aging_time p\<rparr>) (True, delete_flagged st))"

definition allow_body :: "pkt \<Rightarrow> addr list \<Rightarrow> bool \<Rightarrow> client_body" where
  "allow_body p srcs new now c free =
     (let c = (if new then c\<lparr>groupFilterTimer := now\<rparr> else c);
          c = v3_client p (tag_client p c)
      in with_sources c (each_source (refresh_source (pver p) (now + aging_time p)) srcs (sourceList c, free)))"

text \<open>
  The loops over blocked sources.  Here too the pointer moves on only for an expired source (exclude
  mode) or an unknown one (include mode).
\<close>

fun block_ex_loop :: "ipver \<Rightarrow> bool \<Rightarrow> u32 \<Rightarrow> u32 \<Rightarrow> nat \<Rightarrow> addr list \<Rightarrow> src_state \<Rightarrow> bool \<times> src_state" where
  "block_ex_loop v fast now gft 0 ps st = (True, st)"
| "block_ex_loop v fast now gft (Suc n) [] st = (True, st)"
| "block_ex_loop v fast now gft (Suc n) (a # ps) st =
     (case rtk_igmp_searchSourceEntry v a (fst st) of
        Some s \<Rightarrow>
          let t = (if fast then now else portTimer s);
              st = upd_source v a (\<lambda>s. s\<lparr>portTimer := t\<rparr>) st
          in if t > now then block_ex_loop v fast now gft n (a # ps) st
             else block_ex_loop v fast now gft n ps st
      | None \<Rightarrow>
          (case link_new_source a gft st of
             None \<Rightarrow> (False, st)
           | Some st \<Rightarrow> block_ex_loop v fast now gft n (a # ps) st))"

fun block_in_loop :: "ipver \<Rightarrow> bool \<Rightarrow> u32 \<Rightarrow> nat \<Rightarrow> addr list \<Rightarrow> src_state \<Rightarrow> src_state" where
  "block_in_loop v fast now 0 ps st = st"
| "block_in_loop v fast now (Suc n) [] st = st"
| "block_in_loop v fast now (Suc n) (a # ps) st =
     (case rtk_igmp_searchSourceEntry v a (fst st) of
        Some s \<Rightarrow> block_in_loop v fast now n (a # ps) (if fast then upd_source v a (\<lambda>s. s\<lparr>portTimer := now\<rparr>) st else st)
      | None \<Rightarrow> block_in_loop v fast now n ps st)"

definition block_body :: "pkt \<Rightarrow> addr list \<Rightarrow> client_body" where
  "block_body p srcs now c free =
     (let c = v3_client p c
      in if groupFilterTimer c > now
         then with_sources c (block_ex_loop (pver p) (fast_leave p) now (groupFilterTimer c) (length srcs) srcs (sourceList c, free))
         else with_sources c (True, block_in_loop (pver p) (fast_leave p) now (length srcs) srcs (sourceList c, free)))"

text \<open>The frame that the records which create entries share.\<close>

definition learn :: "policy \<Rightarrow> pkt \<Rightarrow> addr \<Rightarrow> addr option \<Rightarrow> (bool \<Rightarrow> client_body) \<Rightarrow> igmpdb \<Rightarrow> nf_ret \<times> igmpdb" where
  "learn pol p ga src body db = (case admit pol p True ga src db of
     (Some r, db) \<Rightarrow> (r, db)
   | (None, db) \<Rightarrow> (case enter p ga db of
       (None, db) \<Rightarrow> (RTK_IGMP_NF_DROP, db)
     | (Some new, db) \<Rightarrow> (case on_client p ga (body new) db of
         (False, db) \<Rightarrow> (RTK_IGMP_NF_DROP, db)
       | (True, db) \<Rightarrow> (RTK_IGMP_NF_CONTINUE, call (ReflushFlow ga) db))))"

definition single :: "addr list \<Rightarrow> addr option" where
  "single as = (case as of [a] \<Rightarrow> Some a | _ \<Rightarrow> None)"

definition rtk_igmp_processIsInclude :: "policy \<Rightarrow> pkt \<Rightarrow> group_record \<Rightarrow> igmpdb \<Rightarrow> nf_ret \<times> igmpdb" where
  "rtk_igmp_processIsInclude pol p r db = learn pol p (rgroup r) (single (srcList r)) (isInclude_body p (srcList r)) db"

definition rtk_igmp_processIsExclude :: "policy \<Rightarrow> pkt \<Rightarrow> group_record \<Rightarrow> igmpdb \<Rightarrow> nf_ret \<times> igmpdb" where
  "rtk_igmp_processIsExclude pol p r db = learn pol p (rgroup r) None (isExclude_body p (srcList r)) db"

definition rtk_igmp_processToInclude :: "policy \<Rightarrow> pkt \<Rightarrow> group_record \<Rightarrow> igmpdb \<Rightarrow> nf_ret \<times> igmpdb" where
  "rtk_igmp_processToInclude pol p r db = learn pol p (rgroup r) (single (srcList r)) (toInclude_body p (srcList r)) db"

definition rtk_igmp_processToExclude :: "policy \<Rightarrow> pkt \<Rightarrow> group_record \<Rightarrow> igmpdb \<Rightarrow> nf_ret \<times> igmpdb" where
  "rtk_igmp_processToExclude pol p r db = learn pol p (rgroup r) None (toExclude_body p (srcList r)) db"

definition rtk_igmp_processAllow :: "policy \<Rightarrow> pkt \<Rightarrow> group_record \<Rightarrow> igmpdb \<Rightarrow> nf_ret \<times> igmpdb" where
  "rtk_igmp_processAllow pol p r db = learn pol p (rgroup r) (single (srcList r)) (allow_body p (srcList r)) db"

definition rtk_igmp_processBlock :: "policy \<Rightarrow> pkt \<Rightarrow> group_record \<Rightarrow> igmpdb \<Rightarrow> nf_ret \<times> igmpdb" where
  "rtk_igmp_processBlock pol p r db =
     (let m = moduleIndex p; v = pver p; ga = rgroup r in
      case admit pol p True ga None db of
        (Some ret, db) \<Rightarrow> (ret, db)
      | (None, db) \<Rightarrow>
          (case Option.bind (rtk_igmp_searchGroupEntry db m v ga) (rtk_igmp_searchClientEntry p) of
             None \<Rightarrow> (RTK_IGMP_NF_CONTINUE, call (ReflushFlow ga) db)
           | Some g' \<Rightarrow>
               (case on_client p ga (block_body p (srcList r)) (upd_group m v ga (\<lambda>_. g') db) of
                  (False, db) \<Rightarrow> (RTK_IGMP_NF_DROP, db)
                | (True, db) \<Rightarrow> (RTK_IGMP_NF_CONTINUE, call (ReflushFlow ga) db))))"

section \<open>Reports\<close>

text \<open>
  The layout of a report is that of RFC 3376 and RFC 3810: the number of records is at offset 6 and
  the first record at 8; a record has its type, the length of its auxiliary data, the number of
  sources and the group at offsets 0, 1, 2 and 4.  \<open>mem\<close> is the memory behind the start of the IGMP
  or ICMPv6 header, also beyond the end of the packet.
\<close>

type_synonym packet_mem = "nat \<Rightarrow> u8"

definition be16_at :: "packet_mem \<Rightarrow> nat \<Rightarrow> nat" where
  "be16_at mem off = unat (mem off) * 256 + unat (mem (off + 1))"

definition be32_at :: "packet_mem \<Rightarrow> nat \<Rightarrow> u32" where
  "be32_at mem off = push_bit 24 (ucast (mem off)) OR push_bit 16 (ucast (mem (off + 1))) OR
     push_bit 8 (ucast (mem (off + 2))) OR ucast (mem (off + 3))"

definition addr_at :: "ipver \<Rightarrow> packet_mem \<Rightarrow> nat \<Rightarrow> addr" where
  "addr_at v mem off = (case v of
     IP_VERSION4 \<Rightarrow> Addr (be32_at mem off) 0 0 0
   | IP_VERSION6 \<Rightarrow> Addr (be32_at mem off) (be32_at mem (off + 4)) (be32_at mem (off + 8)) (be32_at mem (off + 12)))"

definition addr_len :: "ipver \<Rightarrow> nat" where
  "addr_len v = (case v of IP_VERSION4 \<Rightarrow> 4 | IP_VERSION6 \<Rightarrow> 16)"

definition record_at :: "ipver \<Rightarrow> packet_mem \<Rightarrow> nat \<Rightarrow> group_record" where
  "record_at v mem off =
     \<lparr>rtype = mem off, auxLen = unat (mem (off + 1)), rgroup = addr_at v mem (off + 4),
      srcList = map (\<lambda>j. addr_at v mem (off + 4 + addr_len v + j * addr_len v)) [0..<be16_at mem (off + 2)]\<rparr>"

text \<open>The distance to the next record.\<close>

definition record_len :: "ipver \<Rightarrow> group_record \<Rightarrow> nat" where
  "record_len v r = 4 + addr_len v + length (srcList r) * addr_len v + auxLen r * 4"

text \<open>An unknown type leaves the return value at 0, which is \<open>ret0\<close> as an \<open>rtk_igmp_nf_ret_e_t\<close>.\<close>

definition process_record :: "policy \<Rightarrow> pkt \<Rightarrow> nf_ret \<Rightarrow> group_record \<Rightarrow> igmpdb \<Rightarrow> nf_ret \<times> igmpdb" where
  "process_record pol p ret0 r db =
     (if rtype r = 1 then rtk_igmp_processIsInclude pol p r db
      else if rtype r = 2 then rtk_igmp_processIsExclude pol p r db
      else if rtype r = 3 then rtk_igmp_processToInclude pol p r db
      else if rtype r = 4 then rtk_igmp_processToExclude pol p r db
      else if rtype r = 5 then rtk_igmp_processAllow pol p r db
      else if rtype r = 6 then rtk_igmp_processBlock pol p r db
      else (ret0, db))"

text \<open>
  The loop over the records: only the start of a record is compared with the length of the data,
  and the verdict of a record counts only when it is the only one.
\<close>

fun report_loop :: "policy \<Rightarrow> pkt \<Rightarrow> nf_ret \<Rightarrow> packet_mem \<Rightarrow> nat \<Rightarrow> nat \<Rightarrow> nat \<Rightarrow> nat \<Rightarrow> igmpdb \<Rightarrow> nf_ret \<times> igmpdb" where
  "report_loop pol p ret0 mem dataLen numOfRecords 0 off db = (RTK_IGMP_NF_ACCEPT, db)"
| "report_loop pol p ret0 mem dataLen numOfRecords (Suc n) off db =
     (if off > dataLen then (RTK_IGMP_NF_ACCEPT, db)
      else let r = record_at (pver p) mem off in
        case process_record pol p ret0 r db of (ret, db) \<Rightarrow>
          if numOfRecords = 1 \<and> (ret = RTK_IGMP_NF_DROP \<or> ret = RTK_IGMP_NF_ACCEPT) then (ret, db)
          else report_loop pol p ret0 mem dataLen numOfRecords n (off + record_len (pver p) r) db)"

definition rtk_igmp_processIgmpv3Mldv2Reports :: "policy \<Rightarrow> pkt \<Rightarrow> nf_ret \<Rightarrow> packet_mem \<Rightarrow> nat \<Rightarrow> igmpdb \<Rightarrow> nf_ret \<times> igmpdb" where
  "rtk_igmp_processIgmpv3Mldv2Reports pol p ret0 mem dataLen db =
     report_loop pol p ret0 mem dataLen (be16_at mem 6) (be16_at mem 6) 8 db"

end
