(* ===== verification/Igmp_Hook.thy ===== *)
theory Igmp_Hook
  imports Igmp
begin

text \<open>
  The entry points of the multicast snooping: the packet hook with its rate limit, the black list
  and the version switches, the system timer, the removal of a device and the flush of a bridge,
  and the decision which ports a data packet is sent to.
\<close>

section \<open>Time\<close>

definition CONFIG_HZ :: int where "CONFIG_HZ = 100"

record clock =
  lastjiffies :: u32
  lastTimer :: u32

definition rtk_igmp_getTimeSec :: "u32 \<Rightarrow> clock \<Rightarrow> u32 \<times> clock" where
  "rtk_igmp_getTimeSec jiffies ck =
     (let d = (if jiffies > lastjiffies ck then jiffies - lastjiffies ck
               else 0xffffffff - (lastjiffies ck - jiffies));
          t = lastTimer ck + word_of_int (c_div (sint d) CONFIG_HZ)
      in (t, \<lparr>lastjiffies = jiffies, lastTimer = t\<rparr>))"

text \<open>
  The rate limit of a device: at most \<open>rate\<close> packets in a cycle of \<open>dur\<close> jiffies.
\<close>

record ratelimit =
  cycle_start_time :: u32
  rl_counter :: u32

definition rl_diff :: "u32 \<Rightarrow> u32 \<Rightarrow> u32" where
  "rl_diff now start = (if now < start then (0xffffffff - start) + now else now - start)"

definition check_rate_limit :: "u32 \<Rightarrow> u32 \<Rightarrow> u32 \<Rightarrow> ratelimit \<Rightarrow> bool \<times> ratelimit" where
  "check_rate_limit dur rate now rl =
     (let diff = rl_diff now (cycle_start_time rl)
      in if diff > dur then (True, \<lparr>cycle_start_time = now - diff mod dur, rl_counter = 1\<rparr>)
         else if rl_counter rl < rate then (True, rl\<lparr>rl_counter := rl_counter rl + 1\<rparr>)
         else (False, rl))"

section \<open>Timers of the database\<close>

definition rtk_igmp_checkSourceTimer :: "u32 \<Rightarrow> u32 \<Rightarrow> sourceEntry \<Rightarrow> sourceEntry option \<times> bool" where
  "rtk_igmp_checkSourceTimer now gft s =
     (if portTimer s \<le> now
      then (if gft \<le> now then (None, True) else (Some (s\<lparr>fwdState := False\<rparr>), fwdState s))
      else (Some (s\<lparr>fwdState := True\<rparr>), \<not> fwdState s))"

text \<open>
  A client after its timers: the sources that stay and whether the flows have to be refreshed.
  The client goes when it has no port to be served on.
\<close>

definition live_sources :: "u32 \<Rightarrow> clientEntry \<Rightarrow> sourceEntry list" where
  "live_sources now c = List.map_filter (\<lambda>s. fst (rtk_igmp_checkSourceTimer now (groupFilterTimer c) s)) (sourceList c)"

definition rtk_igmp_checkClientEntryTimer :: "u32 \<Rightarrow> u32 \<Rightarrow> addr \<Rightarrow> clientEntry \<Rightarrow> igmpdb \<Rightarrow> clientEntry option \<times> igmpdb" where
  "rtk_igmp_checkClientEntryTimer now timer_sec ga c db =
     (let old = rtk_igmp_getClientFwdIfIdx c now;
          srcChange = list_ex (\<lambda>s. snd (rtk_igmp_checkSourceTimer now (groupFilterTimer c) s)) (sourceList c);
          c' = c\<lparr>sourceList := live_sources now c\<rparr>;
          db = db\<lparr>source_free := source_free db + (length (sourceList c) - length (sourceList c'))\<rparr>;
          new = rtk_igmp_getClientFwdIfIdx c' now;
          cltChange = (groupFilterTimer c \<le> now \<and> now - groupFilterTimer c \<le> timer_sec);
          refresh = (\<lambda>db. if old \<noteq> new \<or> new = None \<or> cltChange \<or> srcChange then call (ReflushFlow ga) db else db)
      in if new = None
         then (None, refresh (db\<lparr>source_free := source_free db + length (sourceList c'), client_free := client_free db + 1\<rparr>))
         else (Some c', refresh db))"

fun tick_clients :: "u32 \<Rightarrow> u32 \<Rightarrow> addr \<Rightarrow> clientEntry list \<Rightarrow> igmpdb \<Rightarrow> clientEntry list \<times> igmpdb" where
  "tick_clients now timer_sec ga [] db = ([], db)"
| "tick_clients now timer_sec ga (c # cs) db =
     (case rtk_igmp_checkClientEntryTimer now timer_sec ga c db of (c', db) \<Rightarrow>
        case tick_clients now timer_sec ga cs db of (cs', db) \<Rightarrow> (case c' of None \<Rightarrow> cs' | Some c' \<Rightarrow> c' # cs', db))"

definition rtk_igmp_checkGroupEntryTimer :: "nat \<Rightarrow> ipver \<Rightarrow> u32 \<Rightarrow> u32 \<Rightarrow> groupEntry \<Rightarrow> igmpdb \<Rightarrow> groupEntry option \<times> igmpdb" where
  "rtk_igmp_checkGroupEntryTimer m v now timer_sec g db =
     (case tick_clients now timer_sec (groupAddr g) (clientList g) db of (cs, db) \<Rightarrow>
        if cs = []
        then (None, (call (GroupDel v (groupAddr g)) (call (InvalidateFlow m v (groupAddr g)) db))\<lparr>group_free := group_free db + 1\<rparr>)
        else (Some (g\<lparr>clientList := cs\<rparr>), db))"

fun tick_groups :: "nat \<Rightarrow> ipver \<Rightarrow> u32 \<Rightarrow> u32 \<Rightarrow> groupEntry list \<Rightarrow> igmpdb \<Rightarrow> groupEntry list \<times> igmpdb" where
  "tick_groups m v now timer_sec [] db = ([], db)"
| "tick_groups m v now timer_sec (g # gs) db =
     (case rtk_igmp_checkGroupEntryTimer m v now timer_sec g db of (g', db) \<Rightarrow>
        case tick_groups m v now timer_sec gs db of (gs', db) \<Rightarrow> (case g' of None \<Rightarrow> gs' | Some g' \<Rightarrow> g' # gs', db))"

definition tick_bucket :: "nat \<Rightarrow> ipver \<Rightarrow> u32 \<Rightarrow> u32 \<Rightarrow> nat \<Rightarrow> igmpdb \<Rightarrow> igmpdb" where
  "tick_bucket m v now timer_sec h db =
     (case tick_groups m v now timer_sec (tables db m v h) db of (gs, db) \<Rightarrow> set_bucket m v h gs db)"

text \<open>The seconds since the start, across the wrap of the counter.\<close>

definition up_seconds :: "u32 \<Rightarrow> u32 \<Rightarrow> u32" where
  "up_seconds start cur = (if cur > start then cur - start else (0xffffffff - start) + cur + 1)"

definition tick_module :: "u32 \<Rightarrow> bool \<Rightarrow> nat \<Rightarrow> igmpdb \<Rightarrow> igmpdb" where
  "tick_module timer_sec unknownFlood m db =
     (let now = sysUpSeconds db;
          db = fold (tick_bucket m IP_VERSION4 now timer_sec) [0..<IGMP_HASH_TBL_SIZE] db;
          db = fold (tick_bucket m IP_VERSION6 now timer_sec) [0..<IGMP_HASH_TBL_SIZE] db;
          db = call (AgeFlow m) db
      in if unknownFlood then call (DeleteUnknownFlow m) db else db)"

definition rtk_igmp_maintainMulticastSnoopingTimerList :: "u32 \<Rightarrow> bool \<Rightarrow> nat list \<Rightarrow> u32 \<Rightarrow> igmpdb \<Rightarrow> igmpdb" where
  "rtk_igmp_maintainMulticastSnoopingTimerList timer_sec unknownFlood ms cur db =
     fold (tick_module timer_sec unknownFlood) ms (db\<lparr>sysUpSeconds := up_seconds (startTime db) cur\<rparr>)"

section \<open>Removing a device, flushing a bridge\<close>

definition drop_dev :: "u32 \<Rightarrow> nat \<Rightarrow> ipver \<Rightarrow> nat \<Rightarrow> igmpdb \<Rightarrow> igmpdb" where
  "drop_dev d m v h db =
     (let gs = tables db m v h;
          gone = filter (\<lambda>c. inIfidx c = d) (concat (map clientList gs))
      in set_bucket m v h (map (\<lambda>g. g\<lparr>clientList := filter (\<lambda>c. inIfidx c \<noteq> d) (clientList g)\<rparr>) gs)
           (db\<lparr>client_free := client_free db + length gone,
               source_free := source_free db + sum_list (map (\<lambda>c. length (sourceList c)) gone)\<rparr>))"

definition rtk_igmp_clearDataBaseByDev :: "nat list \<Rightarrow> u32 \<Rightarrow> igmpdb \<Rightarrow> igmpdb" where
  "rtk_igmp_clearDataBaseByDev ms d db =
     fold (\<lambda>m db. fold (drop_dev d m IP_VERSION6) [0..<IGMP_HASH_TBL_SIZE]
        (fold (drop_dev d m IP_VERSION4) [0..<IGMP_HASH_TBL_SIZE] db)) ms db"

text \<open>Delete the groups of a list, head first.\<close>

fun delete_groups :: "nat \<Rightarrow> ipver \<Rightarrow> groupEntry list \<Rightarrow> igmpdb \<Rightarrow> igmpdb" where
  "delete_groups m v [] db = db"
| "delete_groups m v (g # gs) db = delete_groups m v gs (rtk_igmp_deleteGroupEntry m v (groupAddr g) db)"

text \<open>All bridges, or the one with the given interface index.\<close>

definition rtk_igmp_flush_Br_mdb :: "(nat \<Rightarrow> u32) \<Rightarrow> nat list \<Rightarrow> u32 option \<Rightarrow> ipver \<Rightarrow> igmpdb \<Rightarrow> igmpdb" where
  "rtk_igmp_flush_Br_mdb br ms ifidx v db =
     fold (\<lambda>m db. if ifidx \<noteq> None \<and> ifidx \<noteq> Some (br m) then db
        else call (InvalidateFlow m v (Addr 0 0 0 0))
          (fold (\<lambda>h db. delete_groups m v (tables db m v h) db) [0..<IGMP_HASH_TBL_SIZE] db)) ms db"

section \<open>Forwarding\<close>

text \<open>
  Whether a data packet goes to a client: with regard to its source, or to the group only.
\<close>

definition client_wants :: "bool \<Rightarrow> ipver \<Rightarrow> addr \<Rightarrow> u32 \<Rightarrow> clientEntry \<Rightarrow> bool" where
  "client_wants careSource v src now c =
     (if careSource
      then (if groupFilterTimer c \<le> now
            then (case rtk_igmp_searchSourceEntry v src (sourceList c) of None \<Rightarrow> False | Some s \<Rightarrow> portTimer s > now)
            else (case rtk_igmp_searchSourceEntry v src (sourceList c) of None \<Rightarrow> True | Some s \<Rightarrow> portTimer s > now))
      else (if groupFilterTimer c \<le> now then list_ex (\<lambda>s. portTimer s > now) (sourceList c) else True))"

text \<open>The switches of a device for one address family.\<close>

record fam_conf =
  snoopingDisable :: bool
  forwardDisable :: bool
  careSource :: bool
  rate :: u32
  verDrp :: "nat \<Rightarrow> bool"
  verIgr :: "nat \<Rightarrow> bool"
  reportDrop :: bool

text \<open>
  The devices a data packet of a known group is sent to, in the order they are entered; \<open>None\<close> for
  an unknown group.  A client on a device that is not registered is left out.
\<close>

definition mdb_egress :: "(u32 \<Rightarrow> ipver \<Rightarrow> fam_conf option) \<Rightarrow> igmpdb \<Rightarrow> nat \<Rightarrow> ipver \<Rightarrow> addr \<Rightarrow> addr \<Rightarrow> u32 list option" where
  "mdb_egress conf db m v ga src = (case rtk_igmp_searchGroupEntry db m v ga of
     None \<Rightarrow> None
   | Some g \<Rightarrow> Some (map inIfidx (filter (\<lambda>c. case conf (inIfidx c) v of
         None \<Rightarrow> False
       | Some fc \<Rightarrow> \<not> forwardDisable fc \<and> \<not> snoopingDisable fc \<and>
           client_wants (careSource fc) (ipVersion g) src (sysUpSeconds db) c) (clientList g))))"

section \<open>The packet hook\<close>

datatype igmp_msg =
    Report1 addr
  | Report2 addr
  | Report3 packet_mem nat
  | Query
  | LeaveMsg addr
  | OtherMsg

text \<open>
  The state of the hook: the database, the black list, the rate limits of the devices, the clock.
\<close>

record hook_state =
  hdb :: igmpdb
  blackList :: "black_pat rules"
  limits :: "u32 \<Rightarrow> ipver \<Rightarrow> ratelimit"
  hclock :: clock

text \<open>The environment of a call: the policy, the switches of the devices, the length of a cycle.\<close>

record hook_env =
  hpolicy :: policy
  hconf :: "u32 \<Rightarrow> ipver \<Rightarrow> fam_conf option"
  cycle_duration :: u32
  hret0 :: nf_ret

definition rate_gate :: "hook_env \<Rightarrow> u32 \<Rightarrow> fam_conf \<Rightarrow> pkt \<Rightarrow> hook_state \<Rightarrow> bool \<times> hook_state" where
  "rate_gate e now fc p s =
     (if rate fc = 0 then (True, s)
      else case check_rate_limit (cycle_duration e) (rate fc) now (limits s (devIfindex p) (pver p)) of (ok, rl) \<Rightarrow>
        (ok, s\<lparr>limits := (limits s)(devIfindex p := (limits s (devIfindex p))(pver p := rl))\<rparr>))"

text \<open>
  The version a message belongs to, and whether \<open>ReportDrop\<close> applies to it.  MLD has no message of
  a third version.
\<close>

definition msg_version :: "ipver \<Rightarrow> igmp_msg \<Rightarrow> (nat \<times> bool) option" where
  "msg_version v msg = (case msg of
     Report1 _ \<Rightarrow> Some (1, True)
   | Report2 _ \<Rightarrow> (if v = IP_VERSION4 then Some (2, True) else None)
   | Report3 _ _ \<Rightarrow> Some (if v = IP_VERSION4 then 3 else 2, True)
   | LeaveMsg _ \<Rightarrow> Some (if v = IP_VERSION4 then 2 else 1, False)
   | _ \<Rightarrow> None)"

definition msg_known :: "ipver \<Rightarrow> igmp_msg \<Rightarrow> bool" where
  "msg_known v msg = (case msg of Query \<Rightarrow> True | OtherMsg \<Rightarrow> False | _ \<Rightarrow> msg_version v msg \<noteq> None)"

definition handle_msg :: "hook_env \<Rightarrow> pkt \<Rightarrow> igmp_msg \<Rightarrow> igmpdb \<Rightarrow> nf_ret \<times> igmpdb" where
  "handle_msg e p msg db = (case msg of
     Report1 a \<Rightarrow> rtk_igmp_processJoin (hpolicy e) p 0x12 a db
   | Report2 a \<Rightarrow> rtk_igmp_processJoin (hpolicy e) p 0x16 a db
   | Report3 mem len \<Rightarrow> rtk_igmp_processIgmpv3Mldv2Reports (hpolicy e) p (hret0 e) mem len db
   | LeaveMsg a \<Rightarrow> rtk_igmp_processLeave p a db
   | _ \<Rightarrow> (RTK_IGMP_NF_ACCEPT, db))"

definition rtk_igmp_mld_process :: "hook_env \<Rightarrow> u32 \<Rightarrow> pkt \<Rightarrow> igmp_msg \<Rightarrow> hook_state \<Rightarrow> nf_ret \<times> hook_state" where
  "rtk_igmp_mld_process e now p msg s = (case hconf e (devIfindex p) (pver p) of
     None \<Rightarrow> (RTK_IGMP_NF_ACCEPT, s)
   | Some fc \<Rightarrow>
       if moduleIndex p \<notin> set (modules (hpolicy e)) then (RTK_IGMP_NF_ACCEPT, s)
       else if rtk_igmp_filterblackListCheck (blackList s) (devIfindex p) (pver p) (smac p) then (RTK_IGMP_NF_ACCEPT, s)
       else if snoopingDisable fc then (RTK_IGMP_NF_ACCEPT, s)
       else if \<not> msg_known (pver p) msg then (RTK_IGMP_NF_ACCEPT, s)
       else case rate_gate e now fc p s of (ok, s) \<Rightarrow>
         if \<not> ok then (RTK_IGMP_NF_DROP, s)
         else (case msg_version (pver p) msg of
             None \<Rightarrow> (RTK_IGMP_NF_ACCEPT, s)
           | Some (n, isReport) \<Rightarrow>
               if verDrp fc n \<or> isReport \<and> reportDrop fc then (RTK_IGMP_NF_DROP, s)
               else if verIgr fc n then (RTK_IGMP_NF_ACCEPT, s)
               else case handle_msg e p msg (hdb s) of (ret, db) \<Rightarrow> (ret, s\<lparr>hdb := db\<rparr>)))"

definition rtk_igmp_multicastSysTimerExpired :: "hook_env \<Rightarrow> u32 \<Rightarrow> bool \<Rightarrow> u32 \<Rightarrow> hook_state \<Rightarrow> hook_state" where
  "rtk_igmp_multicastSysTimerExpired e timer_sec unknownFlood jiffies s =
     (case rtk_igmp_getTimeSec jiffies (hclock s) of (t, ck) \<Rightarrow>
        s\<lparr>hdb := rtk_igmp_maintainMulticastSnoopingTimerList timer_sec unknownFlood (modules (hpolicy e)) t (hdb s), hclock := ck\<rparr>)"

end
