(* ===== verification/Igmp_Inv.thy ===== *)
theory Igmp_Inv
  imports Igmp_Hook
begin

text \<open>
  The invariant of the snooping database: every entry of the three pools is either free or linked
  once, a group hangs in the bucket of its address, and neither a group nor a client of a group is
  there twice.  It is kept by every report, by the timer, by the removal of a device, by a flush
  and by the black list.
\<close>

section \<open>Lists of entries\<close>

lemma map_update_first: "(\<And>x. P x \<Longrightarrow> k (f x) = k x) \<Longrightarrow> map k (update_first P f xs) = map k xs"
  by (induction xs) auto

lemma set_update_first: "x \<in> set (update_first P f xs) \<Longrightarrow> x \<in> set xs \<or> (\<exists>y\<in>set xs. P y \<and> x = f y)"
  by (induction xs) (auto split: if_splits)

lemma find_update_first: "find P xs = Some x \<Longrightarrow> P (f x) \<Longrightarrow> find P (update_first P f xs) = Some (f x)"
  by (induction xs) (auto split: if_splits)

lemma length_update_first [simp]: "length (update_first P f xs) = length xs"
  by (induction xs) auto

lemma update_first_id: "find P xs = None \<Longrightarrow> update_first P f xs = xs"
  by (induction xs) (auto split: if_splits)

lemma update_first_cong: "(\<And>x. find P xs = Some x \<Longrightarrow> f x = g x) \<Longrightarrow> update_first P f xs = update_first P g xs"
  by (induction xs) auto

lemma sum_update_first:
  "find P xs = Some x \<Longrightarrow> (\<Sum>y\<leftarrow>update_first P f xs. w y) + w x = (\<Sum>y\<leftarrow>xs. w y) + (w (f x) :: nat)"
  by (induction xs) (auto split: if_splits)

lemma set_remove_first: "set (remove_first P xs) \<subseteq> set xs"
  by (induction xs) auto

lemma distinct_remove_first: "distinct (map k xs) \<Longrightarrow> distinct (map k (remove_first P xs))"
  by (induction xs) (use set_remove_first in \<open>fastforce\<close>)+

lemma sum_remove_first:
  "find P xs = Some x \<Longrightarrow> (\<Sum>y\<leftarrow>remove_first P xs. w y) + w x = (\<Sum>y\<leftarrow>xs. (w y :: nat))"
  by (induction xs) (auto split: if_splits)

lemma find_remove_first:
  "distinct (map k xs) \<Longrightarrow> (\<And>x. P x \<longleftrightarrow> k x = a) \<Longrightarrow> find P (remove_first P xs) = None"
  by (induction xs) (auto simp: find_None_iff, metis image_eqI)

lemma find_key: "distinct (map k xs) \<Longrightarrow> x \<in> set xs \<Longrightarrow> find (\<lambda>y. k y = k x) xs = Some x"
  by (induction xs) auto

section \<open>Keys\<close>

text \<open>The part of an address that an address family compares.\<close>

definition norm_addr :: "ipver \<Rightarrow> addr \<Rightarrow> addr" where
  "norm_addr v a = (case v of IP_VERSION4 \<Rightarrow> Addr (a0 a) 0 0 0 | IP_VERSION6 \<Rightarrow> a)"

definition group_key :: "ipver \<Rightarrow> groupEntry \<Rightarrow> addr" where
  "group_key v g = norm_addr v (groupAddr g)"

definition client_key :: "ipver \<Rightarrow> clientEntry \<Rightarrow> addr \<times> u8 list" where
  "client_key v c = (norm_addr v (clientAddr c), clientMacAddr c)"

lemma addr_eq_norm: "addr_eq v a b \<longleftrightarrow> norm_addr v a = norm_addr v b"
  by (cases a; cases b; cases v) (auto simp: addr_eq_def norm_addr_def)

lemma is_group_key: "is_group v ga g \<longleftrightarrow> group_key v g = norm_addr v ga"
  by (auto simp: is_group_def addr_eq_norm group_key_def)

lemma is_client_key: "is_client v ca mac c \<longleftrightarrow> client_key v c = (norm_addr v ca, mac)"
  by (auto simp: is_client_def addr_eq_norm client_key_def)

lemma hash_norm: "norm_addr v a = norm_addr v b \<Longrightarrow> rtk_igmp_hashAlgorithm v a = rtk_igmp_hashAlgorithm v b"
  by (cases v) (auto simp: norm_addr_def rtk_igmp_hashAlgorithm_def)

lemma hash_bound: "rtk_igmp_hashAlgorithm v a < IGMP_HASH_TBL_SIZE"
proof -
  have "unat (31 AND x :: u32) < 32" for x
    using word_and_le2 [of 31 x] by (simp add: word_le_nat_alt)
  then show ?thesis by (cases v) (simp_all add: rtk_igmp_hashAlgorithm_def IGMP_HASH_TBL_SIZE_def)
qed

section \<open>The invariant\<close>

definition clients_ok :: "ipver \<Rightarrow> clientEntry list \<Rightarrow> bool" where
  "clients_ok v cs \<longleftrightarrow> distinct (map (client_key v) cs)"

definition bucket_ok :: "ipver \<Rightarrow> nat \<Rightarrow> groupEntry list \<Rightarrow> bool" where
  "bucket_ok v h gs \<longleftrightarrow> distinct (map (group_key v) gs) \<and>
     (\<forall>g\<in>set gs. ipVersion g = v \<and> rtk_igmp_hashAlgorithm v (groupAddr g) = h \<and> clients_ok v (clientList g))"

text \<open>The sum of a weight over all groups of the modules.\<close>

definition keys :: "nat list \<Rightarrow> (nat \<times> ipver \<times> nat) list" where
  "keys ms = List.product ms (List.product [IP_VERSION4, IP_VERSION6] [0..<IGMP_HASH_TBL_SIZE])"

definition weigh :: "nat list \<Rightarrow> (groupEntry \<Rightarrow> nat) \<Rightarrow> igmpdb \<Rightarrow> nat" where
  "weigh ms w db = (\<Sum>(m, v, h)\<leftarrow>keys ms. \<Sum>g\<leftarrow>tables db m v h. w g)"

definition group_count :: "nat list \<Rightarrow> igmpdb \<Rightarrow> nat" where
  "group_count ms db = weigh ms (\<lambda>_. 1) db"

definition client_count :: "nat list \<Rightarrow> igmpdb \<Rightarrow> nat" where
  "client_count ms db = weigh ms (\<lambda>g. length (clientList g)) db"

definition source_count :: "nat list \<Rightarrow> igmpdb \<Rightarrow> nat" where
  "source_count ms db = weigh ms sources_of db"

definition pools_ok :: "nat list \<Rightarrow> igmpdb \<Rightarrow> bool" where
  "pools_ok ms db \<longleftrightarrow> group_free db + group_count ms db = IGMP_MAX_GROUP_COUNT \<and>
     client_free db + client_count ms db = IGMP_MAX_CLIENT_COUNT \<and>
     source_free db + source_count ms db = IGMP_MAX_SOURCE_COUNT"

definition db_ok :: "nat list \<Rightarrow> igmpdb \<Rightarrow> bool" where
  "db_ok ms db \<longleftrightarrow> distinct ms \<and> (\<forall>m v h. bucket_ok v h (tables db m v h)) \<and> pools_ok ms db"

lemma db_ok_bucket: "db_ok ms db \<Longrightarrow> bucket_ok v h (tables db m v h)"
  by (simp add: db_ok_def)

lemma tables_set_bucket: "tables (set_bucket m v h gs db) m' v' h' = (if m' = m \<and> v' = v \<and> h' = h then gs else tables db m' v' h')"
  by (simp add: set_bucket_def)

lemma weigh_set_bucket:
  assumes "distinct ms" "m \<in> set ms" "h < IGMP_HASH_TBL_SIZE" and t: "tables db' = tables (set_bucket m v h gs db)"
  shows "weigh ms w db' + (\<Sum>g\<leftarrow>tables db m v h. w g) = weigh ms w db + (\<Sum>g\<leftarrow>gs. w g)"
proof -
  have "distinct (keys ms)" unfolding keys_def using assms(1) by (intro distinct_product) auto
  moreover have "(m, v, h) \<in> set (keys ms)" using assms(2,3) by (cases v) (auto simp: keys_def)
  ultimately have "(\<Sum>x\<leftarrow>keys ms. (\<lambda>(m, v, h). \<Sum>g\<leftarrow>tables db' m v h. w g) x) + (\<lambda>(m, v, h). \<Sum>g\<leftarrow>tables db m v h. w g) (m, v, h) =
      (\<Sum>x\<leftarrow>keys ms. (\<lambda>(m, v, h). \<Sum>g\<leftarrow>tables db m v h. w g) x) + (\<lambda>(m, v, h). \<Sum>g\<leftarrow>tables db' m v h. w g) (m, v, h)"
    by (rule sum_list_upd) (auto simp: t tables_set_bucket split: if_splits)
  then show ?thesis by (simp add: weigh_def t tables_set_bucket)
qed

text \<open>Replacing the groups of one bucket.\<close>

lemma db_ok_replace:
  assumes ok: "db_ok ms db" and m: "m \<in> set ms" and h: "h < IGMP_HASH_TBL_SIZE" and b: "bucket_ok v h gs"
    and t: "tables db' = tables (set_bucket m v h gs db)"
    and gf: "group_free db' + length gs = group_free db + length (tables db m v h)"
    and cf: "client_free db' + (\<Sum>g\<leftarrow>gs. length (clientList g)) = client_free db + (\<Sum>g\<leftarrow>tables db m v h. length (clientList g))"
    and sf: "source_free db' + (\<Sum>g\<leftarrow>gs. sources_of g) = source_free db + (\<Sum>g\<leftarrow>tables db m v h. sources_of g)"
  shows "db_ok ms db'"
proof -
  have d: "distinct ms" using ok by (simp add: db_ok_def)
  note w = weigh_set_bucket [OF d m h t]
  have "pools_ok ms db'"
    using ok gf cf sf w [of "\<lambda>_. 1"] w [of "\<lambda>g. length (clientList g)"] w [of sources_of]
    by (simp add: db_ok_def pools_ok_def group_count_def client_count_def source_count_def sum_list_triv)
  then show ?thesis using ok b by (simp add: db_ok_def t tables_set_bucket)
qed

lemma db_ok_frame:
  "db_ok ms db \<Longrightarrow> tables db' = tables db \<Longrightarrow> group_free db' = group_free db \<Longrightarrow> client_free db' = client_free db \<Longrightarrow>
   source_free db' = source_free db \<Longrightarrow> db_ok ms db'"
  by (simp add: db_ok_def pools_ok_def group_count_def client_count_def source_count_def weigh_def)

lemma db_ok_call [simp]: "db_ok ms (call c db) \<longleftrightarrow> db_ok ms db"
  by (auto simp: call_def elim: db_ok_frame)

lemma db_ok_stats: "only_stats db db' \<Longrightarrow> db_ok ms db \<Longrightarrow> db_ok ms db'"
  by (auto simp: only_stats_def elim: db_ok_frame)

section \<open>Groups\<close>

lemma search_group:
  "rtk_igmp_searchGroupEntry db m v ga = find (\<lambda>g. group_key v g = norm_addr v ga) (bucket db m v ga)"
  unfolding rtk_igmp_searchGroupEntry_def by (rule arg_cong2 [of _ _ _ _ find]) (simp_all add: fun_eq_iff is_group_key)

text \<open>A linked group is found by its address.\<close>

lemma search_linked:
  assumes "db_ok ms db" "g \<in> set (tables db m v h)"
  shows "rtk_igmp_searchGroupEntry db m v (groupAddr g) = Some g"
proof -
  have b: "bucket_ok v h (tables db m v h)" using assms(1) by (rule db_ok_bucket)
  then have "rtk_igmp_hashAlgorithm v (groupAddr g) = h" using assms(2) by (simp add: bucket_ok_def)
  then show ?thesis using find_key [of "group_key v" "tables db m v h" g] b assms(2)
    by (simp add: search_group bucket_ok_def group_key_def)
qed

lemma search_SomeD:
  assumes "db_ok ms db" "rtk_igmp_searchGroupEntry db m v ga = Some g"
  shows "g \<in> set (bucket db m v ga)" "ipVersion g = v" "group_key v g = norm_addr v ga" "clients_ok v (clientList g)"
proof -
  show g: "g \<in> set (bucket db m v ga)" "group_key v g = norm_addr v ga"
    using assms(2) unfolding search_group by (auto simp: find_Some_iff)
  show "ipVersion g = v" "clients_ok v (clientList g)"
    using db_ok_bucket [OF assms(1), of v "rtk_igmp_hashAlgorithm v ga" m] g(1) by (auto simp: bucket_ok_def)
qed

text \<open>Changing a group that is there.\<close>

lemma upd_group_ok:
  assumes ok: "db_ok ms db" and m: "m \<in> set ms" and g: "rtk_igmp_searchGroupEntry db m v ga = Some g"
    and f: "groupAddr (f g) = groupAddr g" "ipVersion (f g) = ipVersion g" "clients_ok v (clientList (f g))"
    and t: "tables db' = tables (upd_group m v ga f db)" and gf: "group_free db' = group_free db"
    and cf: "client_free db' + length (clientList (f g)) = client_free db + length (clientList g)"
    and sf: "source_free db' + sources_of (f g) = source_free db + sources_of g"
  shows "db_ok ms db'"
proof -
  let ?P = "is_group v ga" and ?b = "bucket db m v ga" and ?h = "rtk_igmp_hashAlgorithm v ga"
  have fnd: "find ?P ?b = Some g" using g by (simp add: rtk_igmp_searchGroupEntry_def)
  have upd: "update_first ?P f ?b = update_first ?P (\<lambda>_. f g) ?b" by (rule update_first_cong) (simp add: fnd)
  have b: "bucket_ok v ?h ?b" using ok by (rule db_ok_bucket)
  have key: "group_key v (f g) = norm_addr v ga" using f(1) search_SomeD(3) [OF ok g] by (simp add: group_key_def)
  have "map (group_key v) (update_first ?P f ?b) = map (group_key v) ?b"
    unfolding upd by (rule map_update_first) (simp add: is_group_key key)
  moreover have "ipVersion x = v \<and> rtk_igmp_hashAlgorithm v (groupAddr x) = ?h \<and> clients_ok v (clientList x)"
    if "x \<in> set (update_first ?P f ?b)" for x
    using set_update_first [OF that [unfolded upd]] b f search_SomeD(1) [OF ok g] by (auto simp: bucket_ok_def)
  ultimately have b': "bucket_ok v ?h (update_first ?P f ?b)" using b by (simp add: bucket_ok_def)
  show ?thesis
  proof (rule db_ok_replace [OF ok m hash_bound b'])
    show "tables db' = tables (set_bucket m v ?h (update_first ?P f ?b) db)" using t by (simp add: upd_group_def)
    show "group_free db' + length (update_first ?P f ?b) = group_free db + length (tables db m v ?h)" using gf by simp
    show "client_free db' + (\<Sum>g\<leftarrow>update_first ?P f ?b. length (clientList g)) = client_free db + (\<Sum>g\<leftarrow>tables db m v ?h. length (clientList g))"
      using cf sum_update_first [OF fnd, of "\<lambda>g. length (clientList g)" f] by simp
    show "source_free db' + (\<Sum>g\<leftarrow>update_first ?P f ?b. sources_of g) = source_free db + (\<Sum>g\<leftarrow>tables db m v ?h. sources_of g)"
      using sf sum_update_first [OF fnd, of sources_of f] by simp
  qed
qed

lemma upd_group_none: "rtk_igmp_searchGroupEntry db m v ga = None \<Longrightarrow> tables (upd_group m v ga f db) = tables db"
  by (simp add: upd_group_def rtk_igmp_searchGroupEntry_def update_first_id set_bucket_def fun_eq_iff)

lemma search_upd_group:
  assumes "rtk_igmp_searchGroupEntry db m v ga = Some g" "group_key v (f g) = group_key v g"
  shows "rtk_igmp_searchGroupEntry (upd_group m v ga f db) m v ga = Some (f g)"
proof -
  have "find (is_group v ga) (bucket db m v ga) = Some g" using assms(1) by (simp add: rtk_igmp_searchGroupEntry_def)
  moreover have "is_group v ga (f g)" using assms by (auto simp: is_group_key search_group find_Some_iff)
  ultimately show ?thesis by (simp add: rtk_igmp_searchGroupEntry_def upd_group_def tables_set_bucket find_update_first)
qed

lemma link_group_ok:
  assumes ok: "db_ok ms db" and m: "m \<in> set ms" and g: "rtk_igmp_searchGroupEntry db m v ga = None"
    and a: "rtk_igmp_allocateGroupEntry db = Some db'"
  shows "db_ok ms (rtk_igmp_linkGroupEntry m v ga db')"
proof -
  let ?h = "rtk_igmp_hashAlgorithm v ga"
  have db': "db' = db\<lparr>group_free := group_free db - 1\<rparr>" "0 < group_free db"
    using a by (auto simp: rtk_igmp_allocateGroupEntry_def split: if_splits)
  have "norm_addr v ga \<notin> group_key v ` set (bucket db m v ga)" using g unfolding search_group find_None_iff by auto
  then have b: "bucket_ok v ?h (\<lparr>groupAddr = ga, ipVersion = v, groupIdx = groupIncIdx db + 1, clientList = []\<rparr> # bucket db m v ga)"
    using db_ok_bucket [OF ok, of v ?h m] by (simp add: bucket_ok_def group_key_def clients_ok_def)
  show ?thesis
    by (rule db_ok_replace [OF ok m hash_bound b])
      (use db' in \<open>simp_all add: rtk_igmp_linkGroupEntry_def Let_def call_def set_bucket_def fun_eq_iff sources_of_def\<close>)
qed

lemma delete_group_ok:
  assumes ok: "db_ok ms db" and m: "m \<in> set ms"
  shows "db_ok ms (rtk_igmp_deleteGroupEntry m v ga db)"
proof (cases "rtk_igmp_searchGroupEntry db m v ga")
  case (Some g)
  let ?P = "is_group v ga" and ?b = "bucket db m v ga" and ?h = "rtk_igmp_hashAlgorithm v ga"
  have fnd: "find ?P ?b = Some g" using Some by (simp add: rtk_igmp_searchGroupEntry_def)
  have b: "bucket_ok v ?h (remove_first ?P ?b)"
    using db_ok_bucket [OF ok, of v ?h m] set_remove_first [of ?P ?b] by (auto simp: bucket_ok_def distinct_remove_first)
  note sums = sum_remove_first [OF fnd, of "\<lambda>_. 1"] sum_remove_first [OF fnd, of "\<lambda>g. length (clientList g)"] sum_remove_first [OF fnd, of sources_of]
  show ?thesis
    by (rule db_ok_replace [OF ok m hash_bound b])
      (use Some sums in \<open>simp_all add: rtk_igmp_deleteGroupEntry_def Let_def call_def set_bucket_def fun_eq_iff sum_list_triv\<close>)
qed (use ok in \<open>simp add: rtk_igmp_deleteGroupEntry_def\<close>)

section \<open>Clients\<close>

text \<open>An operation on the client of a packet in its group.\<close>

lemma sources_upd:
  assumes "find P (clientList g) = Some c"
  shows "sources_of (g\<lparr>clientList := update_first P (\<lambda>_. c') (clientList g)\<rparr>) + length (sourceList c) = sources_of g + length (sourceList c')"
  using sum_update_first [OF assms, of "\<lambda>c. length (sourceList c)" "\<lambda>_. c'"] by (simp add: sources_of_def)

lemma clients_ok_upd:
  assumes "clients_ok v cs" "find (is_client v ca mac) cs = Some c" "client_key v c' = client_key v c"
  shows "clients_ok v (update_first (is_client v ca mac) (\<lambda>_. c') cs)"
proof -
  have "client_key v c' = (norm_addr v ca, mac)" using assms(2,3) by (auto simp: find_Some_iff is_client_key)
  then have "map (client_key v) (update_first (is_client v ca mac) (\<lambda>_. c') cs) = map (client_key v) cs"
    by (intro map_update_first) (simp add: is_client_key)
  then show ?thesis using assms(1) by (simp add: clients_ok_def)
qed

lemma client_of_group:
  "client_of db m v ga ca mac = Some c \<Longrightarrow>
   \<exists>g. rtk_igmp_searchGroupEntry db m v ga = Some g \<and> find (is_client v ca mac) (clientList g) = Some c"
  by (auto simp: client_of_def split: option.splits)

lemma move_client_simps [simp]:
  "clientAddr (move_client p c) = clientAddr c" "clientMacAddr (move_client p c) = clientMacAddr c"
  "sourceList (move_client p c) = sourceList c" "groupFilterTimer (move_client p c) = groupFilterTimer c"
  by (simp_all add: move_client_def Let_def)

text \<open>A client that is found is moved to the port of the packet; nothing else changes.\<close>

lemma search_client:
  assumes "rtk_igmp_searchClientEntry p g = Some g'"
  shows "\<exists>c. find (is_client (pver p) (saddr p) (smac p)) (clientList g) = Some c \<and>
     g' = g\<lparr>clientList := update_first (is_client (pver p) (saddr p) (smac p)) (\<lambda>_. move_client p c) (clientList g)\<rparr>"
proof -
  let ?P = "is_client (pver p) (saddr p) (smac p)"
  obtain c where c: "find ?P (clientList g) = Some c"
    using assms by (cases "find ?P (clientList g)") (auto simp: rtk_igmp_searchClientEntry_def find_None_iff list_ex_iff split: if_splits)
  have "update_first ?P (move_client p) (clientList g) = update_first ?P (\<lambda>_. move_client p c) (clientList g)"
    by (rule update_first_cong) (simp add: c)
  then show ?thesis using assms c by (auto simp: rtk_igmp_searchClientEntry_def split: if_splits)
qed

lemma move_ok:
  assumes ok: "db_ok ms db" and m: "m \<in> set ms" and g: "rtk_igmp_searchGroupEntry db m (pver p) ga = Some g"
    and s: "rtk_igmp_searchClientEntry p g = Some g'"
  shows "db_ok ms (upd_group m (pver p) ga (\<lambda>_. g') db)"
proof -
  obtain c where c: "find (is_client (pver p) (saddr p) (smac p)) (clientList g) = Some c"
    and g': "g' = g\<lparr>clientList := update_first (is_client (pver p) (saddr p) (smac p)) (\<lambda>_. move_client p c) (clientList g)\<rparr>"
    using search_client [OF s] by blast
  show ?thesis
    by (rule upd_group_ok [OF ok m g, where f = "\<lambda>_. g'"])
      (use clients_ok_upd [OF search_SomeD(4) [OF ok g] c, of "move_client p c"] sources_upd [OF c, of "move_client p c"]
        in \<open>simp_all add: g' client_key_def upd_group_def set_bucket_def\<close>)
qed

lemma enter_group_ok:
  assumes "db_ok ms db" "moduleIndex p \<in> set ms"
  shows "db_ok ms (snd (enter_group p ga db))"
  using assms link_group_ok [OF assms] by (auto simp: enter_group_def split: option.split)

lemma enter_client_ok:
  assumes ok: "db_ok ms db" and m: "moduleIndex p \<in> set ms"
  shows "db_ok ms (snd (enter_client p ga db))"
proof (cases "rtk_igmp_searchGroupEntry db (moduleIndex p) (pver p) ga")
  case (Some g)
  show ?thesis
  proof (cases "rtk_igmp_searchClientEntry p g")
    case None
    let ?P = "is_client (pver p) (saddr p) (smac p)"
    show ?thesis
    proof (cases "client_free db = 0")
      case False
      define c where "c = fst (the (rtk_igmp_allocateClientEntry p db))"
      have a: "rtk_igmp_allocateClientEntry p db = Some (c, db\<lparr>client_free := client_free db - 1\<rparr>)"
        "clientAddr c = saddr p" "clientMacAddr c = smac p" "sourceList c = []"
        using False by (simp_all add: c_def rtk_igmp_allocateClientEntry_def)
      have "client_key (pver p) c \<notin> client_key (pver p) ` set (clientList g)"
        using None a(2,3) by (auto simp: rtk_igmp_searchClientEntry_def list_ex_iff is_client_key client_key_def split: if_splits)
      then have "clients_ok (pver p) (c # clientList g)" using search_SomeD(4) [OF ok Some] by (simp add: clients_ok_def)
      then have "db_ok ms (upd_group (moduleIndex p) (pver p) ga (rtk_igmp_linkClientEntry c) (db\<lparr>client_free := client_free db - 1\<rparr>))"
        by (intro upd_group_ok [OF ok m Some, where f = "rtk_igmp_linkClientEntry c"])
          (use False a(4) in \<open>simp_all add: rtk_igmp_linkClientEntry_def upd_group_def set_bucket_def sources_of_def\<close>)
      then show ?thesis using Some None a(1) by (simp add: enter_client_def)
    qed (use ok Some None in \<open>simp add: enter_client_def rtk_igmp_allocateClientEntry_def\<close>)
  qed (use ok Some move_ok [OF ok m Some] in \<open>simp add: enter_client_def\<close>)
qed (use ok in \<open>simp add: enter_client_def\<close>)

lemma enter_ok: "db_ok ms db \<Longrightarrow> moduleIndex p \<in> set ms \<Longrightarrow> db_ok ms (snd (enter p ga db))"
  using enter_group_ok [of ms db p ga] enter_client_ok [of ms "snd (enter_group p ga db)" p ga]
  by (auto simp: enter_def split: prod.split bool.split)

lemma delete_client_ok:
  assumes ok: "db_ok ms db" and m: "m \<in> set ms"
  shows "db_ok ms (rtk_igmp_deleteClientEntry m ga p db)"
proof (cases "client_of db m (pver p) ga (saddr p) (smac p)")
  case None
  then show ?thesis using ok by (auto simp: rtk_igmp_deleteClientEntry_def client_of_def split: option.splits)
next
  case (Some c)
  let ?P = "is_client (pver p) (saddr p) (smac p)"
  from client_of_group [OF Some] obtain g where g: "rtk_igmp_searchGroupEntry db m (pver p) ga = Some g" and c: "find ?P (clientList g) = Some c" by blast
  let ?db = "db\<lparr>source_free := source_free db + length (sourceList c), client_free := client_free db + 1\<rparr>"
  let ?f = "\<lambda>g. g\<lparr>clientList := remove_first ?P (clientList g)\<rparr>"
  have "clients_ok (pver p) (clientList (?f g))"
    using search_SomeD(4) [OF ok g] by (simp add: clients_ok_def distinct_remove_first)
  then have "db_ok ms (upd_group m (pver p) ga ?f ?db)"
    by (intro upd_group_ok [OF ok m g, where f = ?f])
      (use sum_remove_first [OF c, of "\<lambda>_. 1"] sum_remove_first [OF c, of "\<lambda>c. length (sourceList c)"]
        in \<open>simp_all add: upd_group_def set_bucket_def sources_of_def sum_list_triv\<close>)
  then show ?thesis using g c by (simp add: rtk_igmp_deleteClientEntry_def)
qed

section \<open>What a handler of a report may do to its client\<close>

text \<open>
  The contract between the frame of a report (finding the client, giving up when a pool is empty)
  and the part that works on the sources of the client: it keeps the identity of the client and
  every source entry it takes comes from the pool.
\<close>

locale client_handler =
  fixes body :: client_body
  assumes keeps_client: "body now c free = (ok, c', free') \<Longrightarrow> clientAddr c' = clientAddr c \<and> clientMacAddr c' = clientMacAddr c"
    and conserves: "body now c free = (ok, c', free') \<Longrightarrow> length (sourceList c') + free' = length (sourceList c) + free"
begin

lemma on_client_ok:
  assumes ok: "db_ok ms db" and m: "moduleIndex p \<in> set ms"
  shows "db_ok ms (snd (on_client p ga body db))"
proof (cases "client_of db (moduleIndex p) (pver p) ga (saddr p) (smac p)")
  case None
  then show ?thesis using ok by (simp add: on_client_def)
next
  case (Some c)
  let ?P = "is_client (pver p) (saddr p) (smac p)"
  from client_of_group [OF Some] obtain g
    where g: "rtk_igmp_searchGroupEntry db (moduleIndex p) (pver p) ga = Some g" and c: "find ?P (clientList g) = Some c" by blast
  obtain r c' free where b: "body (sysUpSeconds db) c (source_free db) = (r, c', free)" by (metis prod_cases3)
  let ?f = "\<lambda>g. g\<lparr>clientList := update_first ?P (\<lambda>_. c') (clientList g)\<rparr>"
  have key: "client_key (pver p) c' = client_key (pver p) c" using keeps_client [OF b] by (simp add: client_key_def)
  have "clients_ok (pver p) (clientList (?f g))" using clients_ok_upd [OF search_SomeD(4) [OF ok g] c key] by simp
  then have "db_ok ms (upd_group (moduleIndex p) (pver p) ga ?f (db\<lparr>source_free := free\<rparr>))"
    by (intro upd_group_ok [OF ok m g, where f = ?f])
      (use conserves [OF b] sources_upd [OF c, of c'] in \<open>simp_all add: upd_group_def set_bucket_def\<close>)
  then show ?thesis using Some b by (simp add: on_client_def)
qed

text \<open>The entry of the client is what the handler makes of it.\<close>

lemma client_of_on_client:
  assumes c: "client_of db (moduleIndex p) (pver p) ga (saddr p) (smac p) = Some c"
    and b: "body (sysUpSeconds db) c (source_free db) = (r, c', free)"
  shows "client_of (snd (on_client p ga body db)) (moduleIndex p) (pver p) ga (saddr p) (smac p) = Some c'"
    and "fst (on_client p ga body db) = r"
proof -
  let ?P = "is_client (pver p) (saddr p) (smac p)"
  let ?f = "\<lambda>g. g\<lparr>clientList := update_first ?P (\<lambda>_. c') (clientList g)\<rparr>"
  let ?db = "db\<lparr>source_free := free\<rparr>"
  from client_of_group [OF c] obtain g
    where g: "rtk_igmp_searchGroupEntry db (moduleIndex p) (pver p) ga = Some g" and fc: "find ?P (clientList g) = Some c" by blast
  have "rtk_igmp_searchGroupEntry ?db (moduleIndex p) (pver p) ga = Some g" using g by (simp add: rtk_igmp_searchGroupEntry_def)
  then have "rtk_igmp_searchGroupEntry (upd_group (moduleIndex p) (pver p) ga ?f ?db) (moduleIndex p) (pver p) ga = Some (?f g)"
    by (rule search_upd_group) (simp add: group_key_def)
  moreover have "?P c'" using fc keeps_client [OF b] by (auto simp: find_Some_iff is_client_key client_key_def)
  then have "find ?P (update_first ?P (\<lambda>_. c') (clientList g)) = Some c'" by (rule find_update_first [OF fc])
  ultimately show "client_of (snd (on_client p ga body db)) (moduleIndex p) (pver p) ga (saddr p) (smac p) = Some c'"
    using c b by (simp add: on_client_def client_of_def)
  show "fst (on_client p ga body db) = r" using c b by (simp add: on_client_def)
qed

end

text \<open>A record that creates the entries it does not find.\<close>

locale record_handler =
  fixes body :: "bool \<Rightarrow> client_body"
  assumes handler: "client_handler (body new)"
begin

lemma learn_ok:
  assumes ok: "db_ok ms db" and m: "moduleIndex p \<in> set ms"
  shows "db_ok ms (snd (learn pol p ga src body db))"
proof -
  have "db_ok ms (snd (admit pol p True ga src db))" using db_ok_stats [OF admit_frame ok] .
  from enter_ok [OF this m] have e: "db_ok ms (snd (enter p ga (snd (admit pol p True ga src db))))" .
  have "db_ok ms (snd (on_client p ga (body new) (snd (enter p ga (snd (admit pol p True ga src db))))))" for new
    by (rule client_handler.on_client_ok [OF handler e m])
  then show ?thesis using e db_ok_stats [OF admit_frame ok, of pol p True ga src]
    unfolding learn_def by (auto split: prod.split option.split bool.split) (metis snd_conv)+
qed

end

section \<open>Lists of sources\<close>

text \<open>The source entries of a client and of the pool together.\<close>

definition src_total :: "src_state \<Rightarrow> nat" where
  "src_total st = length (fst st) + snd st"

lemma src_total_pair [simp]: "src_total (ss, free) = length ss + free"
  by (simp add: src_total_def)

lemma link_new_total: "link_new_source a t st = Some st' \<Longrightarrow> src_total st' = src_total st"
  by (auto simp: link_new_source_def split: prod.splits if_splits)

lemma link_new_pair: "link_new_source a t (ss, free) = Some (ss', free') \<Longrightarrow> length ss' + free' = length ss + free"
  by (auto simp: link_new_source_def split: if_splits)

lemma upd_source_total [simp]: "src_total (upd_source v a f st) = src_total st"
  by (cases st) (simp add: upd_source_def)

lemma each_source_total:
  "(\<And>a st st'. f a st = Some st' \<Longrightarrow> src_total st' = src_total st) \<Longrightarrow> src_total (snd (each_source f as st)) = src_total st"
  by (induction f as st rule: each_source.induct) (auto split: option.split)

lemma delete_flagged_total [simp]: "src_total (delete_flagged st) = src_total st"
  using sum_length_filter_compl [of setOpFlag "fst st"] by (cases st) (simp add: delete_flagged_def)

lemma deleteSourceList_total [simp]: "src_total (rtk_igmp_deleteSourceList st) = src_total st"
  by (cases st) (simp add: rtk_igmp_deleteSourceList_def)

lemma flag_all_total [simp]: "src_total (flag_all st) = src_total st"
  by (cases st) (simp add: flag_all_def)

lemma refresh_total: "refresh_source v t a st = Some st' \<Longrightarrow> src_total st' = src_total st"
  by (auto simp: refresh_source_def link_new_total split: option.splits)

lemma exclude_total: "exclude_source v now t ex a st = Some st' \<Longrightarrow> src_total st' = src_total st"
  by (auto simp: exclude_source_def link_new_total split: option.splits if_splits)

lemma toInclude_total: "toInclude_source v t a st = Some st' \<Longrightarrow> src_total st' = src_total st"
  by (auto simp: toInclude_source_def link_new_total split: option.splits)

lemma toExclude_loop_total: "src_total (snd (toExclude_loop v now gft n ps st)) = src_total st"
  by (induction v now gft n ps st rule: toExclude_loop.induct) (auto simp: Let_def dest: link_new_total link_new_pair split: option.split)

lemma block_ex_loop_total: "src_total (snd (block_ex_loop v fast now gft n ps st)) = src_total st"
  by (induction v fast now gft n ps st rule: block_ex_loop.induct) (auto simp: Let_def dest: link_new_total split: option.split)

lemma block_in_loop_total: "src_total (block_in_loop v fast now n ps st) = src_total st"
  by (induction v fast now n ps st rule: block_in_loop.induct) (auto split: option.split)

lemma with_sources_eq: "with_sources c r = (fst r, c\<lparr>sourceList := fst (snd r)\<rparr>, snd (snd r))"
  by (simp add: with_sources_def case_prod_beta)

lemma client_edit_simps [simp]:
  "clientAddr (tag_client p c) = clientAddr c" "clientMacAddr (tag_client p c) = clientMacAddr c"
  "sourceList (tag_client p c) = sourceList c" "groupFilterTimer (tag_client p c) = groupFilterTimer c"
  "clientAddr (v3_client p c) = clientAddr c" "clientMacAddr (v3_client p c) = clientMacAddr c"
  "sourceList (v3_client p c) = sourceList c" "groupFilterTimer (v3_client p c) = groupFilterTimer c"
  by (simp_all add: tag_client_def v3_client_def Let_def)

text \<open>A handler whose result is a changed client with the outcome of a loop over its sources.\<close>

definition by_sources :: "clientEntry \<Rightarrow> nat \<Rightarrow> bool \<times> clientEntry \<times> nat \<Rightarrow> bool" where
  "by_sources c free res \<longleftrightarrow> (\<exists>r d. res = with_sources d r \<and> clientAddr d = clientAddr c \<and> clientMacAddr d = clientMacAddr c \<and>
     src_total (snd r) = length (sourceList c) + free)"

lemma by_sourcesI:
  "clientAddr d = clientAddr c \<Longrightarrow> clientMacAddr d = clientMacAddr c \<Longrightarrow> src_total (snd r) = length (sourceList c) + free \<Longrightarrow>
   by_sources c free (with_sources d r)"
  unfolding by_sources_def by blast

lemma client_handlerI:
  assumes "\<And>now c free. by_sources c free (body now c free)"
  shows "client_handler body"
proof
  fix now c free ok c' free'
  assume b: "body now c free = (ok, c', free')"
  obtain r d where r: "body now c free = with_sources d r" "clientAddr d = clientAddr c" "clientMacAddr d = clientMacAddr c"
    "src_total (snd r) = length (sourceList c) + free" using assms unfolding by_sources_def by blast
  show "clientAddr c' = clientAddr c \<and> clientMacAddr c' = clientMacAddr c" "length (sourceList c') + free' = length (sourceList c) + free"
    using b r by (auto simp: with_sources_eq src_total_def)
qed

lemma join_with_sources:
  "join_body p t now c free = with_sources
     (tag_client p c\<lparr>igmpVersion := (case pver p of IP_VERSION4 \<Rightarrow> if t = 0x12 then IGMP_V1 else IGMP_V2 | IP_VERSION6 \<Rightarrow> MLD_V1),
        groupFilterTimer := now + aging_time p\<rparr>) (True, rtk_igmp_deleteSourceList (sourceList c, free))"
  by (simp add: join_body_def with_sources_def Let_def case_prod_beta rtk_igmp_deleteSourceList_def)

interpretation join: client_handler "join_body p t" for p t
  by (rule client_handlerI) (auto simp: join_with_sources intro!: by_sourcesI)

interpretation leave: client_handler "leave_body p" for p
  by unfold_locales (auto simp: leave_body_def Let_def)

interpretation block: client_handler "block_body p srcs" for p srcs
proof (rule client_handlerI, goal_cases)
  case (1 now c free)
  show ?case
    using block_ex_loop_total [of "pver p" "fast_leave p" now "groupFilterTimer c" "length srcs" srcs "(sourceList c, free)"]
      block_in_loop_total [of "pver p" "fast_leave p" now "length srcs" srcs "(sourceList c, free)"]
    by (auto simp: block_body_def Let_def intro!: by_sourcesI)
qed

lemma each_link_total [simp]: "src_total (snd (each_source (\<lambda>a. link_new_source a t) as st)) = src_total st"
  by (rule each_source_total) (rule link_new_total)

lemma each_refresh_total [simp]: "src_total (snd (each_source (refresh_source v t) as st)) = src_total st"
  by (rule each_source_total) (rule refresh_total)

lemma each_exclude_total: "src_total (snd (each_source (exclude_source v now t ex) as st)) = src_total st"
  by (rule each_source_total) (rule exclude_total)

lemma each_toInclude_total: "src_total (snd (each_source (toInclude_source v t) as st)) = src_total st"
  by (rule each_source_total) (rule toInclude_total)

lemma isInclude_handler: "client_handler (isInclude_body p srcs new)"
  by (rule client_handlerI) (auto simp: isInclude_body_def Let_def intro!: by_sourcesI)

lemma allow_handler: "client_handler (allow_body p srcs new)"
  by (rule client_handlerI) (auto simp: allow_body_def Let_def intro!: by_sourcesI)

lemma isExclude_handler: "client_handler (isExclude_body p srcs new)"
proof (rule client_handlerI, goal_cases)
  case (1 now c free)
  show ?case
    using each_exclude_total [of "pver p" now "now + aging_time p" "groupFilterTimer c > now" srcs "flag_all (sourceList c, free)"]
    by (auto simp: isExclude_body_def Let_def intro!: by_sourcesI split: prod.split bool.split)
qed

lemma toInclude_handler: "client_handler (toInclude_body p srcs new)"
proof (rule client_handlerI, goal_cases)
  case (1 now c free)
  show ?case
    using each_toInclude_total [of "pver p" "now + aging_time p" srcs "(map (shorten_source now (now + last_aging_time p)) (sourceList c), free)"]
    by (auto simp: toInclude_body_def Let_def intro!: by_sourcesI split: prod.split bool.split)
qed

lemma toExclude_handler: "client_handler (toExclude_body p srcs new)"
proof (rule client_handlerI, goal_cases)
  case (1 now c free)
  have "src_total (snd (toExclude_loop (pver p) now (groupFilterTimer c) (length srcs) srcs (flag_all (sourceList c, free)))) = length (sourceList c) + free"
    by (simp add: toExclude_loop_total)
  then show ?case by (auto simp: toExclude_body_def Let_def intro!: by_sourcesI split: prod.split bool.split)
qed

interpretation is_in: record_handler "isInclude_body p srcs" for p srcs
  by (rule record_handler.intro) (rule isInclude_handler)

interpretation is_ex: record_handler "isExclude_body p srcs" for p srcs
  by (rule record_handler.intro) (rule isExclude_handler)

interpretation to_in: record_handler "toInclude_body p srcs" for p srcs
  by (rule record_handler.intro) (rule toInclude_handler)

interpretation to_ex: record_handler "toExclude_body p srcs" for p srcs
  by (rule record_handler.intro) (rule toExclude_handler)

interpretation allow: record_handler "allow_body p srcs" for p srcs
  by (rule record_handler.intro) (rule allow_handler)

section \<open>Reports keep the invariant\<close>

lemma processJoin_ok:
  assumes ok: "db_ok ms db" and m: "moduleIndex p \<in> set ms"
  shows "db_ok ms (snd (rtk_igmp_processJoin pol p t a db))"
proof -
  let ?ga = "join_group p t a"
  have a: "db_ok ms (snd (admit pol p False ?ga None db))" using db_ok_stats [OF admit_frame ok] .
  note e = enter_ok [OF a m]
  show ?thesis
    using a e [of ?ga] join.on_client_ok [OF e [of ?ga] m]
    unfolding rtk_igmp_processJoin_def Let_def by (auto split: prod.split option.split)
qed

lemma processBlock_ok:
  assumes ok: "db_ok ms db" and m: "moduleIndex p \<in> set ms"
  shows "db_ok ms (snd (rtk_igmp_processBlock pol p r db))"
proof -
  let ?v = "pver p" and ?m = "moduleIndex p" and ?ga = "rgroup r"
  define db1 where "db1 = snd (admit pol p True ?ga None db)"
  have a: "db_ok ms db1" unfolding db1_def using db_ok_stats [OF admit_frame ok] .
  have "db_ok ms (snd (on_client p ?ga (block_body p (srcList r)) (upd_group ?m ?v ?ga (\<lambda>_. g') db1)))"
    if "Option.bind (rtk_igmp_searchGroupEntry db1 ?m ?v ?ga) (rtk_igmp_searchClientEntry p) = Some g'" for g'
    using that move_ok [OF a m] by (intro block.on_client_ok m) (auto simp: bind_eq_Some_conv)
  then show ?thesis using a unfolding rtk_igmp_processBlock_def Let_def db1_def
    by (auto split: prod.split option.split bool.split)
qed

lemma processLeave_ok:
  assumes ok: "db_ok ms db" and m: "moduleIndex p \<in> set ms"
  shows "db_ok ms (snd (rtk_igmp_processLeave p ga db))"
proof -
  let ?v = "pver p" and ?m = "moduleIndex p"
  define db1 where "db1 = (case rtk_igmp_searchGroupEntry db ?m ?v ga of None \<Rightarrow> db | Some g \<Rightarrow>
    (case rtk_igmp_searchClientEntry p g of None \<Rightarrow> db | Some g' \<Rightarrow>
      let db = upd_group ?m ?v ga (\<lambda>_. g') db in if fast_leave p then rtk_igmp_deleteClientEntry ?m ga p db
        else snd (on_client p ga (leave_body p) db)))"
  have ok1: "db_ok ms db1"
    using ok move_ok [OF ok m] delete_client_ok [OF _ m] leave.on_client_ok [OF _ m]
    unfolding db1_def Let_def by (auto split: option.split)
  have "snd (rtk_igmp_processLeave p ga db) =
      (let db2 = (case rtk_igmp_searchGroupEntry db1 ?m ?v ga of Some g \<Rightarrow> if clientList g = [] then rtk_igmp_deleteGroupEntry ?m ?v ga db1 else db1 | None \<Rightarrow> db1)
       in if fast_leave p then call (ReflushFlow ga) db2 else db2)"
    unfolding rtk_igmp_processLeave_def db1_def Let_def by simp
  then show ?thesis using ok1 delete_group_ok [OF ok1 m, of ?v ga] by (auto simp: Let_def split: option.split)
qed

lemma process_record_ok:
  assumes "db_ok ms db" "moduleIndex p \<in> set ms"
  shows "db_ok ms (snd (process_record pol p ret0 r db))"
  using assms processBlock_ok [OF assms]
  by (simp add: process_record_def rtk_igmp_processIsInclude_def rtk_igmp_processIsExclude_def rtk_igmp_processToInclude_def
      rtk_igmp_processToExclude_def rtk_igmp_processAllow_def is_in.learn_ok is_ex.learn_ok to_in.learn_ok to_ex.learn_ok allow.learn_ok)

lemma report_loop_ok:
  "db_ok ms db \<Longrightarrow> moduleIndex p \<in> set ms \<Longrightarrow> db_ok ms (snd (report_loop pol p ret0 mem len nr n off db))"
proof (induction pol p ret0 mem len nr n off db rule: report_loop.induct)
  case (2 pol p ret0 mem len nr n off db)
  obtain ret db' where r: "process_record pol p ret0 (record_at (pver p) mem off) db = (ret, db')" by fastforce
  have "db_ok ms db'" using process_record_ok [OF 2(2,3), of pol ret0 "record_at (pver p) mem off"] r by simp
  then show ?case using 2 r by (simp add: Let_def)
qed simp

end
