(* ===== verification/Igmp_Tick.thy ===== *)
theory Igmp_Tick
  imports Igmp_Inv
begin

text \<open>
  The timer of the snooping database against its specification: a pass of the timer leaves of each
  group the clients that are served, of each client the sources that count, and of each table the
  groups that have clients.  The pass, the removal of a device, a flush and the black list keep the
  invariant of the database.
\<close>

section \<open>Specification of a pass\<close>

definition live_client :: "u32 \<Rightarrow> clientEntry \<Rightarrow> clientEntry option" where
  "live_client now c =
     (if groupFilterTimer c > now \<or> list_ex (\<lambda>s. portTimer s > now) (sourceList c)
      then Some (c\<lparr>sourceList := live_sources now c\<rparr>) else None)"

definition live_group :: "u32 \<Rightarrow> groupEntry \<Rightarrow> groupEntry option" where
  "live_group now g =
     (let cs = List.map_filter (live_client now) (clientList g)
      in if cs = [] then None else Some (g\<lparr>clientList := cs\<rparr>))"

lemma length_map_filter: "length (List.map_filter f xs) \<le> length xs"
  by (induction xs) (auto simp: List.map_filter_simps split: option.split)

lemma set_map_filter: "y \<in> set (List.map_filter f xs) \<longleftrightarrow> (\<exists>x\<in>set xs. f x = Some y)"
  by (force simp: List.map_filter_def)

lemma distinct_map_filter:
  "distinct (map k xs) \<Longrightarrow> (\<And>x y. f x = Some y \<Longrightarrow> k y = k x) \<Longrightarrow> distinct (map k (List.map_filter f xs))"
  by (induction xs) (force simp: List.map_filter_simps set_map_filter split: option.split)+

lemma map_filter_port:
  "list_ex (\<lambda>s. portTimer s > now) (List.map_filter (\<lambda>s. fst (rtk_igmp_checkSourceTimer now gft s)) ss) \<longleftrightarrow>
   list_ex (\<lambda>s. portTimer s > now) ss"
  by (induction ss) (auto simp: List.map_filter_simps rtk_igmp_checkSourceTimer_def)

lemma live_source_port:
  "list_ex (\<lambda>s. portTimer s > now) (live_sources now c) \<longleftrightarrow> list_ex (\<lambda>s. portTimer s > now) (sourceList c)"
  unfolding live_sources_def by (rule map_filter_port)

section \<open>The pass over a group\<close>

lemma checkClient_fst: "fst (rtk_igmp_checkClientEntryTimer now ts ga c db) = live_client now c"
  using live_source_port [of now c]
  by (auto simp: rtk_igmp_checkClientEntryTimer_def live_client_def rtk_igmp_getClientFwdIfIdx_def Let_def)

text \<open>Entries that a step gives back to the pools; nothing else changes but the recorded calls.\<close>

definition gives_back :: "nat \<Rightarrow> nat \<Rightarrow> nat \<Rightarrow> igmpdb \<Rightarrow> igmpdb \<Rightarrow> bool" where
  "gives_back gn cn sn db db' \<longleftrightarrow> group_free db' = group_free db + gn \<and> client_free db' = client_free db + cn \<and>
     source_free db' = source_free db + sn \<and> tables db' = tables db \<and> sysUpSeconds db' = sysUpSeconds db"

lemma gives_back_trans:
  "gives_back gn cn sn db db' \<Longrightarrow> gives_back gn' cn' sn' db' db'' \<Longrightarrow> gives_back (gn + gn') (cn + cn') (sn + sn') db db''"
  by (auto simp: gives_back_def)

lemma gives_back_refl: "gives_back 0 0 0 db db"
  by (simp add: gives_back_def)

definition client_size :: "clientEntry \<Rightarrow> nat" where
  "client_size c = length (sourceList c)"

abbreviation opt_list :: "'a option \<Rightarrow> 'a list" where
  "opt_list x \<equiv> (case x of None \<Rightarrow> [] | Some y \<Rightarrow> [y])"

lemma checkClient_gives:
  "\<exists>cn sn. gives_back 0 cn sn db (snd (rtk_igmp_checkClientEntryTimer now ts ga c db)) \<and>
     cn + length (opt_list (live_client now c)) = 1 \<and> sn + (\<Sum>c\<leftarrow>opt_list (live_client now c). client_size c) = client_size c"
proof -
  let ?l = "length (live_sources now c)" and ?n = "length (sourceList c)"
  have le: "?l \<le> ?n" unfolding live_sources_def by (rule length_map_filter)
  have gone: "rtk_igmp_getClientFwdIfIdx (c\<lparr>sourceList := live_sources now c\<rparr>) now = None \<longleftrightarrow> live_client now c = None"
    using live_source_port [of now c] by (auto simp: live_client_def rtk_igmp_getClientFwdIfIdx_def)
  show ?thesis
  proof (cases "live_client now c = None")
    case True
    have "gives_back 0 1 ?n db (snd (rtk_igmp_checkClientEntryTimer now ts ga c db))"
      using gone True le by (auto simp: rtk_igmp_checkClientEntryTimer_def Let_def gives_back_def call_def)
    then show ?thesis using True by (intro exI [of _ 1] exI [of _ ?n]) (simp add: client_size_def)
  next
    case False
    then have some: "live_client now c = Some (c\<lparr>sourceList := live_sources now c\<rparr>)"
      by (auto simp: live_client_def split: if_splits)
    have "gives_back 0 0 (?n - ?l) db (snd (rtk_igmp_checkClientEntryTimer now ts ga c db))"
      using gone False unfolding rtk_igmp_checkClientEntryTimer_def Let_def by (auto simp: call_def gives_back_def)
    then show ?thesis using some le by (intro exI [of _ 0] exI [of _ "?n - ?l"]) (simp add: client_size_def)
  qed
qed

lemma tick_clients_fst: "fst (tick_clients now ts ga cs db) = List.map_filter (live_client now) cs"
proof (induction cs arbitrary: db)
  case (Cons c cs)
  obtain c' db1 where s: "rtk_igmp_checkClientEntryTimer now ts ga c db = (c', db1)" by fastforce
  then have "c' = live_client now c" using checkClient_fst [of now ts ga c db] by simp
  then show ?case using Cons [of db1] s by (simp add: List.map_filter_simps case_prod_beta split: option.split)
qed (simp add: List.map_filter_simps)

lemma tick_clients_gives:
  "\<exists>cn sn. gives_back 0 cn sn db (snd (tick_clients now ts ga cs db)) \<and>
     cn + length (List.map_filter (live_client now) cs) = length cs \<and>
     sn + (\<Sum>c\<leftarrow>List.map_filter (live_client now) cs. client_size c) = (\<Sum>c\<leftarrow>cs. client_size c)"
proof (induction cs arbitrary: db)
  case Nil
  then show ?case using gives_back_refl by (auto simp: List.map_filter_simps)
next
  case (Cons c cs)
  let ?db1 = "snd (rtk_igmp_checkClientEntryTimer now ts ga c db)"
  obtain cn1 sn1 where 1: "gives_back 0 cn1 sn1 db ?db1" "cn1 + length (opt_list (live_client now c)) = 1"
    "sn1 + (\<Sum>c\<leftarrow>opt_list (live_client now c). client_size c) = client_size c"
    using checkClient_gives by blast
  obtain cn2 sn2 where 2: "gives_back 0 cn2 sn2 ?db1 (snd (tick_clients now ts ga cs ?db1))"
    "cn2 + length (List.map_filter (live_client now) cs) = length cs"
    "sn2 + (\<Sum>c\<leftarrow>List.map_filter (live_client now) cs. client_size c) = (\<Sum>c\<leftarrow>cs. client_size c)"
    using Cons by blast
  have "gives_back 0 (cn1 + cn2) (sn1 + sn2) db (snd (tick_clients now ts ga (c # cs) db))"
    using gives_back_trans [OF 1(1) 2(1)] by (simp add: case_prod_beta)
  then show ?case
    using 1 2 by (intro exI [of _ "cn1 + cn2"] exI [of _ "sn1 + sn2"]) (auto simp: List.map_filter_simps split: option.splits)
qed

lemma checkGroup_fst: "fst (rtk_igmp_checkGroupEntryTimer m v now ts g db) = live_group now g"
  using tick_clients_fst [of now ts "groupAddr g" "clientList g" db]
  by (auto simp: rtk_igmp_checkGroupEntryTimer_def live_group_def Let_def split: prod.split)

lemma sources_of_clients: "sources_of g = (\<Sum>c\<leftarrow>clientList g. client_size c)"
  by (simp add: sources_of_def client_size_def)

lemma checkGroup_gives:
  "\<exists>gn cn sn. gives_back gn cn sn db (snd (rtk_igmp_checkGroupEntryTimer m v now ts g db)) \<and>
     gn + length (opt_list (live_group now g)) = 1 \<and>
     cn + (\<Sum>g\<leftarrow>opt_list (live_group now g). length (clientList g)) = length (clientList g) \<and>
     sn + (\<Sum>g\<leftarrow>opt_list (live_group now g). sources_of g) = sources_of g"
proof -
  let ?cs = "List.map_filter (live_client now) (clientList g)"
  let ?t = "tick_clients now ts (groupAddr g) (clientList g) db"
  obtain cn sn where t: "gives_back 0 cn sn db (snd ?t)" "cn + length ?cs = length (clientList g)"
    "sn + (\<Sum>c\<leftarrow>?cs. client_size c) = (\<Sum>c\<leftarrow>clientList g. client_size c)"
    using tick_clients_gives by blast
  have f: "fst ?t = ?cs" by (rule tick_clients_fst)
  show ?thesis
  proof (cases "?cs = []")
    case True
    then have "gives_back 1 cn sn db (snd (rtk_igmp_checkGroupEntryTimer m v now ts g db))"
      using t(1) f by (auto simp: rtk_igmp_checkGroupEntryTimer_def gives_back_def call_def case_prod_beta)
    then show ?thesis using True t by (intro exI [of _ 1] exI [of _ cn] exI [of _ sn]) (simp add: live_group_def sources_of_clients)
  next
    case False
    then have "gives_back 0 cn sn db (snd (rtk_igmp_checkGroupEntryTimer m v now ts g db))"
      using t(1) f by (simp add: rtk_igmp_checkGroupEntryTimer_def case_prod_beta)
    then show ?thesis using False t by (intro exI [of _ 0] exI [of _ cn] exI [of _ sn]) (simp add: live_group_def sources_of_clients)
  qed
qed

lemma tick_groups_fst: "fst (tick_groups m v now ts gs db) = List.map_filter (live_group now) gs"
proof (induction gs arbitrary: db)
  case (Cons g gs)
  obtain g' db1 where s: "rtk_igmp_checkGroupEntryTimer m v now ts g db = (g', db1)" by fastforce
  then have "g' = live_group now g" using checkGroup_fst [of m v now ts g db] by simp
  then show ?case using Cons [of db1] s by (simp add: List.map_filter_simps case_prod_beta split: option.split)
qed (simp add: List.map_filter_simps)

lemma tick_groups_gives:
  "\<exists>gn cn sn. gives_back gn cn sn db (snd (tick_groups m v now ts gs db)) \<and>
     gn + length (List.map_filter (live_group now) gs) = length gs \<and>
     cn + (\<Sum>g\<leftarrow>List.map_filter (live_group now) gs. length (clientList g)) = (\<Sum>g\<leftarrow>gs. length (clientList g)) \<and>
     sn + (\<Sum>g\<leftarrow>List.map_filter (live_group now) gs. sources_of g) = (\<Sum>g\<leftarrow>gs. sources_of g)"
proof (induction gs arbitrary: db)
  case Nil
  then show ?case using gives_back_refl by (auto simp: List.map_filter_simps)
next
  case (Cons g gs)
  let ?db1 = "snd (rtk_igmp_checkGroupEntryTimer m v now ts g db)"
  obtain gn1 cn1 sn1 where 1: "gives_back gn1 cn1 sn1 db ?db1" "gn1 + length (opt_list (live_group now g)) = 1"
    "cn1 + (\<Sum>g\<leftarrow>opt_list (live_group now g). length (clientList g)) = length (clientList g)"
    "sn1 + (\<Sum>g\<leftarrow>opt_list (live_group now g). sources_of g) = sources_of g"
    using checkGroup_gives by blast
  obtain gn2 cn2 sn2 where 2: "gives_back gn2 cn2 sn2 ?db1 (snd (tick_groups m v now ts gs ?db1))"
    "gn2 + length (List.map_filter (live_group now) gs) = length gs"
    "cn2 + (\<Sum>g\<leftarrow>List.map_filter (live_group now) gs. length (clientList g)) = (\<Sum>g\<leftarrow>gs. length (clientList g))"
    "sn2 + (\<Sum>g\<leftarrow>List.map_filter (live_group now) gs. sources_of g) = (\<Sum>g\<leftarrow>gs. sources_of g)"
    using Cons by blast
  have "gives_back (gn1 + gn2) (cn1 + cn2) (sn1 + sn2) db (snd (tick_groups m v now ts (g # gs) db))"
    using gives_back_trans [OF 1(1) 2(1)] by (simp add: case_prod_beta)
  then show ?case
    using 1 2 by (intro exI [of _ "gn1 + gn2"] exI [of _ "cn1 + cn2"] exI [of _ "sn1 + sn2"]) (auto simp: List.map_filter_simps split: option.splits)
qed

section \<open>The pass over the tables\<close>

lemma live_group_bucket: "bucket_ok v h gs \<Longrightarrow> bucket_ok v h (List.map_filter (live_group now) gs)"
proof -
  assume b: "bucket_ok v h gs"
  have cl: "clients_ok v (List.map_filter (live_client now) cs)" if "clients_ok v cs" for cs
    using that unfolding clients_ok_def
    by (rule distinct_map_filter) (auto simp: live_client_def client_key_def split: if_splits)
  have "distinct (map (group_key v) (List.map_filter (live_group now) gs))"
    using b unfolding bucket_ok_def
    by (intro distinct_map_filter) (auto simp: live_group_def group_key_def Let_def split: if_splits)
  then show ?thesis using b cl by (auto simp: bucket_ok_def set_map_filter live_group_def Let_def split: if_splits)
qed

lemma tick_bucket_tables:
  "tables (tick_bucket m v now ts h db) = tables (set_bucket m v h (List.map_filter (live_group now) (tables db m v h)) db)"
  "sysUpSeconds (tick_bucket m v now ts h db) = sysUpSeconds db"
  using tick_groups_fst [of m v now ts "tables db m v h" db] tick_groups_gives [of db m v now ts "tables db m v h"]
  by (auto simp: tick_bucket_def set_bucket_def gives_back_def case_prod_beta)

lemma tick_bucket_ok:
  assumes ok: "db_ok ms db" and m: "m \<in> set ms" and h: "h < IGMP_HASH_TBL_SIZE"
  shows "db_ok ms (tick_bucket m v now ts h db)"
proof -
  let ?gs = "List.map_filter (live_group now) (tables db m v h)" and ?t = "tick_groups m v now ts (tables db m v h) db"
  obtain gn cn sn where t: "gives_back gn cn sn db (snd ?t)" "gn + length ?gs = length (tables db m v h)"
    "cn + (\<Sum>g\<leftarrow>?gs. length (clientList g)) = (\<Sum>g\<leftarrow>tables db m v h. length (clientList g))"
    "sn + (\<Sum>g\<leftarrow>?gs. sources_of g) = (\<Sum>g\<leftarrow>tables db m v h. sources_of g)"
    using tick_groups_gives by blast
  show ?thesis
    by (rule db_ok_replace [OF ok m h live_group_bucket [OF db_ok_bucket [OF ok]] tick_bucket_tables(1)])
      (use t in \<open>auto simp: tick_bucket_def gives_back_def set_bucket_def case_prod_beta\<close>)
qed

text \<open>A pass over the buckets of one table.\<close>

lemma fold_tick_ok:
  "db_ok ms db \<Longrightarrow> m \<in> set ms \<Longrightarrow> \<forall>h\<in>set hs. h < IGMP_HASH_TBL_SIZE \<Longrightarrow> db_ok ms (fold (tick_bucket m v now ts) hs db)"
  by (induction hs arbitrary: db) (auto simp: tick_bucket_ok)

lemma fold_tick_tables:
  assumes "distinct hs"
  shows "tables (fold (tick_bucket m v now ts) hs db) m' v' h' =
     (if m' = m \<and> v' = v \<and> h' \<in> set hs then List.map_filter (live_group now) (tables db m v h') else tables db m' v' h') \<and>
     sysUpSeconds (fold (tick_bucket m v now ts) hs db) = sysUpSeconds db"
  using assms
proof (induction hs arbitrary: db)
  case (Cons h hs)
  then show ?case by (auto simp: tick_bucket_tables tables_set_bucket)
qed simp

lemma tick_module_ok: "db_ok ms db \<Longrightarrow> m \<in> set ms \<Longrightarrow> db_ok ms (tick_module ts uf m db)"
  by (simp add: tick_module_def Let_def fold_tick_ok)

lemma tick_module_tables:
  "tables (tick_module ts uf m db) m' v' h' =
     (if m' = m \<and> h' < IGMP_HASH_TBL_SIZE then List.map_filter (live_group (sysUpSeconds db)) (tables db m v' h') else tables db m' v' h') \<and>
   sysUpSeconds (tick_module ts uf m db) = sysUpSeconds db"
  using fold_tick_tables [of "[0..<IGMP_HASH_TBL_SIZE]"]
  by (cases v') (simp_all add: tick_module_def Let_def call_def)

lemma maintain_ok:
  assumes "db_ok ms db" "set ns \<subseteq> set ms"
  shows "db_ok ms (rtk_igmp_maintainMulticastSnoopingTimerList ts uf ns cur db)"
proof -
  have "db_ok ms (fold (tick_module ts uf) ns db)" if "db_ok ms db" for db
    using that assms(2) by (induction ns arbitrary: db) (auto simp: tick_module_ok)
  moreover have "db_ok ms (db\<lparr>sysUpSeconds := t\<rparr>)" for t using assms(1) by (rule db_ok_frame) simp_all
  ultimately show ?thesis by (simp add: rtk_igmp_maintainMulticastSnoopingTimerList_def)
qed

lemma fold_module_tables:
  assumes "distinct ns"
  shows "tables (fold (tick_module ts uf) ns db) m v h =
     (if m \<in> set ns \<and> h < IGMP_HASH_TBL_SIZE then List.map_filter (live_group (sysUpSeconds db)) (tables db m v h) else tables db m v h)"
  using assms
proof (induction ns arbitrary: db)
  case (Cons n ns)
  then show ?case using tick_module_tables [of ts uf n db] by auto
qed simp

lemma up_seconds_eq: "up_seconds start cur = cur - start"
  by (simp add: up_seconds_def)

section \<open>Other operations on the tables\<close>

lemma client_filter_sums:
  "length (filter P (concat (map clientList gs))) + (\<Sum>g\<leftarrow>gs. length (filter (\<lambda>c. \<not> P c) (clientList g))) = (\<Sum>g\<leftarrow>gs. length (clientList g))"
  "(\<Sum>c\<leftarrow>filter P (concat (map clientList gs)). client_size c) + (\<Sum>g\<leftarrow>gs. \<Sum>c\<leftarrow>filter (\<lambda>c. \<not> P c) (clientList g). client_size c) =
     (\<Sum>g\<leftarrow>gs. \<Sum>c\<leftarrow>clientList g. client_size c)"
proof -
  have l: "length (filter P cs) + length (filter (\<lambda>c. \<not> P c) cs) = length cs" for cs :: "clientEntry list"
    by (rule sum_length_filter_compl)
  have s: "(\<Sum>c\<leftarrow>filter P cs. client_size c) + (\<Sum>c\<leftarrow>filter (\<lambda>c. \<not> P c) cs. client_size c) = (\<Sum>c\<leftarrow>cs. client_size c)" for cs
    by (induction cs) auto
  show "length (filter P (concat (map clientList gs))) + (\<Sum>g\<leftarrow>gs. length (filter (\<lambda>c. \<not> P c) (clientList g))) = (\<Sum>g\<leftarrow>gs. length (clientList g))"
  proof (induction gs)
    case (Cons g gs) then show ?case using l [of "clientList g"] by simp
  qed simp
  show "(\<Sum>c\<leftarrow>filter P (concat (map clientList gs)). client_size c) + (\<Sum>g\<leftarrow>gs. \<Sum>c\<leftarrow>filter (\<lambda>c. \<not> P c) (clientList g). client_size c) =
     (\<Sum>g\<leftarrow>gs. \<Sum>c\<leftarrow>clientList g. client_size c)"
  proof (induction gs)
    case (Cons g gs) then show ?case using s [of "clientList g"] by simp
  qed simp
qed

lemma distinct_map_filter_list: "distinct (map k xs) \<Longrightarrow> distinct (map k (filter P xs))"
  by (induction xs) auto

lemma group_key_clients [simp]: "group_key v (g\<lparr>clientList := cs\<rparr>) = group_key v g"
  by (simp add: group_key_def)

lemma drop_dev_ok:
  assumes ok: "db_ok ms db" and m: "m \<in> set ms" and h: "h < IGMP_HASH_TBL_SIZE"
  shows "db_ok ms (drop_dev d m v h db)"
proof -
  let ?gs = "map (\<lambda>g. g\<lparr>clientList := filter (\<lambda>c. inIfidx c \<noteq> d) (clientList g)\<rparr>) (tables db m v h)"
  have b: "bucket_ok v h ?gs"
    using db_ok_bucket [OF ok, of v h m] by (auto simp: bucket_ok_def clients_ok_def comp_def intro: distinct_map_filter_list)
  show ?thesis
    by (rule db_ok_replace [OF ok m h b])
      (use client_filter_sums [of "\<lambda>c. inIfidx c = d" "tables db m v h"]
        in \<open>simp_all add: drop_dev_def Let_def set_bucket_def sources_of_clients client_size_def comp_def\<close>)
qed

lemma clear_dev_ok:
  assumes "db_ok ms db" "set ns \<subseteq> set ms"
  shows "db_ok ms (rtk_igmp_clearDataBaseByDev ns d db)"
proof -
  have f: "db_ok ms (fold (drop_dev d m v) hs db)" if "db_ok ms db" "m \<in> set ms" "\<forall>h\<in>set hs. h < IGMP_HASH_TBL_SIZE" for m v hs db
    using that by (induction hs arbitrary: db) (auto simp: drop_dev_ok)
  show ?thesis using assms unfolding rtk_igmp_clearDataBaseByDev_def
    by (induction ns arbitrary: db) (auto simp: f)
qed

lemma delete_groups_ok: "db_ok ms db \<Longrightarrow> m \<in> set ms \<Longrightarrow> db_ok ms (delete_groups m v gs db)"
  by (induction gs arbitrary: db) (auto simp: delete_group_ok)

lemma flush_ok:
  assumes "db_ok ms db" "set ns \<subseteq> set ms"
  shows "db_ok ms (rtk_igmp_flush_Br_mdb br ns ifidx v db)"
proof -
  have f: "db_ok ms (fold (\<lambda>h db. delete_groups m v (tables db m v h) db) hs db)" if "db_ok ms db" "m \<in> set ms" for m hs db
    using that by (induction hs arbitrary: db) (auto simp: delete_groups_ok)
  show ?thesis using assms unfolding rtk_igmp_flush_Br_mdb_def
    by (induction ns arbitrary: db) (auto simp: f)
qed

lemma black_groups_ok:
  "db_ok ms db \<Longrightarrow> m \<in> set ms \<Longrightarrow> h < IGMP_HASH_TBL_SIZE \<Longrightarrow> tables db m v h = ds @ gs \<Longrightarrow>
   db_ok ms (black_groups m v h p d ds gs db)"
proof (induction gs arbitrary: ds db)
  case (Cons g gs)
  show ?case
  proof (cases "find (black_client p d) (clientList g)")
    case None
    then show ?thesis using Cons by simp
  next
    case (Some c)
    let ?g = "g\<lparr>clientList := remove_first (black_client p d) (clientList g)\<rparr>"
    let ?db = "set_bucket m v h (ds @ ?g # gs) (db\<lparr>source_free := source_free db + length (sourceList c), client_free := client_free db + 1\<rparr>)"
    have "map (group_key v) (ds @ ?g # gs) = map (group_key v) (tables db m v h)" using Cons.prems(4) by simp
    then have b: "bucket_ok v h (ds @ ?g # gs)"
      using db_ok_bucket [OF Cons.prems(1), of v h m] Cons.prems(4) by (auto simp: bucket_ok_def clients_ok_def distinct_remove_first)
    have "db_ok ms ?db"
      by (rule db_ok_replace [OF Cons.prems(1-3) b])
        (use Cons.prems(4) sum_remove_first [OF Some, of "\<lambda>_. 1"] sum_remove_first [OF Some, of client_size]
          in \<open>simp_all add: set_bucket_def sources_of_clients client_size_def sum_list_triv\<close>)
    then have "db_ok ms (call (ReflushFlow (groupAddr g)) ?db)" by simp
    moreover have "tables (call (ReflushFlow (groupAddr g)) ?db) m v h = (ds @ [?g]) @ gs" by (simp add: call_def tables_set_bucket)
    ultimately have "db_ok ms (black_groups m v h p d (ds @ [?g]) gs (call (ReflushFlow (groupAddr g)) ?db))"
      using Cons.prems(2,3) by (intro Cons.IH)
    then show ?thesis using Some by (simp add: Let_def)
  qed
qed simp

lemma blackList_updateFlow_ok:
  assumes "db_ok ms db" "set ns \<subseteq> set ms"
  shows "db_ok ms (rtk_igmp_blackList_updateFlow ns p d db)"
proof -
  have f: "db_ok ms (fold (\<lambda>h db. black_groups m v h p d [] (tables db m v h) db) hs db)"
    if "db_ok ms db" "m \<in> set ms" "\<forall>h\<in>set hs. h < IGMP_HASH_TBL_SIZE" for m v hs db
    using that by (induction hs arbitrary: db) (auto simp: black_groups_ok)
  show ?thesis using assms unfolding rtk_igmp_blackList_updateFlow_def
    by (induction ns arbitrary: db) (auto simp: f)
qed

end
