(* ===== verification/Igmp_Rules_Props.thy ===== *)
theory Igmp_Rules_Props
  imports Igmp_Rules
begin

text \<open>
  The invariant of a table of rules over any sequence of operations, what the side-by-side walk of
  a check and of a deletion finds, and the properties of the white list that follow.
\<close>

section \<open>Invariant of a table\<close>

text \<open>How many device lists use a rule.\<close>

definition refs :: "'p rules \<Rightarrow> nat \<Rightarrow> nat" where
  "refs st i = (\<Sum>d\<leftarrow>devs st. count_list (idxs st d IP_VERSION4) i + count_list (idxs st d IP_VERSION6) i)"

text \<open>
  The table and the lists are ordered, a rule is counted once for every list that uses it and is
  gone when none does, and a list uses only rules that are there and of its address family.
\<close>

definition rules_ok :: "('p \<Rightarrow> ipver) \<Rightarrow> 'p rules \<Rightarrow> bool" where
  "rules_ok ver st \<longleftrightarrow> distinct (devs st) \<and> sorted_wrt (<) (map ruleIdx (ruleList st)) \<and>
     (\<forall>e\<in>set (ruleList st). ruleIdx e < icrIdx st \<and> refCnt e = int (refs st (ruleIdx e)) \<and> 0 < refCnt e) \<and>
     (\<forall>d v. sorted_wrt (<) (idxs st d v)) \<and>
     (\<forall>d v. d \<notin> set (devs st) \<longrightarrow> idxs st d v = []) \<and>
     (\<forall>d v. \<forall>i\<in>set (idxs st d v). \<exists>e\<in>set (ruleList st). ruleIdx e = i \<and> ver (patten e) = v)"

lemma rules_okI:
  assumes "distinct (devs st)" "sorted_wrt (<) (map ruleIdx (ruleList st))"
    and "\<And>e. e \<in> set (ruleList st) \<Longrightarrow> ruleIdx e < icrIdx st \<and> refCnt e = int (refs st (ruleIdx e)) \<and> 0 < refCnt e"
    and "\<And>d v. sorted_wrt (<) (idxs st d v)" "\<And>d v. d \<notin> set (devs st) \<Longrightarrow> idxs st d v = []"
    and "\<And>d v i. i \<in> set (idxs st d v) \<Longrightarrow> \<exists>e\<in>set (ruleList st). ruleIdx e = i \<and> ver (patten e) = v"
  shows "rules_ok ver st"
  using assms unfolding rules_ok_def by blast

lemma insert_idx_Some:
  "insert_idx i xs = Some ys \<Longrightarrow> sorted_wrt (<) xs \<Longrightarrow>
   sorted_wrt (<) ys \<and> set ys = insert i (set xs) \<and> i \<notin> set xs \<and> count_list ys j = count_list xs j + of_bool (j = i)"
  by (induction i xs arbitrary: ys rule: insert_idx.induct) (force split: if_splits)+

lemma insert_idx_None: "insert_idx i xs = None \<Longrightarrow> i \<in> set xs"
  by (induction i xs rule: insert_idx.induct) (auto split: if_splits)

lemma count_remove1: "i \<in> set xs \<Longrightarrow> count_list (remove1 i xs) j + of_bool (j = i) = count_list xs j"
  by (induction xs) auto

lemma sorted_wrt_remove1: "sorted_wrt (<) xs \<Longrightarrow> sorted_wrt (<) (remove1 (i::nat) xs)"
  by (induction xs) (auto dest: notin_set_remove1)

lemma devs_set_idxs [simp]: "devs (set_idxs d v xs st) = devs st"
  and ruleList_set_idxs [simp]: "ruleList (set_idxs d v xs st) = ruleList st"
  and icrIdx_set_idxs [simp]: "icrIdx (set_idxs d v xs st) = icrIdx st"
  and idxs_set_idxs: "idxs (set_idxs d v xs st) d' v' = (if d' = d \<and> v' = v then xs else idxs st d' v')"
  by (auto simp: set_idxs_def)

lemma refs_set_idxs:
  assumes "distinct (devs st)" "d \<in> set (devs st)"
  shows "refs (set_idxs d v xs st) i + count_list (idxs st d v) i = refs st i + count_list xs i"
proof -
  have "refs (set_idxs d v xs st) i + (count_list (idxs st d IP_VERSION4) i + count_list (idxs st d IP_VERSION6) i) =
      refs st i + (count_list (idxs (set_idxs d v xs st) d IP_VERSION4) i + count_list (idxs (set_idxs d v xs st) d IP_VERSION6) i)"
    unfolding refs_def devs_set_idxs by (rule sum_list_upd [OF assms]) (simp add: idxs_set_idxs)
  then show ?thesis by (cases v) (simp_all add: idxs_set_idxs)
qed

lemma refs_simps [simp]:
  "refs (st\<lparr>ruleList := es\<rparr>) = refs st" "refs (st\<lparr>icrIdx := n\<rparr>) = refs st"
  by (simp_all add: refs_def fun_eq_iff)

lemma refs_pos: "d \<in> set (devs st) \<Longrightarrow> i \<in> set (idxs st d v) \<Longrightarrow> 0 < refs st i"
  unfolding refs_def by (cases v) (auto simp: sum_list_eq_0_iff count_list_0_iff intro!: bexI [of _ d] gr0I)

lemma refs_unused:
  assumes "\<And>d v. i \<notin> set (idxs st d v)" shows "refs st i = 0"
  using assms by (auto simp: refs_def sum_list_eq_0_iff)

lemma sorted_idx_inj: "sorted_wrt (<) (map ruleIdx es) \<Longrightarrow> e \<in> set es \<Longrightarrow> x \<in> set es \<Longrightarrow> ruleIdx e = ruleIdx x \<Longrightarrow> e = x"
  by (induction es) auto

lemma find_idx:
  "sorted_wrt (<) (map ruleIdx es) \<Longrightarrow> e \<in> set es \<Longrightarrow> find (\<lambda>x. ruleIdx x = ruleIdx e) es = Some e"
  by (induction es) auto

text \<open>The operations in terms of attaching a rule to a list and detaching it.\<close>

lemma rules_ok_init: "distinct ds \<Longrightarrow> rules_ok ver (rules_init ds)"
  by (simp add: rules_ok_def rules_init_def)

lemma sorted_filter_idx: "sorted_wrt (<) (map ruleIdx es) \<Longrightarrow> sorted_wrt (<) (map ruleIdx (filter P es))"
  by (induction es) auto

lemma sorted_map_idx:
  "(\<And>x. ruleIdx (f x) = ruleIdx x) \<Longrightarrow> map ruleIdx (map f es) = map ruleIdx es"
  by simp

lemma detach_ok:
  assumes ok: "rules_ok ver st" and d: "d \<in> set (devs st)" and i: "ruleIdx e \<in> set (idxs st d v)" and e: "e \<in> set (ruleList st)"
  shows "rules_ok ver (entry_del e (set_idxs d v (remove1 (ruleIdx e) (idxs st d v)) st))" (is "rules_ok ver (entry_del e ?st)")
proof -
  note o = ok [unfolded rules_ok_def]
  have srt: "sorted_wrt (<) (map ruleIdx (ruleList st))" and srti: "\<And>d v. sorted_wrt (<) (idxs st d v)" using o by auto
  have refs: "refs ?st j + of_bool (j = ruleIdx e) = refs st j" for j
    using refs_set_idxs [of st d v "remove1 (ruleIdx e) (idxs st d v)" j] count_remove1 [OF i, of j] o d by simp
  have dist: "distinct (idxs st d v)" using srti [of d v] by (simp add: strict_sorted_iff)
  have idx: "set (idxs ?st d' v') \<subseteq> set (idxs st d' v')" "sorted_wrt (<) (idxs ?st d' v')" for d' v'
    using srti dist by (auto simp: idxs_set_idxs sorted_wrt_remove1)
  have unused: "j \<noteq> ruleIdx e" if "refs ?st (ruleIdx e) = 0" "j \<in> set (idxs ?st d' v')" for j d' v'
  proof
    assume "j = ruleIdx e"
    moreover have "d' \<in> set (devs ?st)" using that(2) idx(1) [of d' v'] o by fastforce
    ultimately show False using refs_pos [of d' ?st j v'] that by simp
  qed
  have keep: "\<exists>x\<in>set (ruleList st). ruleIdx x = j \<and> ver (patten x) = v'" if "j \<in> set (idxs ?st d' v')" for j d' v'
    using o idx(1) that by blast
  have empty: "idxs ?st d' v' = []" if "d' \<notin> set (devs st)" for d' v' using o d that by (auto simp: idxs_set_idxs)
  have re: "refCnt e = int (refs st (ruleIdx e))" using o e by auto
  show ?thesis
  proof (cases "refCnt e - 1 = 0")
    case True
    then have z: "refs ?st (ruleIdx e) = 0" using refs [of "ruleIdx e"] re by simp
    have "\<exists>x\<in>set (filter (\<lambda>x. ruleIdx x \<noteq> ruleIdx e) (ruleList st)). ruleIdx x = j \<and> ver (patten x) = v'" if "j \<in> set (idxs ?st d' v')" for j d' v'
      using keep [OF that] unused [OF z that] by auto
    moreover have "refCnt x = int (refs ?st (ruleIdx x))" if "x \<in> set (ruleList st)" "ruleIdx x \<noteq> ruleIdx e" for x
      using refs [of "ruleIdx x"] o that by auto
    ultimately show ?thesis using True o empty idx srt
      unfolding rules_ok_def entry_del_def entry_free_def by (auto simp: sorted_filter_idx)
  next
    case False
    let ?f = "\<lambda>x. if ruleIdx x = ruleIdx e then x\<lparr>refCnt := refCnt e - 1\<rparr> else x"
    have "\<exists>x\<in>set (map ?f (ruleList st)). ruleIdx x = j \<and> ver (patten x) = v'" if "j \<in> set (idxs ?st d' v')" for j d' v'
    proof -
      from keep [OF that] obtain x where "x \<in> set (ruleList st)" "ruleIdx x = j" "ver (patten x) = v'" by blast
      then show ?thesis by (intro bexI [of _ "?f x"]) auto
    qed
    moreover have "0 < refCnt e" using o e by blast
    with False have "1 < refCnt e" by simp
    moreover have "refCnt e - 1 = int (refs ?st (ruleIdx e))" using refs [of "ruleIdx e"] re by simp
    moreover have "map ruleIdx (map ?f (ruleList st)) = map ruleIdx (ruleList st)" by simp
    moreover have "refs ?st j = refs st j" if "j \<noteq> ruleIdx e" for j using refs [of j] that by simp
    ultimately show ?thesis
      using o empty idx(2) srt unfolding entry_del_def if_not_P [OF False] by (intro rules_okI) (auto simp del: map_map)
  qed
qed

text \<open>A rule that was just made is not used yet: every other rule is.\<close>

definition rules_but :: "('p \<Rightarrow> ipver) \<Rightarrow> nat option \<Rightarrow> 'p rules \<Rightarrow> bool" where
  "rules_but ver new st \<longleftrightarrow> distinct (devs st) \<and> sorted_wrt (<) (map ruleIdx (ruleList st)) \<and>
     (\<forall>e\<in>set (ruleList st). ruleIdx e < icrIdx st \<and> refCnt e = int (refs st (ruleIdx e)) \<and> (new \<noteq> Some (ruleIdx e) \<longrightarrow> 0 < refCnt e)) \<and>
     (\<forall>d v. sorted_wrt (<) (idxs st d v)) \<and>
     (\<forall>d v. d \<notin> set (devs st) \<longrightarrow> idxs st d v = []) \<and>
     (\<forall>d v. \<forall>i\<in>set (idxs st d v). \<exists>e\<in>set (ruleList st). ruleIdx e = i \<and> ver (patten e) = v)"

lemma rules_but_None: "rules_but ver None st = rules_ok ver st"
  by (simp add: rules_but_def rules_ok_def)

lemma attach_ok:
  assumes ok: "rules_but ver new st" and new: "new = None \<or> new = Some i" and d: "d \<in> set (devs st)"
    and e: "\<exists>e\<in>set (ruleList st). ruleIdx e = i \<and> ver (patten e) = v"
    and ins: "insert_idx i (idxs st d v) = Some is"
  shows "rules_ok ver ((set_idxs d v is st)\<lparr>ruleList := map (\<lambda>x. if ruleIdx x = i then x\<lparr>refCnt := refCnt x + 1\<rparr> else x) (ruleList st)\<rparr>)"
proof -
  note o = ok [unfolded rules_but_def]
  let ?st = "set_idxs d v is st" and ?f = "\<lambda>x. if ruleIdx x = i then x\<lparr>refCnt := refCnt x + 1\<rparr> else x"
  have srti: "\<And>d v. sorted_wrt (<) (idxs st d v)" using o by auto
  note ins' = insert_idx_Some [OF ins srti]
  have refs: "refs ?st j = refs st j + of_bool (j = i)" for j
    using refs_set_idxs [of st d v "is" j] ins' [of j] o d by simp
  have "\<exists>x\<in>set (map ?f (ruleList st)). ruleIdx x = j \<and> ver (patten x) = v'" if "j \<in> set (idxs ?st d' v')" for j d' v'
  proof -
    have "\<exists>x\<in>set (ruleList st). ruleIdx x = j \<and> ver (patten x) = v'"
      using o e that ins' by (cases "d' = d \<and> v' = v \<and> j = i") (auto simp: idxs_set_idxs split: if_splits)
    then obtain x where "x \<in> set (ruleList st)" "ruleIdx x = j" "ver (patten x) = v'" by blast
    then show ?thesis by (intro bexI [of _ "?f x"]) auto
  qed
  moreover have "map ruleIdx (map ?f (ruleList st)) = map ruleIdx (ruleList st)" by simp
  moreover have "sorted_wrt (<) (idxs ?st d' v')" for d' v' using srti ins' by (simp add: idxs_set_idxs)
  moreover have "idxs ?st d' v' = []" if "d' \<notin> set (devs st)" for d' v' using o d that by (auto simp: idxs_set_idxs)
  ultimately show ?thesis
    using o new by (intro rules_okI) (auto simp: refs simp del: map_map)
qed

lemma icr_fresh: "rules_ok ver st \<Longrightarrow> icrIdx st \<notin> set (idxs st d v)"
  unfolding rules_ok_def by (metis less_irrefl)

lemma malloc_ok:
  assumes "rules_ok ver st"
  shows "rules_but ver (Some (icrIdx st)) (entry_malloc p st)"
proof -
  have "refs st (icrIdx st) = 0" using icr_fresh [OF assms] by (rule refs_unused)
  then show ?thesis using assms by (auto simp: rules_but_def rules_ok_def entry_malloc_def sorted_wrt_append)
qed

lemma malloc_free:
  assumes "rules_ok ver st" shows "rules_ok ver (entry_free (icrIdx st) (entry_malloc p st))"
proof -
  have "filter (\<lambda>e. ruleIdx e \<noteq> icrIdx st) (ruleList st) = ruleList st"
    using assms by (auto simp: rules_ok_def filter_id_conv)
  then have "entry_free (icrIdx st) (entry_malloc p st) = st\<lparr>icrIdx := icrIdx st + 1\<rparr>"
    by (simp add: entry_free_def entry_malloc_def)
  then show ?thesis using assms by (auto simp: rules_ok_def)
qed

lemma attach_keeps:
  assumes "rules_but ver new st" "new = None \<or> new = Some i \<and> ok_idx" "d \<in> set (devs st)"
    and "\<exists>e\<in>set (ruleList st). ruleIdx e = i \<and> ver (patten e) = v" and "new = Some i \<Longrightarrow> i \<notin> set (idxs st d v)"
  shows "rules_ok ver (snd (attach v d ok_idx i st))"
  using assms attach_ok [OF assms(1) _ assms(3,4)] insert_idx_None [of i "idxs st d v"]
  by (auto simp: attach_def rules_but_None split: option.split)

lemma rule_add_ok:
  assumes ok: "rules_ok ver st" and add: "rule_add ver ok_entry ok_idx p d st = Inr (r, st')"
  shows "rules_ok ver st'"
proof (cases "d \<in> set (devs st)")
  case True
  show ?thesis
  proof (cases "find (\<lambda>e. patten e = p) (ruleList st)")
    case None
    have "rules_ok ver (snd (attach (ver p) d True (icrIdx st) (entry_malloc p st)))"
      using True icr_fresh [OF ok] by (intro attach_keeps [OF malloc_ok [OF ok]]) (auto simp: entry_malloc_def)
    then show ?thesis using add True None malloc_free [OF ok, of p] by (auto simp: rule_add_def Let_def split: if_splits)
  next
    case (Some e)
    then have "e \<in> set (ruleList st)" "patten e = p" by (auto simp: find_Some_iff)
    then have "rules_ok ver (snd (attach (ver p) d ok_idx (ruleIdx e) st))"
      using True ok by (intro attach_keeps [of ver None]) (auto simp: rules_but_None)
    then show ?thesis using add True Some by (auto simp: rule_add_def)
  qed
qed (use assms in \<open>auto simp: rule_add_def\<close>)

lemma attached_rule:
  assumes "rules_ok ver st" "i \<in> set (idxs st d v)"
  obtains e where "e \<in> set (ruleList st)" "ruleIdx e = i" "find (\<lambda>e. ruleIdx e = i) (ruleList st) = Some e" "d \<in> set (devs st)"
proof -
  from assms obtain e where "e \<in> set (ruleList st)" "ruleIdx e = i" unfolding rules_ok_def by blast
  moreover have "d \<in> set (devs st)" using assms by (fastforce simp: rules_ok_def)
  ultimately show ?thesis using that find_idx [of "ruleList st" e] assms(1) by (auto simp: rules_ok_def)
qed

lemma rule_del_byIdx_ok:
  assumes ok: "rules_ok ver st" shows "rules_ok ver (snd (rule_del_byIdx d i st))"
proof -
  have "rules_ok ver (case find (\<lambda>e. ruleIdx e = i) (ruleList st) of None \<Rightarrow> set_idxs d v (remove1 i (idxs st d v)) st
      | Some e \<Rightarrow> entry_del e (set_idxs d v (remove1 i (idxs st d v)) st))" if i: "i \<in> set (idxs st d v)" for v
  proof -
    obtain e where e: "e \<in> set (ruleList st)" "ruleIdx e = i" "find (\<lambda>e. ruleIdx e = i) (ruleList st) = Some e" "d \<in> set (devs st)"
      by (rule attached_rule [OF ok i])
    then show ?thesis using detach_ok [OF ok e(4) _ e(1)] i by simp
  qed
  then show ?thesis using ok by (auto simp: rule_del_byIdx_def Let_def)
qed

section \<open>The side-by-side walk\<close>

lemma seek_sorted:
  assumes "sorted_wrt (<) (map ruleIdx rest)" "e \<in> set rest"
  obtains rest' where "seek (ruleIdx e) rest = Some (e, rest')" "sorted_wrt (<) (map ruleIdx rest')"
    and "set rest' = {x\<in>set rest. ruleIdx e < ruleIdx x}"
  using assms
proof (induction rest arbitrary: thesis)
  case (Cons a rest)
  show ?case
  proof (cases "a = e")
    case True
    then show ?thesis using Cons.prems by (intro Cons.prems(1) [of rest]) auto
  next
    case False
    then have "ruleIdx a < ruleIdx e" "e \<in> set rest" using Cons.prems by auto
    moreover obtain rest' where "seek (ruleIdx e) rest = Some (e, rest')" "sorted_wrt (<) (map ruleIdx rest')"
      "set rest' = {x\<in>set rest. ruleIdx e < ruleIdx x}"
      using Cons.IH Cons.prems(2) calculation by auto
    ultimately show ?thesis using Cons.prems by (intro Cons.prems(1) [of rest']) auto
  qed
qed simp

lemma rule_scan_spec:
  assumes "sorted_wrt (<) (map ruleIdx rest)" "sorted_wrt (<) is" "\<forall>i\<in>set is. \<exists>e\<in>set rest. ruleIdx e = i"
  shows "rule_scan hit all rest is enabled =
    (\<exists>e\<in>set rest. ruleIdx e \<in> set is \<and> hit (patten e), enabled \<or> is \<noteq> [])"
  using assms
proof (induction "is" arbitrary: rest enabled)
  case (Cons i "is")
  then obtain e where e: "e \<in> set rest" "ruleIdx e = i" by auto
  obtain rest' where r: "seek i rest = Some (e, rest')" "sorted_wrt (<) (map ruleIdx rest')" "set rest' = {x\<in>set rest. i < ruleIdx x}"
    using seek_sorted [OF Cons.prems(1) e(1)] e(2) by metis
  have gr: "\<forall>j\<in>set is. i < j" using Cons.prems(2) by simp
  have "\<forall>j\<in>set is. \<exists>x\<in>set rest'. ruleIdx x = j" using Cons.prems(3) gr r(3) by fastforce
  then have IH: "rule_scan hit all rest' is True = (\<exists>x\<in>set rest'. ruleIdx x \<in> set is \<and> hit (patten x), True)"
    using Cons.IH [OF r(2)] Cons.prems(2) by simp
  have uniq: "x = e" if "x \<in> set rest" "ruleIdx x = i" for x using sorted_idx_inj Cons.prems(1) e that by blast
  show ?case
  proof (cases "hit (patten e)")
    case True
    then show ?thesis using r e by auto
  next
    case False
    have "(\<exists>x\<in>set rest'. ruleIdx x \<in> set is \<and> hit (patten x)) = (\<exists>x\<in>set rest. ruleIdx x \<in> set (i # is) \<and> hit (patten x))"
      using False uniq gr r(3) by auto
    then show ?thesis using r(1) False IH by simp
  qed
qed simp

lemma rules_scan:
  assumes "rules_ok ver st"
  shows "rule_scan hit (ruleList st) (ruleList st) (idxs st d v) False =
    (\<exists>e\<in>set (ruleList st). ruleIdx e \<in> set (idxs st d v) \<and> hit (patten e), idxs st d v \<noteq> [])"
proof -
  have "sorted_wrt (<) (map ruleIdx (ruleList st))" "sorted_wrt (<) (idxs st d v)"
    and "\<forall>i\<in>set (idxs st d v). \<exists>e\<in>set (ruleList st). ruleIdx e = i"
    using assms unfolding rules_ok_def by blast+
  from rule_scan_spec [OF this] show ?thesis by simp
qed

lemma entry_del_keeps:
  "x \<in> set (ruleList st) \<Longrightarrow> ruleIdx x \<noteq> ruleIdx e \<Longrightarrow> x \<in> set (ruleList (entry_del e st))"
  by (force simp: entry_del_def entry_free_def)

lemma idxs_entry_del [simp]: "idxs (entry_del e st) = idxs st" "devs (entry_del e st) = devs st"
  by (simp_all add: entry_del_def entry_free_def)

text \<open>Deletion by pattern takes exactly the rules of the device that fit.\<close>

lemma rule_del_loop_spec:
  assumes "rules_ok ver st" "d \<in> set (devs st)" "sorted_wrt (<) (map ruleIdx rest)" "sorted_wrt (<) is"
    and "\<forall>i\<in>set is. \<exists>e\<in>set rest. ruleIdx e = i" "\<forall>e\<in>set rest. ruleIdx e \<in> set is \<longrightarrow> e \<in> set (ruleList st)" "set is \<subseteq> set (idxs st d v)"
  shows "rules_ok ver (rule_del_loop fits d v rest is st) \<and>
    set (idxs (rule_del_loop fits d v rest is st) d v) =
      set (idxs st d v) - {i\<in>set is. \<exists>e\<in>set rest. ruleIdx e = i \<and> fits (patten e)}"
  using assms
proof (induction "is" arbitrary: rest st)
  case (Cons i "is")
  then obtain e where e: "e \<in> set rest" "ruleIdx e = i" by auto
  have eL: "e \<in> set (ruleList st)" using Cons.prems(6) e by auto
  obtain rest' where r: "seek i rest = Some (e, rest')" "sorted_wrt (<) (map ruleIdx rest')" "set rest' = {x\<in>set rest. i < ruleIdx x}"
    using seek_sorted [OF Cons.prems(3) e(1)] e(2) by metis
  have gr: "\<forall>j\<in>set is. i < j" and srt: "sorted_wrt (<) is" using Cons.prems(4) by simp_all
  have in_rest: "\<forall>j\<in>set is. \<exists>x\<in>set rest'. ruleIdx x = j" using Cons.prems(5) gr r(3) by fastforce
  have uniq: "x = e" if "x \<in> set rest" "ruleIdx x = i" for x using sorted_idx_inj Cons.prems(3) e that by blast
  have tail: "{j\<in>set is. \<exists>x\<in>set rest'. ruleIdx x = j \<and> P x} = {j\<in>set is. \<exists>x\<in>set rest. ruleIdx x = j \<and> P x}" for P
    using gr r(3) by auto
  have at_e: "(\<exists>x\<in>set rest. ruleIdx x = i \<and> fits (patten x)) = fits (patten e)" using uniq e by blast
  have head: "{j\<in>set (i # is). \<exists>x\<in>set rest. ruleIdx x = j \<and> fits (patten x)} =
      (if fits (patten e) then {i} else {}) \<union> {j\<in>set is. \<exists>x\<in>set rest. ruleIdx x = j \<and> fits (patten x)}"
    using at_e by (cases "fits (patten e)") (simp_all, blast+)
  show ?case
  proof (cases "fits (patten e)")
    case False
    have "\<forall>x\<in>set rest'. ruleIdx x \<in> set is \<longrightarrow> x \<in> set (ruleList st)" using Cons.prems(6) r(3) by auto
    from Cons.IH [OF Cons.prems(1,2) r(2) srt in_rest this] Cons.prems(7)
    have IH: "rules_ok ver (rule_del_loop fits d v rest' is st) \<and> set (idxs (rule_del_loop fits d v rest' is st) d v) =
        set (idxs st d v) - {j\<in>set is. \<exists>x\<in>set rest'. ruleIdx x = j \<and> fits (patten x)}" by simp
    have "rule_del_loop fits d v rest (i # is) st = rule_del_loop fits d v rest' is st" using r(1) False by simp
    then show ?thesis using IH unfolding head tail if_not_P [OF False] by simp
  next
    case True
    let ?st = "set_idxs d v (remove1 i (idxs st d v)) st"
    let ?rest = "if refCnt e - 1 = 0 then rest' else e\<lparr>refCnt := refCnt e - 1\<rparr> # rest'"
    have iv: "i \<in> set (idxs st d v)" and dis: "distinct (idxs st d v)"
      using Cons.prems(1,7) by (auto simp: rules_ok_def strict_sorted_iff)
    have ok: "rules_ok ver (entry_del e ?st)" using detach_ok [OF Cons.prems(1,2) _ eL, of v] iv e by simp
    have "sorted_wrt (<) (map ruleIdx ?rest)" using r(2,3) e by auto
    moreover have "\<forall>j\<in>set is. \<exists>x\<in>set ?rest. ruleIdx x = j" using in_rest by auto
    moreover have "\<forall>x\<in>set ?rest. ruleIdx x \<in> set is \<longrightarrow> x \<in> set (ruleList (entry_del e ?st))"
      using Cons.prems(6) r(3) gr e by (auto intro!: entry_del_keeps)
    moreover have "set is \<subseteq> set (idxs (entry_del e ?st) d v)" using Cons.prems(7) gr dis by (auto simp: idxs_set_idxs)
    ultimately have IH: "rules_ok ver (rule_del_loop fits d v ?rest is (entry_del e ?st)) \<and>
        set (idxs (rule_del_loop fits d v ?rest is (entry_del e ?st)) d v) =
          set (idxs (entry_del e ?st) d v) - {j\<in>set is. \<exists>x\<in>set ?rest. ruleIdx x = j \<and> fits (patten x)}"
      using Cons.prems(2) srt by (intro Cons.IH [OF ok]) auto
    have "{j\<in>set is. \<exists>x\<in>set ?rest. ruleIdx x = j \<and> fits (patten x)} = {j\<in>set is. \<exists>x\<in>set rest. ruleIdx x = j \<and> fits (patten x)}"
      using tail [of "\<lambda>x. fits (patten x)"] gr e by auto
    moreover have "rule_del_loop fits d v rest (i # is) st = rule_del_loop fits d v ?rest is (entry_del e ?st)" using r(1) True by simp
    moreover have "set (idxs (entry_del e ?st) d v) = set (idxs st d v) - {i}" using dis by (simp add: idxs_set_idxs)
    ultimately show ?thesis using IH unfolding head if_P [OF True] by auto
  qed
qed simp

lemma rule_del_spec:
  assumes ok: "rules_ok ver st" and d: "d \<in> set (devs st)"
  shows "rules_ok ver (snd (rule_del fits v d st)) \<and>
    set (idxs (snd (rule_del fits v d st)) d v) =
      {i\<in>set (idxs st d v). \<forall>e\<in>set (ruleList st). ruleIdx e = i \<longrightarrow> \<not> fits (patten e)}"
proof -
  have "sorted_wrt (<) (map ruleIdx (ruleList st))" "sorted_wrt (<) (idxs st d v)"
    and "\<forall>i\<in>set (idxs st d v). \<exists>e\<in>set (ruleList st). ruleIdx e = i"
    using ok unfolding rules_ok_def by blast+
  from rule_del_loop_spec [OF ok d this _ order_refl, of fits] d
  show ?thesis by (auto simp: rule_del_def)
qed

lemma rule_del_ok: "rules_ok ver st \<Longrightarrow> rules_ok ver (snd (rule_del fits v d st))"
  using rule_del_spec [of ver st d fits v] by (cases "d \<in> set (devs st)") (auto simp: rule_del_def)

section \<open>Any sequence of operations\<close>

datatype 'p rule_op =
    AddRule bool bool 'p u32
  | DelRule "'p option" u32 nat

text \<open>An operation that takes the kernel down leaves no further state.\<close>

definition white_step :: "white_pat rule_op \<Rightarrow> white_pat rules \<Rightarrow> white_pat rules" where
  "white_step op st = (case op of
     AddRule ok_entry ok_idx p d \<Rightarrow> (case rtk_igmp_whiteListAdd ok_entry ok_idx p d st of Inl _ \<Rightarrow> st | Inr (_, st') \<Rightarrow> st')
   | DelRule pat d i \<Rightarrow> snd (rtk_igmp_whiteListDel pat d i st))"

definition black_step :: "nat list \<Rightarrow> black_pat rule_op \<Rightarrow> black_pat rules \<times> igmpdb \<Rightarrow> black_pat rules \<times> igmpdb" where
  "black_step modules op s = (case op of
     AddRule ok_entry ok_idx p d \<Rightarrow> (case rtk_igmp_blackListAdd ok_entry ok_idx modules p d s of Inl _ \<Rightarrow> s | Inr (_, s') \<Rightarrow> s')
   | DelRule pat d i \<Rightarrow> (snd (rtk_igmp_blackListDel pat d i (fst s)), snd s))"

abbreviation white_ok :: "white_pat rules \<Rightarrow> bool" where
  "white_ok \<equiv> rules_ok (\<lambda>p. fam (wIsIpv6 p))"

abbreviation black_ok :: "black_pat rules \<Rightarrow> bool" where
  "black_ok \<equiv> rules_ok (\<lambda>p. fam (bIsIpv6 p))"

lemma white_step_ok: "white_ok st \<Longrightarrow> white_ok (white_step op st)"
  by (auto simp: white_step_def rtk_igmp_whiteListAdd_def rtk_igmp_whiteListDel_def rtk_igmp_whiteListDel_byIdx_def
      rule_del_ok rule_del_byIdx_ok split: rule_op.split sum.split option.split dest: rule_add_ok)

lemma black_add_ok:
  "rtk_igmp_blackListAdd ok_entry ok_idx ms p d s = Inr (r, st, db) \<Longrightarrow> black_ok (fst s) \<Longrightarrow> black_ok st"
  by (auto simp: rtk_igmp_blackListAdd_def split: sum.splits prod.splits add_result.splits dest: rule_add_ok)

lemma black_step_ok: "black_ok (fst s) \<Longrightarrow> black_ok (fst (black_step ms op s))"
  by (auto simp: black_step_def rtk_igmp_blackListDel_def rtk_igmp_blackListDel_byIdx_def rule_del_ok rule_del_byIdx_ok
      split: rule_op.split sum.split option.split dest: black_add_ok)

interpretation white_ops: event_system white_step "\<lambda>_. True" white_ok
  by unfold_locales (rule white_step_ok)

interpretation black_ops: event_system "black_step ms" "\<lambda>_. True" "\<lambda>s. black_ok (fst s)" for ms
  by unfold_locales (rule black_step_ok)

text \<open>The table after some operations on devices without rules.\<close>

definition white_run :: "u32 list \<Rightarrow> white_pat rule_op list \<Rightarrow> white_pat rules" where
  "white_run ds ops = fold white_step ops (rules_init ds)"

lemma white_run_ok: "distinct ds \<Longrightarrow> white_ok (white_run ds ops)"
  unfolding white_run_def by (rule white_ops.run_inv) (simp_all add: rules_ok_init list_all_iff)

definition demo_pat :: "u32 \<Rightarrow> u32 \<Rightarrow> white_pat" where
  "demo_pat lo hi = \<lparr>wIsIpv6 = False, smacChk = False, wsmac = [], smacMask = [], gipChk = True,
     wlGroupIpStart = Addr lo 0 0 0, wlGroupIpEnd = Addr hi 0 0 0, sipChk = False, wlSipStart = Addr 0 0 0 0,
     wlSipEnd = Addr 0 0 0 0, mcSipChk = False, mcSipChkIgnoreNonIGMPv3MLDv2 = False,
     wlMcSip = Addr 0 0 0 0, wlMcSipEnd = Addr 0 0 0 0\<rparr>"

definition demo_ops :: "white_pat rule_op list" where
  "demo_ops = [AddRule True True (demo_pat 10 20) 3, AddRule True True (demo_pat 30 40) 4,
     AddRule True True (demo_pat 10 20) 4, AddRule True True (demo_pat 50 60) 4, DelRule None 4 1]"

text \<open>
  C30: after any sequence of additions and deletions, by index or by pattern and with failing
  allocations, the white list is consistent: every rule is counted once for each device list that
  uses it, a rule that no list uses is gone, and an index in the list of a device belongs to exactly
  one rule, of the address family of the list.
\<close>
theorem white_list_consistent:
  assumes "distinct ds"
  shows "(\<forall>e\<in>set (ruleList (white_run ds ops)).
        refCnt e = int (refs (white_run ds ops) (ruleIdx e)) \<and> 0 < refs (white_run ds ops) (ruleIdx e)) \<and>
     (\<forall>d v. \<forall>i\<in>set (idxs (white_run ds ops) d v).
        \<exists>!e. e \<in> set (ruleList (white_run ds ops)) \<and> ruleIdx e = i \<and> fam (wIsIpv6 (patten e)) = v)"
proof -
  note ok = white_run_ok [OF assms, of ops, unfolded rules_ok_def]
  have srt: "sorted_wrt (<) (map ruleIdx (ruleList (white_run ds ops)))" using ok by blast
  have "\<exists>!e. e \<in> set (ruleList (white_run ds ops)) \<and> ruleIdx e = i \<and> fam (wIsIpv6 (patten e)) = v"
    if "i \<in> set (idxs (white_run ds ops) d v)" for d v i
    using ok that sorted_idx_inj [OF srt] by metis
  moreover have "0 < refs (white_run ds ops) (ruleIdx e)" if "e \<in> set (ruleList (white_run ds ops))" for e
    using ok that by fastforce
  ultimately show ?thesis using ok by blast
qed

theorem white_list_consistent_witness:
  "distinct [3, 4 :: u32] \<and>
   list_all (\<lambda>e. refCnt e = int (refs (white_run [3, 4] demo_ops) (ruleIdx e)) \<and> 0 < refs (white_run [3, 4] demo_ops) (ruleIdx e))
     (ruleList (white_run [3, 4] demo_ops)) \<and>
   map ruleIdx (ruleList (white_run [3, 4] demo_ops)) = [0, 2] \<and> map refCnt (ruleList (white_run [3, 4] demo_ops)) = [2, 1]"
proof -
  have "distinct [3, 4 :: u32]" "map ruleIdx (ruleList (white_run [3, 4] demo_ops)) = [0, 2]"
    "map refCnt (ruleList (white_run [3, 4] demo_ops)) = [2, 1]" by code_simp+
  then show ?thesis using white_list_consistent [of "[3, 4]" demo_ops] unfolding list_all_iff by blast
qed

text \<open>
  C31: the white list check, which walks the list of the device and the table side by side, decides
  the same as looking at every rule: it lets a report pass exactly when the device has no rules of
  the address family or one of its rules matches.
\<close>
theorem white_check_complete:
  assumes "distinct ds"
  shows "rtk_igmp_filterWhiteListCheck (white_run ds ops) d v v3 ga ca src mac \<longleftrightarrow>
     idxs (white_run ds ops) d v = [] \<or>
     (\<exists>e\<in>set (ruleList (white_run ds ops)). ruleIdx e \<in> set (idxs (white_run ds ops) d v) \<and> white_hit v v3 ga ca src mac (patten e))"
  unfolding rtk_igmp_filterWhiteListCheck_def rules_scan [OF white_run_ok [OF assms]] by auto

theorem white_check_complete_witness:
  "rtk_igmp_filterWhiteListCheck (white_run [3, 4] demo_ops) 4 IP_VERSION4 True (Addr 55 0 0 0) (Addr 1 0 0 0) None [1, 2, 3, 4, 5, 6] \<and>
   \<not> rtk_igmp_filterWhiteListCheck (white_run [3, 4] demo_ops) 4 IP_VERSION4 True (Addr 35 0 0 0) (Addr 1 0 0 0) None [1, 2, 3, 4, 5, 6] \<and>
   idxs (white_run [3, 4] demo_ops) 4 IP_VERSION4 = [0, 2]"
proof -
  have i: "idxs (white_run [3, 4] demo_ops) 4 IP_VERSION4 = [0, 2]" and d: "distinct [3, 4 :: u32]" by code_simp+
  have "\<exists>e\<in>set (ruleList (white_run [3, 4] demo_ops)). ruleIdx e \<in> set [0, 2] \<and> white_hit IP_VERSION4 True (Addr 55 0 0 0) (Addr 1 0 0 0) None [1, 2, 3, 4, 5, 6] (patten e)"
    "\<not> (\<exists>e\<in>set (ruleList (white_run [3, 4] demo_ops)). ruleIdx e \<in> set [0, 2] \<and> white_hit IP_VERSION4 True (Addr 35 0 0 0) (Addr 1 0 0 0) None [1, 2, 3, 4, 5, 6] (patten e))"
    by code_simp+
  then show ?thesis unfolding white_check_complete [OF d] i by simp
qed

text \<open>The new rule is written before its allocation is tested.\<close>

lemma white_add_null:
  assumes "d \<in> set (devs st)" "\<not> white_range_bad p" "\<forall>e\<in>set (ruleList st). patten e \<noteq> p"
  shows "rtk_igmp_whiteListAdd False ok_idx p d st = Inl Oops"
proof -
  have "find (\<lambda>e. patten e = p) (ruleList st) = None" using assms(3) by (simp add: find_None_iff)
  then show ?thesis using assms(1,2) by (simp add: rtk_igmp_whiteListAdd_def rule_add_def)
qed

end
