(* ===== verification/Igmp_Props.thy ===== *)
theory Igmp_Props
  imports Igmp_Tick Igmp_Rules_Props
begin

text \<open>
  Properties of the multicast snooping as a whole: the database over any sequence of packets, timer
  passes and configuration changes, and what a join, a leave and the records of IGMPv3 and MLDv2
  mean for the data a client is sent.
\<close>

section \<open>Any sequence of events\<close>

datatype hook_event =
    Packet u32 pkt igmp_msg
  | TimerTick u32 bool u32
  | DevGone u32
  | FlushBr "u32 option" ipver
  | BlackAdd bool bool black_pat u32
  | BlackDel "black_pat option" u32 nat

definition hook_step :: "hook_env \<Rightarrow> hook_event \<Rightarrow> hook_state \<Rightarrow> hook_state" where
  "hook_step e ev s = (case ev of
     Packet now p msg \<Rightarrow> snd (rtk_igmp_mld_process e now p msg s)
   | TimerTick timer_sec uf jiffies \<Rightarrow> rtk_igmp_multicastSysTimerExpired e timer_sec uf jiffies s
   | DevGone d \<Rightarrow> s\<lparr>hdb := rtk_igmp_clearDataBaseByDev (modules (hpolicy e)) d (hdb s)\<rparr>
   | FlushBr ifidx v \<Rightarrow> s\<lparr>hdb := rtk_igmp_flush_Br_mdb (brIf (hpolicy e)) (modules (hpolicy e)) ifidx v (hdb s)\<rparr>
   | BlackAdd ok_entry ok_idx p d \<Rightarrow> (case rtk_igmp_blackListAdd ok_entry ok_idx (modules (hpolicy e)) p d (blackList s, hdb s) of
       Inl _ \<Rightarrow> s | Inr (_, bl, db) \<Rightarrow> s\<lparr>blackList := bl, hdb := db\<rparr>)
   | BlackDel pat d i \<Rightarrow> s\<lparr>blackList := snd (rtk_igmp_blackListDel pat d i (blackList s))\<rparr>)"

text \<open>The state after the pools and tables are initialised.\<close>

definition igmpdb_init :: igmpdb where
  "igmpdb_init = \<lparr>tables = (\<lambda>_ _ _. []), group_free = IGMP_MAX_GROUP_COUNT, client_free = IGMP_MAX_CLIENT_COUNT,
     source_free = IGMP_MAX_SOURCE_COUNT, groupIncIdx = 1, startTime = 0, sysUpSeconds = 0, calls = [],
     stats = \<lparr>devJoinCnt = (\<lambda>_ _. 0), brJoinCnt = (\<lambda>_ _. 0), devWeightExceedCnt = (\<lambda>_ _. 0), brWeightExceedCnt = (\<lambda>_ _. 0)\<rparr>\<rparr>"

definition hook_init :: "u32 list \<Rightarrow> u32 \<Rightarrow> hook_state" where
  "hook_init ds jiffies = \<lparr>hdb = igmpdb_init, blackList = rules_init ds,
     limits = (\<lambda>_ _. \<lparr>cycle_start_time = 0, rl_counter = 0\<rparr>), hclock = \<lparr>lastjiffies = jiffies, lastTimer = 0\<rparr>\<rparr>"

definition hook_run :: "hook_env \<Rightarrow> u32 list \<Rightarrow> hook_event list \<Rightarrow> hook_state" where
  "hook_run e ds evs = fold (hook_step e) evs (hook_init ds 0)"

definition hook_ok :: "hook_env \<Rightarrow> hook_state \<Rightarrow> bool" where
  "hook_ok e s \<longleftrightarrow> db_ok (modules (hpolicy e)) (hdb s) \<and> black_ok (blackList s)"

lemma handle_msg_ok:
  "db_ok ms db \<Longrightarrow> moduleIndex p \<in> set ms \<Longrightarrow> db_ok ms (snd (handle_msg e p msg db))"
  by (cases msg) (simp_all add: handle_msg_def processJoin_ok processLeave_ok rtk_igmp_processIgmpv3Mldv2Reports_def report_loop_ok)

text \<open>What the packet hook does to the database is what the handler of the message does, or nothing.\<close>

lemma mld_process_db:
  obtains "hdb (snd (rtk_igmp_mld_process e now p msg s)) = hdb s"
  | "moduleIndex p \<in> set (modules (hpolicy e))" "hdb (snd (rtk_igmp_mld_process e now p msg s)) = snd (handle_msg e p msg (hdb s))"
proof -
  have g: "hdb (snd (rate_gate e now fc p s)) = hdb s" for fc
    by (auto simp: rate_gate_def split: prod.split)
  show ?thesis
  proof (cases "hdb (snd (rtk_igmp_mld_process e now p msg s)) = hdb s")
    case False
    then have "moduleIndex p \<in> set (modules (hpolicy e)) \<and> hdb (snd (rtk_igmp_mld_process e now p msg s)) = snd (handle_msg e p msg (hdb s))"
      using g unfolding rtk_igmp_mld_process_def
      by (auto split: option.splits prod.splits if_splits) (metis snd_conv)+
    then show ?thesis using that(2) by blast
  qed (rule that(1))
qed

lemma mld_process_black: "blackList (snd (rtk_igmp_mld_process e now p msg s)) = blackList s"
proof -
  have "blackList (snd (rate_gate e now fc p s)) = blackList s" for fc
    by (auto simp: rate_gate_def split: prod.split)
  then show ?thesis unfolding rtk_igmp_mld_process_def
    by (auto split: option.splits prod.splits) (metis snd_conv)+
qed

lemma black_add_db_ok:
  assumes "rtk_igmp_blackListAdd a b ms p d s = Inr (r, bl, db)" "db_ok ms (snd s)"
  shows "db_ok ms db"
  using assms by (auto simp: rtk_igmp_blackListAdd_def blackList_updateFlow_ok split: sum.splits prod.splits add_result.splits)

lemma hook_step_ok: "hook_ok e s \<Longrightarrow> hook_ok e (hook_step e ev s)"
proof -
  let ?ms = "modules (hpolicy e)"
  assume ok: "hook_ok e s"
  then have db: "db_ok ?ms (hdb s)" and bl: "black_ok (blackList s)" by (simp_all add: hook_ok_def)
  show ?thesis
  proof (cases ev)
    case (Packet now p msg)
    then show ?thesis using db bl mld_process_black [of e now p msg s]
      by (cases rule: mld_process_db [of e now p msg s]) (simp_all add: hook_ok_def hook_step_def handle_msg_ok)
  next
    case (TimerTick ts uf j)
    then show ?thesis using db bl
      by (simp add: hook_ok_def hook_step_def rtk_igmp_multicastSysTimerExpired_def maintain_ok case_prod_beta)
  next
    case (BlackAdd a b p d)
    then show ?thesis using db bl
      by (auto simp: hook_ok_def hook_step_def split: sum.split dest: black_add_ok black_add_db_ok)
  next
    case (BlackDel pat d i)
    then show ?thesis using db bl
      by (simp add: hook_ok_def hook_step_def rtk_igmp_blackListDel_def rtk_igmp_blackListDel_byIdx_def rule_del_ok rule_del_byIdx_ok split: option.split)
  qed (use db bl in \<open>simp_all add: hook_ok_def hook_step_def clear_dev_ok flush_ok\<close>)
qed

interpretation hook: event_system "hook_step e" "\<lambda>_. True" "hook_ok e" for e
  by unfold_locales (rule hook_step_ok)

lemma db_ok_init: "distinct ms \<Longrightarrow> db_ok ms igmpdb_init"
proof -
  have "(\<Sum>x\<leftarrow>ks. f x) = 0" if "\<And>x. f x = 0" for ks :: "'x list" and f :: "'x \<Rightarrow> nat"
    using that by (induction ks) auto
  then have "weigh ms w igmpdb_init = 0" for w unfolding weigh_def by (simp add: igmpdb_init_def case_prod_beta)
  then show "distinct ms \<Longrightarrow> db_ok ms igmpdb_init"
    by (simp add: db_ok_def pools_ok_def group_count_def client_count_def source_count_def)
      (simp add: igmpdb_init_def bucket_ok_def)
qed

lemma hook_run_ok: "distinct (modules (hpolicy e)) \<Longrightarrow> distinct ds \<Longrightarrow> hook_ok e (hook_run e ds evs)"
  unfolding hook_run_def
  by (rule hook.run_inv) (simp_all add: list_all_iff hook_ok_def hook_init_def db_ok_init rules_ok_init)

section \<open>The entry of a client\<close>

lemma inIfidx_move [simp]: "inIfidx (move_client p c) = devIfindex p"
  by (simp add: move_client_def Let_def)

lemma sysUp_frame [simp]:
  "sysUpSeconds (upd_group m v ga f db) = sysUpSeconds db" "sysUpSeconds (call x db) = sysUpSeconds db"
  "sysUpSeconds (rtk_igmp_linkGroupEntry m v ga db) = sysUpSeconds db"
  by (simp_all add: upd_group_def set_bucket_def call_def rtk_igmp_linkGroupEntry_def Let_def)

lemma link_frame [simp]:
  "client_free (rtk_igmp_linkGroupEntry m v ga db) = client_free db" "source_free (rtk_igmp_linkGroupEntry m v ga db) = source_free db"
  by (simp_all add: set_bucket_def call_def rtk_igmp_linkGroupEntry_def Let_def)

lemma client_of_cong: "tables db' = tables db \<Longrightarrow> client_of db' m v ga ca mac = client_of db m v ga ca mac"
  by (simp add: client_of_def rtk_igmp_searchGroupEntry_def)

lemma search_cong: "tables db' = tables db \<Longrightarrow> rtk_igmp_searchGroupEntry db' m v ga = rtk_igmp_searchGroupEntry db m v ga"
  by (simp add: rtk_igmp_searchGroupEntry_def)

lemma only_stats_frame:
  assumes "only_stats db db'"
  shows "tables db' = tables db" "sysUpSeconds db' = sysUpSeconds db" "group_free db' = group_free db"
    "client_free db' = client_free db" "source_free db' = source_free db" "groupIncIdx db' = groupIncIdx db"
  using assms by (auto simp: only_stats_def)

lemma search_link: "rtk_igmp_searchGroupEntry (rtk_igmp_linkGroupEntry m v ga db) m v ga =
    Some \<lparr>groupAddr = ga, ipVersion = v, groupIdx = groupIncIdx db + 1, clientList = []\<rparr>"
  by (simp add: search_group rtk_igmp_linkGroupEntry_def Let_def call_def set_bucket_def group_key_def)

text \<open>Room for the entries of a report: they are there, or the pools are not empty.\<close>

definition room :: "igmpdb \<Rightarrow> pkt \<Rightarrow> addr \<Rightarrow> bool" where
  "room db p ga \<longleftrightarrow> (rtk_igmp_searchGroupEntry db (moduleIndex p) (pver p) ga \<noteq> None \<or> 0 < group_free db) \<and>
     (client_of db (moduleIndex p) (pver p) ga (saddr p) (smac p) \<noteq> None \<or> 0 < client_free db)"

lemma enter_group_room:
  assumes "room db p ga"
  shows "\<exists>db' g. enter_group p ga db = (True, db') \<and> rtk_igmp_searchGroupEntry db' (moduleIndex p) (pver p) ga = Some g \<and>
     client_of db' (moduleIndex p) (pver p) ga (saddr p) (smac p) = client_of db (moduleIndex p) (pver p) ga (saddr p) (smac p) \<and>
     client_free db' = client_free db \<and> source_free db' = source_free db \<and> sysUpSeconds db' = sysUpSeconds db"
proof (cases "rtk_igmp_searchGroupEntry db (moduleIndex p) (pver p) ga")
  case None
  then have "0 < group_free db" using assms by (simp add: room_def)
  then have "enter_group p ga db = (True, rtk_igmp_linkGroupEntry (moduleIndex p) (pver p) ga (db\<lparr>group_free := group_free db - 1\<rparr>))"
    using None by (simp add: enter_group_def rtk_igmp_allocateGroupEntry_def)
  then show ?thesis using None by (simp add: search_link client_of_def)
qed (auto simp: enter_group_def)

lemma client_of_move:
  assumes g: "rtk_igmp_searchGroupEntry db m (pver p) ga = Some g" and s: "rtk_igmp_searchClientEntry p g = Some g'"
  shows "\<exists>c. client_of db m (pver p) ga (saddr p) (smac p) = Some c \<and>
     client_of (upd_group m (pver p) ga (\<lambda>_. g') db) m (pver p) ga (saddr p) (smac p) = Some (move_client p c)"
proof -
  let ?P = "is_client (pver p) (saddr p) (smac p)"
  obtain c where c: "find ?P (clientList g) = Some c" and g': "g' = g\<lparr>clientList := update_first ?P (\<lambda>_. move_client p c) (clientList g)\<rparr>"
    using search_client [OF s] by blast
  have "?P (move_client p c)" using c by (auto simp: find_Some_iff is_client_key client_key_def)
  then have "find ?P (clientList g') = Some (move_client p c)" unfolding g' using find_update_first [OF c] by simp
  moreover have "rtk_igmp_searchGroupEntry (upd_group m (pver p) ga (\<lambda>_. g') db) m (pver p) ga = Some g'"
    using search_upd_group [OF g, of "\<lambda>_. g'"] by (simp add: g')
  ultimately show ?thesis using g c by (simp add: client_of_def)
qed

text \<open>
  After the entries are found or made, the client of the packet is in the group, on the port of the
  packet: the old entry, or a new one without sources.
\<close>

definition new_client :: "pkt \<Rightarrow> u32 \<Rightarrow> clientEntry" where
  "new_client p now = \<lparr>clientAddr = saddr p, clientMacAddr = smac p, inIfidx = devIfindex p,
     extraPortInfo = (DevExtPortEn p, DevExtPortId p), igmpVersion = IGMP_NONE, groupFilterTimer = 0,
     joinSystemSecTime = now, reportCtagif = False, reportVlanId = 0, reportStagif = False,
     reportSVlanId = 0, sourceList = []\<rparr>"

definition entered :: "pkt \<Rightarrow> addr \<Rightarrow> igmpdb \<Rightarrow> clientEntry" where
  "entered p ga db = (case client_of db (moduleIndex p) (pver p) ga (saddr p) (smac p) of
     Some c \<Rightarrow> move_client p c | None \<Rightarrow> new_client p (sysUpSeconds db))"

lemma inIfidx_entered [simp]: "inIfidx (entered p ga db) = devIfindex p"
  by (simp add: entered_def new_client_def split: option.split)

lemma enter_room:
  assumes "room db p ga"
  shows "\<exists>db'. enter p ga db = (Some (client_of db (moduleIndex p) (pver p) ga (saddr p) (smac p) = None), db') \<and>
     client_of db' (moduleIndex p) (pver p) ga (saddr p) (smac p) = Some (entered p ga db) \<and>
     source_free db' = source_free db \<and> sysUpSeconds db' = sysUpSeconds db"
proof -
  let ?m = "moduleIndex p" and ?v = "pver p" and ?P = "is_client (pver p) (saddr p) (smac p)"
  obtain db1 g where 1: "enter_group p ga db = (True, db1)" "rtk_igmp_searchGroupEntry db1 ?m ?v ga = Some g"
    "client_of db1 ?m ?v ga (saddr p) (smac p) = client_of db ?m ?v ga (saddr p) (smac p)"
    "client_free db1 = client_free db" "source_free db1 = source_free db" "sysUpSeconds db1 = sysUpSeconds db"
    using enter_group_room [OF assms] by blast
  show ?thesis
  proof (cases "rtk_igmp_searchClientEntry p g")
    case None
    then have no: "find ?P (clientList g) = None" by (auto simp: rtk_igmp_searchClientEntry_def find_None_iff list_ex_iff split: if_splits)
    then have c0: "client_of db ?m ?v ga (saddr p) (smac p) = None" using 1(2,3) by (simp add: client_of_def)
    then have "0 < client_free db" using assms by (simp add: room_def)
    then have a: "rtk_igmp_allocateClientEntry p db1 = Some (new_client p (sysUpSeconds db), db1\<lparr>client_free := client_free db1 - 1\<rparr>)"
      using 1 by (simp add: rtk_igmp_allocateClientEntry_def new_client_def)
    let ?db = "db1\<lparr>client_free := client_free db1 - 1\<rparr>" and ?c = "new_client p (sysUpSeconds db)"
    have "rtk_igmp_searchGroupEntry ?db ?m ?v ga = Some g" using 1(2) by (simp add: rtk_igmp_searchGroupEntry_def)
    then have "rtk_igmp_searchGroupEntry (upd_group ?m ?v ga (rtk_igmp_linkClientEntry ?c) ?db) ?m ?v ga = Some (rtk_igmp_linkClientEntry ?c g)"
      by (rule search_upd_group) (simp add: rtk_igmp_linkClientEntry_def)
    then have "client_of (upd_group ?m ?v ga (rtk_igmp_linkClientEntry ?c) ?db) ?m ?v ga (saddr p) (smac p) = Some ?c"
      by (simp add: client_of_def rtk_igmp_linkClientEntry_def is_client_key client_key_def new_client_def)
    then show ?thesis using 1 None a c0 by (simp add: enter_def enter_client_def entered_def upd_group_def set_bucket_def)
  next
    case (Some g')
    obtain c where c: "client_of db1 ?m ?v ga (saddr p) (smac p) = Some c"
      "client_of (upd_group ?m ?v ga (\<lambda>_. g') db1) ?m ?v ga (saddr p) (smac p) = Some (move_client p c)"
      using client_of_move [OF 1(2) Some] by blast
    then show ?thesis using 1 Some by (simp add: enter_def enter_client_def entered_def upd_group_def set_bucket_def)
  qed
qed

section \<open>Forwarding\<close>

lemma sysUp_on_client [simp]: "sysUpSeconds (snd (on_client p ga body db)) = sysUpSeconds db"
  by (simp add: on_client_def split: option.split prod.split)

lemma egressI:
  assumes c: "client_of db m v ga ca mac = Some c" and fc: "conf (inIfidx c) v = Some fc" "\<not> forwardDisable fc" "\<not> snoopingDisable fc"
    and w: "\<And>v. client_wants (careSource fc) v src (sysUpSeconds db) c"
  shows "\<exists>ports. mdb_egress conf db m v ga src = Some ports \<and> inIfidx c \<in> set ports"
proof -
  obtain g where g: "rtk_igmp_searchGroupEntry db m v ga = Some g" "find (is_client v ca mac) (clientList g) = Some c"
    using client_of_group [OF c] by blast
  then have "c \<in> set (clientList g)" by (auto simp: find_Some_iff)
  then show ?thesis using g(1) fc w by (auto simp: mdb_egress_def)
qed

lemma wants_timer:
  assumes "client_wants care v src t c"
  shows "groupFilterTimer c > t \<or> (\<exists>s\<in>set (sourceList c). portTimer s > t)"
proof -
  have "portTimer s > t \<longrightarrow> (\<exists>s\<in>set (sourceList c). portTimer s > t)" if "rtk_igmp_searchSourceEntry v src (sourceList c) = Some s" for s
    using that by (auto simp: rtk_igmp_searchSourceEntry_def find_Some_iff)
  then show ?thesis using assms by (auto simp: client_wants_def list_ex_iff split: if_splits option.splits)
qed

lemma wants_exclude: "groupFilterTimer c > t \<Longrightarrow> sourceList c = [] \<Longrightarrow> client_wants care v src t c"
  by (simp add: client_wants_def rtk_igmp_searchSourceEntry_def)

lemma room_stats: "only_stats db db' \<Longrightarrow> room db' p ga = room db p ga"
  using only_stats_frame [of db db'] client_of_cong [of db' db] search_cong [of db' db] by (simp add: room_def)

lemma entered_stats: "only_stats db db' \<Longrightarrow> entered p ga db' = entered p ga db"
  using only_stats_frame [of db db'] client_of_cong [of db' db] by (simp add: entered_def split: option.split)

lemma join_client:
  assumes adm: "admit pol p False (join_group p t a) None db = (None, db1)" and room: "room db p (join_group p t a)"
  shows "\<exists>c. client_of (snd (rtk_igmp_processJoin pol p t a db)) (moduleIndex p) (pver p) (join_group p t a) (saddr p) (smac p) = Some c \<and>
     inIfidx c = devIfindex p \<and> sourceList c = [] \<and> groupFilterTimer c = sysUpSeconds db + aging_time p \<and>
     sysUpSeconds (snd (rtk_igmp_processJoin pol p t a db)) = sysUpSeconds db"
proof -
  let ?ga = "join_group p t a"
  have st: "only_stats db db1" using admit_frame [of db pol p False ?ga None] adm by simp
  obtain db2 where e: "enter p ?ga db1 = (Some (client_of db1 (moduleIndex p) (pver p) ?ga (saddr p) (smac p) = None), db2)"
    "client_of db2 (moduleIndex p) (pver p) ?ga (saddr p) (smac p) = Some (entered p ?ga db1)" "sysUpSeconds db2 = sysUpSeconds db1"
    using enter_room [of db1 p ?ga] room room_stats [OF st] by blast
  obtain r c' free where b: "join_body p t (sysUpSeconds db2) (entered p ?ga db1) (source_free db2) = (r, c', free)" by (metis prod_cases3)
  then have "inIfidx c' = devIfindex p \<and> sourceList c' = [] \<and> groupFilterTimer c' = sysUpSeconds db2 + aging_time p"
    by (auto simp: join_body_def rtk_igmp_deleteSourceList_def tag_client_def Let_def)
  moreover have "client_of (snd (on_client p ?ga (join_body p t) db2)) (moduleIndex p) (pver p) ?ga (saddr p) (smac p) = Some c'"
    by (rule join.client_of_on_client [OF e(2) b])
  then have "client_of (call (ReflushFlow ?ga) (snd (on_client p ?ga (join_body p t) db2))) (moduleIndex p) (pver p) ?ga (saddr p) (smac p) = Some c'"
    using client_of_cong [of "call (ReflushFlow ?ga) (snd (on_client p ?ga (join_body p t) db2))"] by (simp add: call_def)
  ultimately show ?thesis using adm e only_stats_frame(2) [OF st] by (simp add: rtk_igmp_processJoin_def Let_def)
qed

lemma client_of_delete:
  assumes ok: "db_ok ms db"
  shows "client_of (rtk_igmp_deleteClientEntry m ga p db) m (pver p) ga (saddr p) (smac p) = None"
proof (cases "client_of db m (pver p) ga (saddr p) (smac p)")
  case None
  then show ?thesis by (auto simp: rtk_igmp_deleteClientEntry_def client_of_def split: option.splits)
next
  case (Some c)
  let ?P = "is_client (pver p) (saddr p) (smac p)" and ?v = "pver p"
  from client_of_group [OF Some] obtain g where g: "rtk_igmp_searchGroupEntry db m ?v ga = Some g" and c: "find ?P (clientList g) = Some c" by blast
  let ?db = "db\<lparr>source_free := source_free db + length (sourceList c), client_free := client_free db + 1\<rparr>"
  let ?f = "\<lambda>g. g\<lparr>clientList := remove_first ?P (clientList g)\<rparr>"
  have "rtk_igmp_searchGroupEntry ?db m ?v ga = Some g" using g by (simp add: rtk_igmp_searchGroupEntry_def)
  then have "rtk_igmp_searchGroupEntry (upd_group m ?v ga ?f ?db) m ?v ga = Some (?f g)" by (rule search_upd_group) simp
  moreover have "find ?P (remove_first ?P (clientList g)) = None"
    using search_SomeD(4) [OF ok g] by (intro find_remove_first [where k = "client_key ?v"]) (auto simp: clients_ok_def is_client_key)
  ultimately show ?thesis using g c by (simp add: rtk_igmp_deleteClientEntry_def client_of_def)
qed

lemma client_of_delete_group:
  assumes ok: "db_ok ms db" and g: "rtk_igmp_searchGroupEntry db m v ga = Some g" "clientList g = []"
  shows "client_of (rtk_igmp_deleteGroupEntry m v ga db) m v ga ca mac = None"
proof -
  have "find (is_group v ga) (remove_first (is_group v ga) (bucket db m v ga)) = None"
    using db_ok_bucket [OF ok, of v "rtk_igmp_hashAlgorithm v ga" m]
    by (intro find_remove_first [where k = "group_key v"]) (auto simp: bucket_ok_def is_group_key)
  then show ?thesis using g
    by (simp add: rtk_igmp_deleteGroupEntry_def client_of_def Let_def call_def rtk_igmp_searchGroupEntry_def set_bucket_def)
qed

text \<open>The clean-up at the end of a leave does not bring a client back.\<close>

lemma client_of_leave:
  assumes ok: "db_ok ms db" and m: "moduleIndex p \<in> set ms"
    and c: "client_of (snd (rtk_igmp_processLeave p ga db)) (moduleIndex p) (pver p) ga (saddr p) (smac p) = Some c"
  shows "\<not> fast_leave p \<and> (\<exists>c0. c = fst (snd (leave_body p (sysUpSeconds db) c0 (source_free db))))"
proof -
  let ?v = "pver p" and ?m = "moduleIndex p" and ?co = "\<lambda>db. client_of db (moduleIndex p) (pver p) ga (saddr p) (smac p)"
  define db1 where "db1 = (case rtk_igmp_searchGroupEntry db ?m ?v ga of None \<Rightarrow> db | Some g \<Rightarrow>
    (case rtk_igmp_searchClientEntry p g of None \<Rightarrow> db | Some g' \<Rightarrow>
      let db = upd_group ?m ?v ga (\<lambda>_. g') db in if fast_leave p then rtk_igmp_deleteClientEntry ?m ga p db
        else snd (on_client p ga (leave_body p) db)))"
  have ok1: "db_ok ms db1"
    using ok move_ok [OF ok m] delete_client_ok [OF _ m] leave.on_client_ok [OF _ m]
    unfolding db1_def Let_def by (auto split: option.split)
  have eq: "snd (rtk_igmp_processLeave p ga db) =
      (let db2 = (case rtk_igmp_searchGroupEntry db1 ?m ?v ga of Some g \<Rightarrow> if clientList g = [] then rtk_igmp_deleteGroupEntry ?m ?v ga db1 else db1 | None \<Rightarrow> db1)
       in if fast_leave p then call (ReflushFlow ga) db2 else db2)"
    unfolding rtk_igmp_processLeave_def db1_def Let_def by simp
  have "?co (call x db) = ?co db" for x db by (rule client_of_cong) (simp add: call_def)
  then have c1: "?co db1 = Some c"
    using c client_of_delete_group [OF ok1] unfolding eq by (auto simp: Let_def split: option.splits if_splits)
  obtain g g' where g: "rtk_igmp_searchGroupEntry db ?m ?v ga = Some g" "rtk_igmp_searchClientEntry p g = Some g'"
  proof -
    have "rtk_igmp_searchGroupEntry db ?m ?v ga \<noteq> None"
      using c1 by (cases "rtk_igmp_searchGroupEntry db ?m ?v ga") (simp_all add: db1_def client_of_def)
    moreover have "rtk_igmp_searchClientEntry p g \<noteq> None" if "rtk_igmp_searchGroupEntry db ?m ?v ga = Some g" for g
      using c1 that by (auto simp: db1_def client_of_def rtk_igmp_searchClientEntry_def find_Some_iff list_ex_iff split: if_splits)
    ultimately show ?thesis using that by blast
  qed
  let ?db = "upd_group ?m ?v ga (\<lambda>_. g') db"
  have okm: "db_ok ms ?db" by (rule move_ok [OF ok m g])
  obtain c0 where c0: "?co ?db = Some (move_client p c0)" using client_of_move [OF g] by blast
  have slow: "\<not> fast_leave p" using c1 client_of_delete [OF okm, of ?m ga p] g by (auto simp: db1_def Let_def)
  obtain r c' free where b: "leave_body p (sysUpSeconds ?db) (move_client p c0) (source_free ?db) = (r, c', free)" by (metis prod_cases3)
  have "?co db1 = Some c'" using leave.client_of_on_client(1) [OF c0 b] slow g by (simp add: db1_def Let_def)
  moreover have "source_free ?db = source_free db" by (simp add: upd_group_def set_bucket_def)
  ultimately show ?thesis using slow c1 b by (intro conjI exI [of _ "move_client p c0"]) auto
qed

end
