(* ===== verification/Igmp_Traffic.thy ===== *)
theory Igmp_Traffic
  imports Igmp_Props
begin

text \<open>
  What the snooping database means for the traffic: its consistency over any run, and what a join,
  a leave and a pass of the timer do to the data a client is sent.
\<close>

section \<open>A small network\<close>

text \<open>One bridge with a LAN device, without limits or rules, for concrete runs.\<close>

definition demo_br :: br_conf where
  "demo_br = \<lparr>sysMaxGroupSize = 2, sysIp4MaxGroupSize = 0, sysIp6MaxGroupSize = 0, sysMaxClientSize = 0, sysIp4MaxClientSize = 0,
     sysIp6MaxClientSize = 0, perIp4ClientMaxJoinGroupSize = 0, perIp6ClientMaxJoinGroupSize = 0, sysIp4MaxWeight = 0,
     sysIp6MaxWeight = 0, sysIp4OverWeightDrop = True, sysIp6OverWeightDrop = True\<rparr>"

definition demo_policy :: policy where
  "demo_policy = \<lparr>resvGroups = [], whiteList = rules_init [3], groupWeights = [], modules = [0], brIf = (\<lambda>_. 9), brDevConf = (\<lambda>_. demo_br)\<rparr>"

definition demo_conf :: "u32 \<Rightarrow> ipver \<Rightarrow> fam_conf option" where
  "demo_conf d v = (if d = 3 then Some \<lparr>snoopingDisable = False, forwardDisable = False, careSource = True, rate = 0,
     verDrp = (\<lambda>_. False), verIgr = (\<lambda>_. False), reportDrop = False\<rparr> else None)"

definition demo_env :: hook_env where
  "demo_env = \<lparr>hpolicy = demo_policy, hconf = demo_conf, cycle_duration = 1000, hret0 = RTK_IGMP_NF_DROP\<rparr>"

definition demo_pkt :: "u32 \<Rightarrow> pkt" where
  "demo_pkt host = \<lparr>moduleIndex = 0, devIfindex = 3, smac = [2, 0, 0, 0, 0, 1], pver = IP_VERSION4, saddr = Addr host 0 0 0,
     DevExtPortEn = False, DevExtPortId = 0, ingressCtagif = False, ingressCvid = 0, ingressStagif = False, ingressSvid = 0,
     devConf = \<lparr>igmpMcMemberAgingInterval = 260, igmpMcLastMemberAgingInterval = 10, igmpfastLeave = False,
       igmp6McMemberAgingInterval = 260, igmp6McLastMemberAgingInterval = 10, igmp6fastLeave = False, igmpMaxGroupSize = 0,
       igmp6MaxGroupSize = 0, igmpMaxWeight = 0, igmp6MaxWeight = 0, igmpOverWeightDrop = True, igmp6OverWeightDrop = True\<rparr>\<rparr>"

definition demo_group :: addr where
  "demo_group = Addr 0xE1010101 0 0 0"

definition demo_events :: "hook_event list" where
  "demo_events = [Packet 0 (demo_pkt 5) (Report2 demo_group)]"

text \<open>
  C32: after any sequence of packets, timer passes, device removals, flushes and black list changes,
  every entry of the three pools is either free or linked exactly once, every linked group is found
  by its address, and no client is in a group twice.
\<close>
theorem igmp_db_consistent:
  assumes "distinct (modules (hpolicy e))" "distinct ds"
  shows "pools_ok (modules (hpolicy e)) (hdb (hook_run e ds evs)) \<and>
     (\<forall>m v h. \<forall>g\<in>set (tables (hdb (hook_run e ds evs)) m v h).
        rtk_igmp_searchGroupEntry (hdb (hook_run e ds evs)) m v (groupAddr g) = Some g \<and> distinct (map (client_key v) (clientList g)))"
proof -
  have ok: "db_ok (modules (hpolicy e)) (hdb (hook_run e ds evs))" using hook_run_ok [OF assms] by (simp add: hook_ok_def)
  have "distinct (map (client_key v) (clientList g))" if "g \<in> set (tables (hdb (hook_run e ds evs)) m v h)" for m v h g
    using db_ok_bucket [OF ok, of v h m] that by (simp add: bucket_ok_def clients_ok_def)
  then show ?thesis using ok search_linked [OF ok] by (simp add: db_ok_def)
qed

theorem igmp_db_consistent_witness:
  "pools_ok [0] (hdb (hook_run demo_env [3] demo_events)) \<and> group_free (hdb (hook_run demo_env [3] demo_events)) = 511 \<and>
   client_free (hdb (hook_run demo_env [3] demo_events)) = 511"
proof -
  have "modules (hpolicy demo_env) = [0]" by (simp add: demo_env_def demo_policy_def)
  moreover have "group_free (hdb (hook_run demo_env [3] demo_events)) = 511" "client_free (hdb (hook_run demo_env [3] demo_events)) = 511"
    by code_simp+
  ultimately show ?thesis using igmp_db_consistent [of demo_env "[3]" demo_events] by simp
qed


definition demo_db :: igmpdb where
  "demo_db = hdb (hook_run demo_env [3] demo_events)"


text \<open>
  C34: after a leave, in any state the snooping can reach, the host has no entry in the group (always
  with fast leave) or it gets no data any more once the last member interval has passed: no source
  is wanted at any later time, until it reports again.
\<close>
theorem igmp_leave_stops:
  assumes "distinct (modules (hpolicy e))" "distinct ds" "moduleIndex p \<in> set (modules (hpolicy e))"
    and "client_of (snd (rtk_igmp_processLeave p ga (hdb (hook_run e ds evs)))) (moduleIndex p) (pver p) ga (saddr p) (smac p) = Some c"
    and "sysUpSeconds (hdb (hook_run e ds evs)) + last_aging_time p \<le> t"
  shows "\<not> fast_leave p \<and> \<not> client_wants care v src t c"
proof -
  have ok: "db_ok (modules (hpolicy e)) (hdb (hook_run e ds evs))" using hook_run_ok [OF assms(1,2)] by (simp add: hook_ok_def)
  let ?t = "sysUpSeconds (hdb (hook_run e ds evs)) + last_aging_time p"
  obtain c0 where slow: "\<not> fast_leave p"
    and c0: "c = fst (snd (leave_body p (sysUpSeconds (hdb (hook_run e ds evs))) c0 (source_free (hdb (hook_run e ds evs)))))"
    using client_of_leave [OF ok assms(3,4)] by blast
  have "groupFilterTimer c \<le> ?t" "\<forall>s\<in>set (sourceList c). portTimer s \<le> ?t"
    unfolding c0 by (auto simp: leave_body_def Let_def)
  then have "\<not> client_wants care v src t c" using assms(5) by (auto dest!: wants_timer)
  then show ?thesis using slow by blast
qed

theorem igmp_leave_stops_witness:
  "\<exists>c. client_of (snd (rtk_igmp_processLeave (demo_pkt 5) demo_group demo_db)) 0 IP_VERSION4 demo_group (Addr 5 0 0 0) [2, 0, 0, 0, 0, 1] = Some c \<and>
     client_wants True IP_VERSION4 (Addr 99 0 0 0) 9 c \<and> \<not> client_wants True IP_VERSION4 (Addr 99 0 0 0) 10 c"
proof -
  let ?p = "demo_pkt 5"
  have m: "moduleIndex ?p = 0" "pver ?p = IP_VERSION4" "saddr ?p = Addr 5 0 0 0" "smac ?p = [2, 0, 0, 0, 0, 1]" by (simp_all add: demo_pkt_def)
  have ms: "modules (hpolicy demo_env) = [0]" by (simp add: demo_env_def demo_policy_def)
  let ?co = "client_of (snd (rtk_igmp_processLeave ?p demo_group demo_db)) 0 IP_VERSION4 demo_group (Addr 5 0 0 0) [2, 0, 0, 0, 0, 1]"
  have "map_option (client_wants True IP_VERSION4 (Addr 99 0 0 0) 9) ?co = Some True" by code_simp
  then obtain c where c: "?co = Some c" "client_wants True IP_VERSION4 (Addr 99 0 0 0) 9 c" by auto
  have "sysUpSeconds demo_db + last_aging_time ?p \<le> 10" by code_simp
  then have "\<not> client_wants True IP_VERSION4 (Addr 99 0 0 0) 10 c"
    using igmp_leave_stops [of demo_env "[3]" ?p demo_group demo_events c 10 True IP_VERSION4 "Addr 99 0 0 0"] c(1)
    unfolding m ms demo_db_def by simp
  then show ?thesis using c by blast
qed

text \<open>
  C35: a pass of the timer refines its specification.  In the tables of the registered bridges each
  group keeps the clients that exclude or have a live source, each of them with the sources that
  count, and a group without such a client is gone; nothing else changes.
\<close>
theorem igmp_timer_pass:
  assumes "distinct ns"
  shows "tables (rtk_igmp_maintainMulticastSnoopingTimerList timer_sec uf ns cur db) m v h =
     (if m \<in> set ns \<and> h < IGMP_HASH_TBL_SIZE
      then List.map_filter (live_group (cur - startTime db)) (tables db m v h) else tables db m v h)"
  unfolding rtk_igmp_maintainMulticastSnoopingTimerList_def
  using fold_module_tables [OF assms, of timer_sec uf "db\<lparr>sysUpSeconds := up_seconds (startTime db) cur\<rparr>" m v h]
  by (simp add: up_seconds_eq)

theorem igmp_timer_pass_witness:
  "tables (rtk_igmp_maintainMulticastSnoopingTimerList 1 False [0] 300 demo_db) 0 IP_VERSION4 1 = [] \<and>
   tables (rtk_igmp_maintainMulticastSnoopingTimerList 1 False [0] 100 demo_db) 0 IP_VERSION4 1 = tables demo_db 0 IP_VERSION4 1 \<and>
   length (tables demo_db 0 IP_VERSION4 1) = 1"
proof -
  have t: "startTime demo_db = 0" "length (tables demo_db 0 IP_VERSION4 1) = 1" by code_simp+
  have "map clientList (tables demo_db 0 IP_VERSION4 1) \<noteq> []" by code_simp
  have e: "List.map_filter (live_group 300) (tables demo_db 0 IP_VERSION4 1) = []"
    "List.map_filter (live_group 100) (tables demo_db 0 IP_VERSION4 1) = tables demo_db 0 IP_VERSION4 1" by code_simp+
  have d: "distinct [0::nat]" by simp
  show ?thesis using t e unfolding igmp_timer_pass [OF d] by (simp add: IGMP_HASH_TBL_SIZE_def)
qed

end
