(* ===== verification/Igmp_Bounds.thy ===== *)
theory Igmp_Bounds
  imports Igmp_Traffic
begin

text \<open>
  The limits on the number of groups of a bridge: no sequence of packets, timer passes and
  configuration changes makes a table exceed them.
\<close>

section \<open>Operations that add no group\<close>

definition fewer :: "igmpdb \<Rightarrow> igmpdb \<Rightarrow> bool" where
  "fewer db db' \<longleftrightarrow> (\<forall>m v h. length (tables db' m v h) \<le> length (tables db m v h))"

lemma fewer_trans: "fewer db db' \<Longrightarrow> fewer db' db'' \<Longrightarrow> fewer db db''"
  unfolding fewer_def by (meson order_trans)

lemma fewer_tables [intro]: "tables db' = tables db \<Longrightarrow> fewer db db'"
  by (simp add: fewer_def)

lemma fewer_set_bucket: "tables db' = tables (set_bucket m v h gs db) \<Longrightarrow> length gs \<le> length (tables db m v h) \<Longrightarrow> fewer db db'"
  by (simp add: fewer_def tables_set_bucket)

lemma fewer_call: "fewer db db' \<Longrightarrow> fewer db (call c db')"
  by (simp add: fewer_def call_def)

lemma fewer_fold: "(\<And>x db. fewer db (f x db)) \<Longrightarrow> fewer db (fold f xs db)"
  by (induction xs arbitrary: db) (auto intro: fewer_trans)

lemma length_remove_first: "length (remove_first P xs) \<le> length xs"
  by (induction xs) auto

lemma fewer_upd_group: "fewer db (upd_group m v ga f db)"
  unfolding upd_group_def by (rule fewer_set_bucket [OF refl]) simp

lemma fewer_on_client: "fewer db (snd (on_client p ga body db))"
proof -
  have "fewer db (upd_group m v ga f (db\<lparr>source_free := n\<rparr>))" for m v f n
    by (rule fewer_trans [OF _ fewer_upd_group]) auto
  then show ?thesis by (auto simp: on_client_def split: option.split prod.split)
qed

lemma fewer_delete_group: "fewer db (rtk_igmp_deleteGroupEntry m v ga db)"
proof (cases "rtk_igmp_searchGroupEntry db m v ga")
  case (Some g)
  then show ?thesis
    by (intro fewer_set_bucket [where m = m and v = v and h = "rtk_igmp_hashAlgorithm v ga" and gs = "remove_first (is_group v ga) (bucket db m v ga)"])
      (simp_all add: rtk_igmp_deleteGroupEntry_def Let_def call_def set_bucket_def length_remove_first)
qed (auto simp: rtk_igmp_deleteGroupEntry_def)

lemma fewer_delete_client: "fewer db (rtk_igmp_deleteClientEntry m ga p db)"
proof -
  have "fewer db (upd_group m v ga f (db\<lparr>source_free := n, client_free := k\<rparr>))" for v f n k
    by (rule fewer_trans [OF _ fewer_upd_group]) auto
  then show ?thesis by (auto simp: rtk_igmp_deleteClientEntry_def Let_def split: option.split)
qed

lemma fewer_leave: "fewer db (snd (rtk_igmp_processLeave p ga db))"
proof -
  let ?m = "moduleIndex p" and ?v = "pver p"
  define db1 where "db1 = (case rtk_igmp_searchGroupEntry db ?m ?v ga of None \<Rightarrow> db | Some g \<Rightarrow>
    (case rtk_igmp_searchClientEntry p g of None \<Rightarrow> db | Some g' \<Rightarrow>
      let db = upd_group ?m ?v ga (\<lambda>_. g') db in if fast_leave p then rtk_igmp_deleteClientEntry ?m ga p db
        else snd (on_client p ga (leave_body p) db)))"
  have "fewer db db1" unfolding db1_def Let_def
    by (auto split: option.split intro: fewer_trans [OF fewer_upd_group fewer_delete_client] fewer_trans [OF fewer_upd_group fewer_on_client])
  then have "fewer db (case rtk_igmp_searchGroupEntry db1 ?m ?v ga of Some g \<Rightarrow> if clientList g = [] then rtk_igmp_deleteGroupEntry ?m ?v ga db1 else db1 | None \<Rightarrow> db1)"
    using fewer_trans [OF _ fewer_delete_group] by (simp split: option.split)
  then show ?thesis using fewer_call unfolding rtk_igmp_processLeave_def db1_def Let_def by simp
qed

lemma fewer_tick_module: "fewer db (tick_module ts uf m db)"
  using tick_module_tables [of ts uf m db] by (simp add: fewer_def length_map_filter)

lemma fewer_maintain: "fewer db (rtk_igmp_maintainMulticastSnoopingTimerList ts uf ms cur db)"
  unfolding rtk_igmp_maintainMulticastSnoopingTimerList_def
  by (rule fewer_trans [OF _ fewer_fold]) (auto intro: fewer_tick_module)

lemma fewer_drop_dev: "fewer db (drop_dev d m v h db)"
  by (rule fewer_set_bucket [where m = m and v = v and h = h]) (auto simp: drop_dev_def Let_def set_bucket_def)

lemma fewer_clear_dev: "fewer db (rtk_igmp_clearDataBaseByDev ms d db)"
  unfolding rtk_igmp_clearDataBaseByDev_def
  by (rule fewer_fold) (rule fewer_trans; rule fewer_fold; rule fewer_drop_dev)

lemma fewer_delete_groups: "fewer db (delete_groups m v gs db)"
  by (induction gs arbitrary: db) (auto intro: fewer_trans [OF fewer_delete_group])

lemma fewer_flush: "fewer db (rtk_igmp_flush_Br_mdb br ms ifidx v db)"
proof -
  have "fewer db (fold (\<lambda>h db. delete_groups m v (tables db m v h) db) hs db)" for m hs db
    by (rule fewer_fold) (rule fewer_delete_groups)
  then show ?thesis unfolding rtk_igmp_flush_Br_mdb_def by (intro fewer_fold) (auto intro: fewer_call)
qed

lemma fewer_black_groups: "length (tables db m v h) = length ds + length gs \<Longrightarrow> fewer db (black_groups m v h p d ds gs db)"
proof (induction gs arbitrary: ds db)
  case (Cons g gs)
  show ?case
  proof (cases "find (black_client p d) (clientList g)")
    case (Some c)
    let ?g = "g\<lparr>clientList := remove_first (black_client p d) (clientList g)\<rparr>"
    let ?db = "call (ReflushFlow (groupAddr g)) (set_bucket m v h (ds @ ?g # gs)
        (db\<lparr>source_free := source_free db + length (sourceList c), client_free := client_free db + 1\<rparr>))"
    have "fewer db ?db" by (rule fewer_set_bucket [where m = m and v = v and h = h and gs = "ds @ ?g # gs"])
      (use Cons.prems in \<open>simp_all add: call_def set_bucket_def\<close>)
    moreover have "fewer ?db (black_groups m v h p d (ds @ [?g]) gs ?db)"
      by (rule Cons.IH) (simp add: call_def set_bucket_def)
    ultimately show ?thesis using Some by (auto simp: Let_def intro: fewer_trans)
  qed (use Cons in simp)
qed auto

lemma fewer_black: "fewer db (rtk_igmp_blackList_updateFlow ms p d db)"
  unfolding rtk_igmp_blackList_updateFlow_def by (intro fewer_fold) (simp add: fewer_black_groups)

section \<open>Limits\<close>

abbreviation groups_no :: "igmpdb \<Rightarrow> nat \<Rightarrow> ipver \<Rightarrow> nat" where
  "groups_no db m v \<equiv> length (groups_of db m v)"

text \<open>What \<open>at_limit\<close> keeps up: a limit of zero is no limit.\<close>

definition below :: "nat \<Rightarrow> nat \<Rightarrow> bool" where
  "below limit n \<longleftrightarrow> limit \<noteq> 0 \<longrightarrow> n \<le> limit"

definition limits_kept :: "policy \<Rightarrow> igmpdb \<Rightarrow> nat \<Rightarrow> bool" where
  "limits_kept pol db m \<longleftrightarrow>
     below (sysIp4MaxGroupSize (brDevConf pol m)) (groups_no db m IP_VERSION4) \<and>
     below (sysIp6MaxGroupSize (brDevConf pol m)) (groups_no db m IP_VERSION6) \<and>
     below (sysMaxGroupSize (brDevConf pol m)) (groups_no db m IP_VERSION4 + groups_no db m IP_VERSION6)"

lemma below_mono: "below l n \<Longrightarrow> n' \<le> n \<Longrightarrow> below l n'"
  by (auto simp: below_def)

lemma below_Suc: "\<not> at_limit l n \<Longrightarrow> n' \<le> Suc n \<Longrightarrow> below l n'"
  by (auto simp: below_def at_limit_def)

lemma groups_no_sum: "groups_no db m v = (\<Sum>h\<leftarrow>[0..<IGMP_HASH_TBL_SIZE]. length (tables db m v h))"
  by (simp add: groups_of_def length_concat o_def)

lemma fewer_groups: "fewer db db' \<Longrightarrow> groups_no db' m v \<le> groups_no db m v"
  unfolding groups_no_sum by (rule sum_list_mono) (simp add: fewer_def)

lemma fewer_limits: "limits_kept pol db m \<Longrightarrow> fewer db db' \<Longrightarrow> limits_kept pol db' m"
  using fewer_groups [of db db' m] by (auto simp: limits_kept_def intro: below_mono add_mono)

text \<open>A new group adds one to its own table.\<close>

lemma link_groups_no:
  "groups_no (rtk_igmp_linkGroupEntry m v ga db) m' v' = (if m' = m \<and> v' = v then Suc (groups_no db m v) else groups_no db m' v')"
proof -
  let ?h = "rtk_igmp_hashAlgorithm v ga" and ?db = "rtk_igmp_linkGroupEntry m v ga db"
  have t: "length (tables ?db m' v' h) = (if m' = m \<and> v' = v \<and> h = ?h then Suc (length (tables db m v h)) else length (tables db m' v' h))" for h
    by (simp add: rtk_igmp_linkGroupEntry_def Let_def call_def set_bucket_def)
  show ?thesis
  proof (cases "m' = m \<and> v' = v")
    case True
    have "(\<Sum>h\<leftarrow>[0..<IGMP_HASH_TBL_SIZE]. length (tables ?db m v h)) + length (tables db m v ?h) =
        (\<Sum>h\<leftarrow>[0..<IGMP_HASH_TBL_SIZE]. length (tables db m v h)) + length (tables ?db m v ?h)"
      by (rule sum_list_upd) (use True t hash_bound [of v ga] in auto)
    then show ?thesis using True t [of ?h] by (simp add: groups_no_sum)
  next
    case False
    then show ?thesis using t by (auto simp: groups_no_sum)
  qed
qed

lemma groups_no_cong: "tables db' = tables db \<Longrightarrow> groups_no db' m v = groups_no db m v"
  by (simp add: groups_of_def)

lemma fewer_enter_client: "fewer db (snd (enter_client p ga db))"
proof -
  have "fewer db (upd_group m v ga f (db\<lparr>client_free := n\<rparr>))" for m v f n
    by (rule fewer_trans [OF _ fewer_upd_group]) auto
  then show ?thesis
    using fewer_upd_group by (auto simp: enter_client_def rtk_igmp_allocateClientEntry_def Let_def split: option.split)
qed

text \<open>The tables have room for a new group.\<close>

definition no_limit :: "policy \<Rightarrow> igmpdb \<Rightarrow> nat \<Rightarrow> bool" where
  "no_limit pol db m \<longleftrightarrow>
     \<not> at_limit (sysIp4MaxGroupSize (brDevConf pol m)) (groups_no db m IP_VERSION4) \<and>
     \<not> at_limit (sysIp6MaxGroupSize (brDevConf pol m)) (groups_no db m IP_VERSION6) \<and>
     \<not> at_limit (sysMaxGroupSize (brDevConf pol m)) (groups_no db m IP_VERSION4 + groups_no db m IP_VERSION6)"

lemma enter_group_limits:
  assumes "limits_kept pol db m" and "rtk_igmp_searchGroupEntry db (moduleIndex p) (pver p) ga = None \<Longrightarrow> no_limit pol db (moduleIndex p)"
  shows "limits_kept pol (snd (enter_group p ga db)) m"
proof (cases "rtk_igmp_searchGroupEntry db (moduleIndex p) (pver p) ga = None \<and> 0 < group_free db")
  case True
  let ?db = "db\<lparr>group_free := group_free db - 1\<rparr>"
  have g: "groups_no ?db m v = groups_no db m v" for m v by (rule groups_no_cong) simp
  have e: "snd (enter_group p ga db) = rtk_igmp_linkGroupEntry (moduleIndex p) (pver p) ga ?db"
    using True by (simp add: enter_group_def rtk_igmp_allocateGroupEntry_def)
  have "no_limit pol db (moduleIndex p)" by (rule assms(2)) (use True in simp)
  then show ?thesis
    using assms(1) unfolding e limits_kept_def link_groups_no g no_limit_def
    by (cases "m = moduleIndex p"; cases "pver p") (auto elim: below_Suc)
next
  case False
  then have "snd (enter_group p ga db) = db" by (auto simp: enter_group_def rtk_igmp_allocateGroupEntry_def split: option.split)
  then show ?thesis using assms(1) by simp
qed

lemma enter_limits:
  assumes "limits_kept pol db m" and "rtk_igmp_searchGroupEntry db (moduleIndex p) (pver p) ga = None \<Longrightarrow> no_limit pol db (moduleIndex p)"
  shows "limits_kept pol (snd (enter p ga db)) m"
  using enter_group_limits [OF assms] fewer_limits [OF _ fewer_enter_client]
  by (auto simp: enter_def split: prod.split bool.split) (metis snd_conv)+

text \<open>A report that is admitted to a new group has passed the test of the limits.\<close>

lemma admit_no_limit:
  assumes adm: "admit pol p v3 ga src db = (None, db1)" and g: "rtk_igmp_searchGroupEntry db1 (moduleIndex p) (pver p) ga = None"
  shows "no_limit pol db1 (moduleIndex p)"
proof -
  have st: "only_stats db db1" using admit_frame [of db pol p v3 ga src] adm by simp
  have c: "tables (count_join p db) = tables db" by (simp add: count_join_def)
  have "\<not> fst (group_over pol p ga (count_join p db))"
    using adm unfolding admit_def Let_def rtk_igmp_group_limitCheck_def by (auto split: if_splits prod.splits)
  moreover have "rtk_igmp_searchGroupEntry (count_join p db) (moduleIndex p) (pver p) ga = None"
    using g search_cong [of db1 "count_join p db"] c only_stats_frame(1) [OF st] by simp
  ultimately have "no_limit pol (count_join p db) (moduleIndex p)"
    by (auto simp: group_over_def no_limit_def Let_def split: if_splits)
  moreover have "groups_no (count_join p db) m v = groups_no db1 m v" for m v
    by (rule groups_no_cong) (simp add: c only_stats_frame(1) [OF st])
  ultimately show ?thesis by (simp add: no_limit_def)
qed

section \<open>Any sequence of events\<close>

lemma stats_limits: "limits_kept pol db m \<Longrightarrow> only_stats db db' \<Longrightarrow> limits_kept pol db' m"
  by (rule fewer_limits) (auto dest: only_stats_frame(1))

text \<open>Admission followed by the entry of group and client.\<close>

lemma admit_enter_limits:
  assumes "limits_kept pol db m" "admit pol p v3 ga src db = (None, db1)"
  shows "limits_kept pol (snd (enter p ga db1)) m"
proof (rule enter_limits)
  have "only_stats db db1" using admit_frame [of db pol p v3 ga src] assms(2) by simp
  then show "limits_kept pol db1 m" by (rule stats_limits [OF assms(1)])
qed (rule admit_no_limit [OF assms(2)])

lemma learn_limits:
  assumes "limits_kept pol db m"
  shows "limits_kept pol (snd (learn pol p ga src body db)) m"
proof (cases "admit pol p True ga src db")
  case (Pair r db1)
  show ?thesis
  proof (cases r)
    case None
    have e: "limits_kept pol (snd (enter p ga db1)) m" using admit_enter_limits [OF assms] Pair None by simp
    obtain r' db2 where "enter p ga db1 = (r', db2)" by fastforce
    then show ?thesis
      using e Pair None fewer_limits [OF _ fewer_on_client] fewer_limits [OF _ fewer_call [OF fewer_on_client]]
      by (auto simp: learn_def split: option.split prod.split bool.split) (metis snd_conv)+
  next
    case (Some ret)
    then show ?thesis using Pair admit_frame [of db pol p True ga src] stats_limits [OF assms] by (simp add: learn_def)
  qed
qed

lemma join_limits:
  assumes "limits_kept pol db m"
  shows "limits_kept pol (snd (rtk_igmp_processJoin pol p t a db)) m"
proof (cases "admit pol p False (join_group p t a) None db")
  case (Pair r db1)
  show ?thesis
  proof (cases r)
    case None
    let ?ga = "join_group p t a"
    have e: "limits_kept pol (snd (enter p ?ga db1)) m" using admit_enter_limits [OF assms] Pair None by simp
    obtain r' db2 where "enter p ?ga db1 = (r', db2)" by fastforce
    then show ?thesis
      using e Pair None fewer_limits [OF _ fewer_call [OF fewer_on_client]]
      by (simp add: rtk_igmp_processJoin_def Let_def split: option.split)
  next
    case (Some ret)
    then show ?thesis using Pair admit_frame [of db pol p False "join_group p t a" None] stats_limits [OF assms]
      by (simp add: rtk_igmp_processJoin_def)
  qed
qed

lemma block_limits:
  assumes "limits_kept pol db m"
  shows "limits_kept pol (snd (rtk_igmp_processBlock pol p r db)) m"
proof (cases "admit pol p True (rgroup r) None db")
  case (Pair ret db1)
  have k: "limits_kept pol db1 m" using Pair admit_frame [of db pol p True "rgroup r" None] stats_limits [OF assms] by simp
  have f: "fewer db1 (snd (on_client p ga (block_body p ss) (upd_group m v ga f db1)))" for ga ss m v f
    by (rule fewer_trans [OF fewer_upd_group fewer_on_client])
  have "fewer db1 (snd (rtk_igmp_processBlock pol p r db))"
    using f fewer_call [OF f] fewer_call [OF fewer_tables [OF refl]] fewer_tables [OF refl, of db1]
    unfolding rtk_igmp_processBlock_def Let_def Pair by (simp split: option.split add: case_prod_beta bool.case_eq_if)
  then show ?thesis by (rule fewer_limits [OF k])
qed

lemma process_record_limits: "limits_kept pol db m \<Longrightarrow> limits_kept pol (snd (process_record pol p ret0 r db)) m"
  by (simp add: process_record_def learn_limits block_limits rtk_igmp_processIsInclude_def rtk_igmp_processIsExclude_def
    rtk_igmp_processToInclude_def rtk_igmp_processToExclude_def rtk_igmp_processAllow_def)

lemma report_loop_limits: "limits_kept pol db m \<Longrightarrow> limits_kept pol (snd (report_loop pol p ret0 mem len k n off db)) m"
proof (induction n arbitrary: off db)
  case (Suc n)
  then show ?case using process_record_limits [OF Suc.prems, of p ret0 "record_at (pver p) mem off"]
    by (auto simp: Let_def split: prod.split)
qed simp

lemma handle_msg_limits: "limits_kept (hpolicy e) db m \<Longrightarrow> limits_kept (hpolicy e) (snd (handle_msg e p msg db)) m"
  by (cases msg) (simp_all add: handle_msg_def join_limits report_loop_limits rtk_igmp_processIgmpv3Mldv2Reports_def fewer_limits [OF _ fewer_leave])

lemma hook_step_limits:
  assumes "limits_kept (hpolicy e) (hdb s) m"
  shows "limits_kept (hpolicy e) (hdb (hook_step e ev s)) m"
proof (cases ev)
  case (Packet now p msg)
  then show ?thesis using assms handle_msg_limits
    by (cases rule: mld_process_db [of e now p msg s]) (simp_all add: hook_step_def)
next
  case (BlackAdd a b p d)
  then show ?thesis using assms fewer_limits [OF assms fewer_black]
    by (auto simp: hook_step_def rtk_igmp_blackListAdd_def split: sum.splits prod.splits add_result.splits)
qed (use assms fewer_limits [OF assms] in \<open>simp_all add: hook_step_def rtk_igmp_multicastSysTimerExpired_def fewer_maintain fewer_clear_dev fewer_flush case_prod_beta\<close>)

interpretation hook_limits: event_system "hook_step e" "\<lambda>_. True" "\<lambda>s. limits_kept (hpolicy e) (hdb s) m" for e m
  by unfold_locales (rule hook_step_limits)

lemma limits_init: "limits_kept pol igmpdb_init m"
proof -
  have "groups_of igmpdb_init m v = []" for v by (simp add: groups_of_def igmpdb_init_def)
  then show ?thesis by (simp add: limits_kept_def below_def)
qed

text \<open>
  C37: whatever packets, timer passes and changes of the black list come in, the number of groups a
  bridge has learnt stays within its limits for IPv4, for IPv6 and for both together.
\<close>
theorem igmp_group_limit:
  "limits_kept (hpolicy e) (hdb (hook_run e ds evs)) m"
  unfolding hook_run_def by (rule hook_limits.run_inv) (simp_all add: list_all_iff hook_init_def limits_init)

end
