(* ===== verification/Igmp_Records.thy ===== *)
theory Igmp_Records
  imports Igmp_Bounds
begin

text \<open>
  The records of IGMPv3 and MLDv2 against the state tables of RFC 3376 and RFC 3810: what a record
  does to the entry of a client, in terms of the time its filter and its sources have left.
\<close>

section \<open>The view of a client\<close>

text \<open>
  The time the filter has left, zero in include mode, and the time each recorded source has left.
\<close>

type_synonym client_view = "u32 \<times> (addr \<Rightarrow> u32 option)"

definition remaining :: "u32 \<Rightarrow> u32 \<Rightarrow> u32" where
  "remaining now t = (if t > now then t - now else 0)"

definition view :: "ipver \<Rightarrow> u32 \<Rightarrow> clientEntry \<Rightarrow> client_view" where
  "view v now c = (remaining now (groupFilterTimer c),
     \<lambda>a. map_option (\<lambda>s. remaining now (portTimer s)) (rtk_igmp_searchSourceEntry v a (sourceList c)))"

text \<open>
  The tables of the RFC, with the general membership interval \<open>gmi\<close> and the last member interval
  \<open>lmqt\<close>; with fast leave a record of the include kind replaces the old state.
\<close>

definition rfc_record :: "bool \<Rightarrow> u32 \<Rightarrow> u32 \<Rightarrow> u8 \<Rightarrow> (addr \<Rightarrow> bool) \<Rightarrow> client_view \<Rightarrow> client_view" where
  "rfc_record fast gmi lmqt rt listed cv = (case cv of (gt, st) \<Rightarrow>
     if fast \<and> (rt = 1 \<or> rt = 3) then (0, \<lambda>a. if listed a then Some gmi else None)
     else if rt = 1 \<or> rt = 5 then (gt, \<lambda>a. if listed a then Some gmi else st a)
     else if rt = 2 then (gmi, \<lambda>a. if listed a then Some (case st a of Some x \<Rightarrow> x | None \<Rightarrow> if gt > 0 then gmi else 0) else None)
     else (min gt lmqt, \<lambda>a. if listed a then Some gmi else map_option (min lmqt) (st a)))"

text \<open>Whether the data of a source is wanted.\<close>

definition wanted :: "client_view \<Rightarrow> addr \<Rightarrow> bool" where
  "wanted cv a = (case snd cv a of Some x \<Rightarrow> x > 0 | None \<Rightarrow> fst cv > 0)"

lemma remaining_pos: "remaining now t > 0 \<longleftrightarrow> t > now"
  by (auto simp: remaining_def word_gt_0)

lemma remaining_add: "now \<le> now + d \<Longrightarrow> remaining now (now + d) = d"
  by (auto simp: remaining_def)

lemma remaining_min: "now \<le> now + d \<Longrightarrow> remaining now (min t (now + d)) = min (remaining now t) d"
  unfolding remaining_def min_def by (auto; unat_arith)

lemma remaining_le: "t \<le> now \<Longrightarrow> remaining now t = 0"
  by (simp add: remaining_def leD)

lemma remaining_now [simp]: "remaining now now = 0"
  by (simp add: remaining_def)

lemma wants_view: "client_wants True v a now c \<longleftrightarrow> wanted (view v now c) a"
  by (auto simp: client_wants_def wanted_def view_def remaining_pos not_less split: option.split)

section \<open>Loops over the sources of a record\<close>

definition timers :: "ipver \<Rightarrow> sourceEntry list \<Rightarrow> addr \<Rightarrow> u32 option" where
  "timers v ss a = map_option portTimer (rtk_igmp_searchSourceEntry v a ss)"

definition listed :: "ipver \<Rightarrow> addr list \<Rightarrow> addr \<Rightarrow> bool" where
  "listed v as a \<longleftrightarrow> list_ex (addr_eq v a) as"

lemma listed_simps [simp]:
  "listed v [] a \<longleftrightarrow> False" "listed v (b # bs) a \<longleftrightarrow> addr_eq v a b \<or> listed v bs a"
  by (simp_all add: listed_def)

lemma is_source_cong: "addr_eq v a b \<Longrightarrow> is_source v a = is_source v b"
  by (auto simp: is_source_def addr_eq_norm fun_eq_iff)

lemma timers_cong: "addr_eq v a b \<Longrightarrow> timers v ss a = timers v ss b"
  by (simp add: timers_def rtk_igmp_searchSourceEntry_def is_source_cong)

lemma view_timers: "view v now c = (remaining now (groupFilterTimer c), \<lambda>a. map_option (remaining now) (timers v (sourceList c) a))"
  by (simp add: view_def timers_def option.map_comp o_def)

text \<open>Changing the entry of a source, or adding one at the head, is seen by that source only.\<close>

lemma timers_upd:
  assumes "rtk_igmp_searchSourceEntry v a (fst st) = Some x" "\<And>s. sourceAddr (f s) = sourceAddr s" "\<And>s. portTimer (f s) = g (portTimer s)"
  shows "timers v (fst (upd_source v a f st)) b = (if addr_eq v a b then Some (g (portTimer x)) else timers v (fst st) b)"
proof -
  have "timers v (update_first (is_source v a) f ss) b = (if addr_eq v a b then Some (g (portTimer x)) else timers v ss b)"
    if "rtk_igmp_searchSourceEntry v a ss = Some x" for ss
    using that assms(2,3) by (induction ss) (auto simp: timers_def rtk_igmp_searchSourceEntry_def is_source_def addr_eq_norm split: if_splits)
  then show ?thesis using assms(1) by (cases st) (simp add: upd_source_def)
qed

lemma timers_link:
  "link_new_source a t st = Some st' \<Longrightarrow> timers v (fst st') b = (if addr_eq v a b then Some t else timers v (fst st) b)"
  by (auto simp: link_new_source_def timers_def rtk_igmp_searchSourceEntry_def is_source_def new_source_def addr_eq_norm split: prod.splits if_splits)

lemma timers_search:
  "rtk_igmp_searchSourceEntry v a ss = None \<Longrightarrow> timers v ss a = None" "rtk_igmp_searchSourceEntry v a ss = Some s \<Longrightarrow> timers v ss a = Some (portTimer s)"
  by (simp_all add: timers_def)

text \<open>
  A step for one source: its timer becomes what \<open>tm\<close> makes of the old one, the others stay.
\<close>

locale source_step =
  fixes v :: ipver and step :: "addr \<Rightarrow> src_state \<Rightarrow> src_state option" and tm :: "u32 option \<Rightarrow> u32"
  assumes step_timers: "step a st = Some st' \<Longrightarrow> timers v (fst st') b = (if addr_eq v a b then Some (tm (timers v (fst st) a)) else timers v (fst st) b)"
    and tm_idem: "tm (Some (tm x)) = tm x"
begin

lemma each_timers:
  assumes "each_source step as st = (True, st')"
  shows "timers v (fst st') b = (if listed v as b then Some (tm (timers v (fst st) b)) else timers v (fst st) b)"
  using assms
proof (induction as arbitrary: st)
  case (Cons a as)
  then obtain st1 where s: "step a st = Some st1" "each_source step as st1 = (True, st')" by (auto split: option.splits)
  have "addr_eq v a b \<longleftrightarrow> addr_eq v b a" by (auto simp: addr_eq_norm)
  then show ?case using Cons.IH [OF s(2)] step_timers [OF s(1), of b] timers_cong [of v a b "fst st"] by (auto simp: tm_idem)
qed simp

end

text \<open>A step that sets the timer of a recorded source and enters a new one with the same timer.\<close>

lemma set_timer:
  assumes "(case rtk_igmp_searchSourceEntry v a (fst st) of Some s \<Rightarrow> Some (upd_source v a f st) | None \<Rightarrow> link_new_source a t st) = Some st'"
    and "\<And>s. sourceAddr (f s) = sourceAddr s" "\<And>s. portTimer (f s) = t"
  shows "timers v (fst st') b = (if addr_eq v a b then Some t else timers v (fst st) b)"
proof (cases "rtk_igmp_searchSourceEntry v a (fst st)")
  case (Some x)
  have "timers v (fst (upd_source v a f st)) b = (if addr_eq v a b then Some t else timers v (fst st) b)"
    by (rule timers_upd [OF Some]) (simp_all add: assms)
  then show ?thesis using assms(1) Some by auto
qed (use assms(1) in \<open>simp add: timers_link\<close>)

interpretation linking: source_step v "\<lambda>a. link_new_source a t" "\<lambda>_. t" for v t
  by unfold_locales (simp_all add: timers_link)

interpretation refresh: source_step v "refresh_source v t" "\<lambda>_. t" for v t
  by unfold_locales (simp_all add: refresh_source_def set_timer)

interpretation to_include: source_step v "toInclude_source v t" "\<lambda>_. t" for v t
  by unfold_locales (simp_all add: toInclude_source_def set_timer)

definition exclude_timer :: "u32 \<Rightarrow> u32 \<Rightarrow> bool \<Rightarrow> u32 option \<Rightarrow> u32" where
  "exclude_timer now t ex_mode x = (case x of
     None \<Rightarrow> if ex_mode then t else now
   | Some y \<Rightarrow> if ex_mode \<and> y \<le> now then now else y)"

lemma exclude_step:
  assumes "now \<le> t"
  shows "source_step v (exclude_source v now t ex_mode) (exclude_timer now t ex_mode)"
proof
  show "exclude_timer now t ex_mode (Some (exclude_timer now t ex_mode x)) = exclude_timer now t ex_mode x" for x
    using assms by (auto simp: exclude_timer_def split: option.split)
  fix a st st' b
  assume s: "exclude_source v now t ex_mode a st = Some st'"
  show "timers v (fst st') b = (if addr_eq v a b then Some (exclude_timer now t ex_mode (timers v (fst st) a)) else timers v (fst st) b)"
  proof (cases "rtk_igmp_searchSourceEntry v a (fst st)")
    case None
    then show ?thesis using s by (auto simp: exclude_source_def exclude_timer_def timers_search timers_link)
  next
    case (Some x)
    have u: "timers v (fst (upd_source v a (\<lambda>s. (if portTimer s \<le> now then s\<lparr>portTimer := now\<rparr> else s)\<lparr>setOpFlag := False\<rparr>) st)) b =
        (if addr_eq v a b then Some (if portTimer x \<le> now then now else portTimer x) else timers v (fst st) b)"
      by (rule timers_upd [OF Some]) simp_all
    have w: "timers v (fst (upd_source v a (\<lambda>s. s\<lparr>setOpFlag := False\<rparr>) st)) b =
        (if addr_eq v a b then Some (portTimer x) else timers v (fst st) b)"
      by (rule timers_upd [OF Some]) simp_all
    show ?thesis using s Some u w by (auto simp: exclude_source_def exclude_timer_def timers_search split: if_splits)
  qed
qed

section \<open>Sources that are not listed\<close>

text \<open>While the loop of an exclude record runs, the sources it has seen are exactly those without the flag.\<close>

definition seen :: "ipver \<Rightarrow> addr list \<Rightarrow> sourceEntry list \<Rightarrow> bool" where
  "seen v as ss \<longleftrightarrow> (\<forall>s\<in>set ss. setOpFlag s \<or> listed v as (sourceAddr s)) \<and>
     (\<forall>a s. listed v as a \<longrightarrow> rtk_igmp_searchSourceEntry v a ss = Some s \<longrightarrow> \<not> setOpFlag s)"

lemma find_filter_kept: "find P xs = Some x \<Longrightarrow> Q x \<Longrightarrow> find P (filter Q xs) = Some x"
  by (induction xs) (auto split: if_splits)

lemma timers_kept:
  assumes "seen v as ss"
  shows "timers v (filter (\<lambda>s. \<not> setOpFlag s) ss) a = (if listed v as a then timers v ss a else None)"
proof (cases "listed v as a")
  case True
  show ?thesis
  proof (cases "find (is_source v a) ss")
    case None
    then have "find (is_source v a) (filter (\<lambda>s. \<not> setOpFlag s) ss) = None" by (simp add: find_None_iff)
    then show ?thesis using True None by (simp add: timers_def rtk_igmp_searchSourceEntry_def)
  next
    case (Some s)
    then have "\<not> setOpFlag s" using assms True by (auto simp: seen_def rtk_igmp_searchSourceEntry_def)
    then show ?thesis using True Some find_filter_kept [OF Some, of "\<lambda>s. \<not> setOpFlag s"] by (simp add: timers_def rtk_igmp_searchSourceEntry_def)
  qed
next
  case False
  have "listed v as a" if "listed v as b" "is_source v a s" "b = sourceAddr s" for b s
    using that by (auto simp: listed_def list_ex_iff is_source_def addr_eq_norm)
  then have "find (is_source v a) (filter (\<lambda>s. \<not> setOpFlag s) ss) = None"
    using assms False unfolding find_None_iff seen_def by fastforce
  then show ?thesis using False by (simp add: timers_def rtk_igmp_searchSourceEntry_def)
qed

lemma search_update:
  assumes "rtk_igmp_searchSourceEntry v a ss = Some x" "\<And>s. sourceAddr (f s) = sourceAddr s"
  shows "rtk_igmp_searchSourceEntry v b (update_first (is_source v a) f ss) = (if addr_eq v a b then Some (f x) else rtk_igmp_searchSourceEntry v b ss)"
  using assms by (induction ss) (auto simp: rtk_igmp_searchSourceEntry_def is_source_def addr_eq_norm split: if_splits)

lemma seen_update:
  assumes "seen v as ss" "rtk_igmp_searchSourceEntry v a ss = Some x" "\<And>s. sourceAddr (f s) = sourceAddr s" "\<And>s. \<not> setOpFlag (f s)"
  shows "seen v (a # as) (update_first (is_source v a) f ss)"
proof -
  have "setOpFlag s \<or> listed v (a # as) (sourceAddr s)" if "s \<in> set (update_first (is_source v a) f ss)" for s
    using set_update_first [OF that] assms(1,3) by (auto simp: seen_def is_source_def addr_eq_norm)
  moreover have "\<not> setOpFlag s" if "listed v (a # as) b" "rtk_igmp_searchSourceEntry v b (update_first (is_source v a) f ss) = Some s" for b s
    using that assms(1,4) unfolding search_update [OF assms(2,3)] by (auto simp: seen_def addr_eq_norm split: if_splits)
  ultimately show ?thesis unfolding seen_def by blast
qed

lemma seen_new:
  assumes "seen v as ss"
  shows "seen v (a # as) (new_source a t # ss)"
proof -
  have "rtk_igmp_searchSourceEntry v b (new_source a t # ss) = (if addr_eq v b a then Some (new_source a t) else rtk_igmp_searchSourceEntry v b ss)" for b
    by (simp add: rtk_igmp_searchSourceEntry_def is_source_def new_source_def)
  moreover have "setOpFlag s \<or> listed v (a # as) (sourceAddr s)" if "s \<in> set (new_source a t # ss)" for s
    using that assms by (auto simp: seen_def new_source_def addr_eq_norm)
  ultimately show ?thesis using assms unfolding seen_def by (auto simp: new_source_def split: if_splits)
qed

lemma seen_exclude:
  assumes "seen v as (fst st)" "exclude_source v now t ex_mode a st = Some st'"
  shows "seen v (a # as) (fst st')"
proof (cases "rtk_igmp_searchSourceEntry v a (fst st)")
  case None
  then show ?thesis using assms seen_new by (auto simp: exclude_source_def link_new_source_def split: prod.splits if_splits)
next
  case (Some x)
  note u = seen_update [OF assms(1) Some, where f = "\<lambda>s. (if portTimer s \<le> now then s\<lparr>portTimer := now\<rparr> else s)\<lparr>setOpFlag := False\<rparr>"]
    seen_update [OF assms(1) Some, where f = "\<lambda>s. s\<lparr>setOpFlag := False\<rparr>"]
  show ?thesis using u assms(2) Some by (cases st) (auto simp: exclude_source_def upd_source_def split: if_splits)
qed

lemma each_seen:
  "each_source (exclude_source v now t ex_mode) bs st = (True, st') \<Longrightarrow> seen v as (fst st) \<Longrightarrow> seen v (rev bs @ as) (fst st')"
  by (induction bs arbitrary: st as) (auto split: option.splits dest: seen_exclude)

lemma listed_rev: "listed v (rev as) a = listed v as a"
  by (simp add: listed_def list_ex_iff)

lemma seen_listed: "seen v (rev as) ss \<Longrightarrow> seen v as ss"
  by (simp add: seen_def listed_rev)

section \<open>Records\<close>

text \<open>The fields that only describe the report do not matter to the view.\<close>

lemma view_cong:
  "groupFilterTimer c' = groupFilterTimer c \<Longrightarrow> sourceList c' = sourceList c \<Longrightarrow> view v now c' = view v now c"
  by (simp add: view_def)

lemma gft_edits [simp]:
  "groupFilterTimer (tag_client p c) = groupFilterTimer c" "sourceList (tag_client p c) = sourceList c"
  "groupFilterTimer (v3_client p c) = groupFilterTimer c" "sourceList (v3_client p c) = sourceList c"
  "inIfidx (tag_client p c) = inIfidx c" "inIfidx (v3_client p c) = inIfidx c"
  "sourceList (if new then c\<lparr>groupFilterTimer := now\<rparr> else c) = sourceList c" "inIfidx (if new then c\<lparr>groupFilterTimer := now\<rparr> else c) = inIfidx c"
  "groupFilterTimer (if new then c\<lparr>groupFilterTimer := now\<rparr> else c) = (if new then now else groupFilterTimer c)"
  by (simp_all add: tag_client_def v3_client_def Let_def)

text \<open>A record as seen by the view: the contract every kind of record has with its table.\<close>

definition record_ok :: "u8 \<Rightarrow> pkt \<Rightarrow> addr list \<Rightarrow> (bool \<Rightarrow> client_body) \<Rightarrow> bool" where
  "record_ok rt p srcs body \<longleftrightarrow> (\<forall>new now c free c' free'.
     body new now c free = (True, c', free') \<longrightarrow> (new \<longrightarrow> groupFilterTimer c = 0) \<longrightarrow> now \<le> now + aging_time p \<longrightarrow> now \<le> now + last_aging_time p \<longrightarrow>
     inIfidx c' = inIfidx c \<and>
     view (pver p) now c' = rfc_record (fast_leave p) (aging_time p) (last_aging_time p) rt (listed (pver p) srcs) (view (pver p) now c))"

lemma with_sources_True: "with_sources c r = (True, c', free') \<longleftrightarrow> (\<exists>ss. r = (True, ss, free') \<and> c' = c\<lparr>sourceList := ss\<rparr>)"
  by (auto simp: with_sources_def split: prod.splits)

lemma timers_Nil [simp]: "timers v [] a = None"
  by (simp add: timers_def rtk_igmp_searchSourceEntry_def)

lemma remaining_0 [simp]: "remaining now 0 = 0"
  by (simp add: remaining_def)

lemma isInclude_record: "record_ok 1 p srcs (isInclude_body p srcs)"
  unfolding record_ok_def
proof (intro allI impI)
  fix new now free free' and c c' :: clientEntry
  let ?t = "now + aging_time p"
  assume b: "isInclude_body p srcs new now c free = (True, c', free')" and new: "new \<longrightarrow> groupFilterTimer c = 0" and t: "now \<le> ?t"
  show "inIfidx c' = inIfidx c \<and>
     view (pver p) now c' = rfc_record (fast_leave p) (aging_time p) (last_aging_time p) 1 (listed (pver p) srcs) (view (pver p) now c)"
  proof (cases "fast_leave p")
    case True
    then obtain ss where e: "each_source (\<lambda>a. link_new_source a ?t) srcs ([], free + length (sourceList c)) = (True, ss, free')"
      and c': "inIfidx c' = inIfidx c" "groupFilterTimer c' = now" "sourceList c' = ss"
      using b by (auto simp: isInclude_body_def with_sources_True rtk_igmp_deleteSourceList_def Let_def)
    show ?thesis using linking.each_timers [OF e, of "pver p"] c' True t
      by (auto simp: view_timers rfc_record_def remaining_add)
  next
    case False
    then obtain ss where e: "each_source (refresh_source (pver p) ?t) srcs (sourceList c, free) = (True, ss, free')"
      and c': "inIfidx c' = inIfidx c" "groupFilterTimer c' = (if new then now else groupFilterTimer c)" "sourceList c' = ss"
      using b by (auto simp: isInclude_body_def with_sources_True Let_def)
    show ?thesis using refresh.each_timers [OF e] c' False t new
      by (auto simp: view_timers rfc_record_def remaining_add)
  qed
qed

lemma allow_record: "record_ok 5 p srcs (allow_body p srcs)"
  unfolding record_ok_def
proof (intro allI impI)
  fix new now free free' and c c' :: clientEntry
  let ?t = "now + aging_time p"
  assume b: "allow_body p srcs new now c free = (True, c', free')" and new: "new \<longrightarrow> groupFilterTimer c = 0" and t: "now \<le> ?t"
  obtain ss where e: "each_source (refresh_source (pver p) ?t) srcs (sourceList c, free) = (True, ss, free')"
    and c': "inIfidx c' = inIfidx c" "groupFilterTimer c' = (if new then now else groupFilterTimer c)" "sourceList c' = ss"
    using b by (auto simp: allow_body_def with_sources_True Let_def)
  show "inIfidx c' = inIfidx c \<and>
     view (pver p) now c' = rfc_record (fast_leave p) (aging_time p) (last_aging_time p) 5 (listed (pver p) srcs) (view (pver p) now c)"
    using refresh.each_timers [OF e] c' t new by (auto simp: view_timers rfc_record_def remaining_add)
qed

lemma timers_flag: "timers v (map (\<lambda>s. s\<lparr>setOpFlag := True\<rparr>) ss) a = timers v ss a"
  by (induction ss) (auto simp: timers_def rtk_igmp_searchSourceEntry_def is_source_def)

lemma timers_shorten: "timers v (map (shorten_source now t) ss) a = map_option (min t) (timers v ss a)"
  by (induction ss) (auto simp: timers_def rtk_igmp_searchSourceEntry_def is_source_def shorten_source_def Let_def min_def)

lemma isExclude_record: "record_ok 2 p srcs (isExclude_body p srcs)"
  unfolding record_ok_def
proof (intro allI impI)
  fix new now free free' and c c' :: clientEntry
  let ?t = "now + aging_time p" and ?v = "pver p" and ?ex = "groupFilterTimer c > now"
  assume b: "isExclude_body p srcs new now c free = (True, c', free')" and t: "now \<le> ?t"
  obtain st where e: "each_source (exclude_source ?v now ?t ?ex) srcs (flag_all (sourceList c, free)) = (True, st)"
    and c': "inIfidx c' = inIfidx c" "groupFilterTimer c' = ?t" "sourceList c' = filter (\<lambda>s. \<not> setOpFlag s) (fst st)"
    using b by (auto simp: isExclude_body_def with_sources_True delete_flagged_def Let_def split: prod.splits bool.splits)
  have "seen ?v [] (fst (flag_all (sourceList c, free)))" by (auto simp: seen_def flag_all_def)
  then have "seen ?v srcs (fst st)" using each_seen [OF e] seen_listed by fastforce
  note kept = timers_kept [OF this]
  have tm: "timers ?v (fst st) a = (if listed ?v srcs a then Some (exclude_timer now ?t ?ex (timers ?v (sourceList c) a)) else timers ?v (sourceList c) a)" for a
    using source_step.each_timers [OF exclude_step [OF t] e] by (simp add: flag_all_def timers_flag)
  have "remaining now (exclude_timer now ?t ?ex x) = (case map_option (remaining now) x of Some y \<Rightarrow> y
      | None \<Rightarrow> if remaining now (groupFilterTimer c) > 0 then aging_time p else 0)" for x
    using remaining_add [OF t] by (auto simp: exclude_timer_def remaining_pos remaining_le split: option.split)
  then show "inIfidx c' = inIfidx c \<and>
     view ?v now c' = rfc_record (fast_leave p) (aging_time p) (last_aging_time p) 2 (listed ?v srcs) (view ?v now c)"
    using c' kept tm remaining_add [OF t] by (auto simp: view_timers rfc_record_def fun_eq_iff)
qed

lemma toInclude_record: "record_ok 3 p srcs (toInclude_body p srcs)"
  unfolding record_ok_def
proof (intro allI impI)
  fix new now free free' and c c' :: clientEntry
  let ?t = "now + aging_time p" and ?l = "now + last_aging_time p" and ?v = "pver p"
  assume b: "toInclude_body p srcs new now c free = (True, c', free')" and t: "now \<le> ?t" and l: "now \<le> ?l"
  show "inIfidx c' = inIfidx c \<and>
     view ?v now c' = rfc_record (fast_leave p) (aging_time p) (last_aging_time p) 3 (listed ?v srcs) (view ?v now c)"
  proof (cases "fast_leave p")
    case True
    then obtain ss where e: "each_source (\<lambda>a. link_new_source a ?t) srcs ([], free + length (sourceList c)) = (True, ss, free')"
      and c': "inIfidx c' = inIfidx c" "groupFilterTimer c' = now" "sourceList c' = ss"
      using b by (auto simp: toInclude_body_def with_sources_True rtk_igmp_deleteSourceList_def Let_def)
    show ?thesis using linking.each_timers [OF e, of ?v] c' True t
      by (auto simp: view_timers rfc_record_def remaining_add)
  next
    case False
    then obtain st where e: "each_source (toInclude_source ?v ?t) srcs (map (shorten_source now ?l) (sourceList c), free) = (True, st)"
      and c': "inIfidx c' = inIfidx c" "groupFilterTimer c' = (if groupFilterTimer c > ?l then ?l else groupFilterTimer c)" "sourceList c' = fst st"
      using b by (auto simp: toInclude_body_def with_sources_True Let_def split: prod.splits bool.splits if_splits)
    have "groupFilterTimer c' = min (groupFilterTimer c) ?l" using c'(2) by (auto simp: min_def)
    note c' = c'(1,3) this
    have "map_option (remaining now) (map_option (min ?l) x) = map_option (min (last_aging_time p)) (map_option (remaining now) x)" for x
      using remaining_min [OF l] by (cases x) (simp_all add: min.commute)
    then show ?thesis using to_include.each_timers [OF e] c' False remaining_add [OF t] remaining_min [OF l]
      by (auto simp: view_timers rfc_record_def timers_shorten fun_eq_iff)
  qed
qed

section \<open>The records of a report\<close>

text \<open>A record that was learnt has passed admission, found or made its entries and run its handler.\<close>

lemma admit_not_continue: "admit pol p v3 ga src db = (Some r, db') \<Longrightarrow> r \<noteq> RTK_IGMP_NF_CONTINUE"
  by (auto simp: admit_def Let_def split: if_splits prod.splits option.splits)

lemma enter_has_room:
  assumes "enter p ga db = (Some new, db')"
  shows "room db p ga"
proof -
  let ?m = "moduleIndex p" and ?v = "pver p"
  obtain db1 where 1: "enter_group p ga db = (True, db1)" "enter_client p ga db1 = (Some new, db')"
    using assms by (auto simp: enter_def split: prod.splits bool.splits)
  have g: "rtk_igmp_searchGroupEntry db ?m ?v ga \<noteq> None \<or> 0 < group_free db"
    using 1(1) by (auto simp: enter_group_def rtk_igmp_allocateGroupEntry_def split: option.splits if_splits)
  have "client_free db1 = client_free db"
    using 1(1) by (auto simp: enter_group_def rtk_igmp_allocateGroupEntry_def split: option.splits if_splits)
  moreover have "client_of db1 ?m ?v ga (saddr p) (smac p) = client_of db ?m ?v ga (saddr p) (smac p)"
    using 1(1) by (auto simp: enter_group_def rtk_igmp_allocateGroupEntry_def client_of_def search_link split: option.splits if_splits)
  moreover have "client_of db1 ?m ?v ga (saddr p) (smac p) \<noteq> None \<or> 0 < client_free db1"
  proof (cases "0 < client_free db1")
    case False
    then obtain g g' where "rtk_igmp_searchGroupEntry db1 ?m ?v ga = Some g" "rtk_igmp_searchClientEntry p g = Some g'"
      using 1(2) by (auto simp: enter_client_def rtk_igmp_allocateClientEntry_def split: option.splits)
    then show ?thesis using client_of_move by blast
  qed simp
  ultimately show ?thesis using g by (simp add: room_def)
qed

context record_handler
begin

lemma learn_client:
  assumes "learn pol p ga src body db = (RTK_IGMP_NF_CONTINUE, db')"
  obtains new free c' free' where
    "body new (sysUpSeconds db) (entered p ga db) free = (True, c', free')"
    "new \<longleftrightarrow> client_of db (moduleIndex p) (pver p) ga (saddr p) (smac p) = None"
    "client_of db' (moduleIndex p) (pver p) ga (saddr p) (smac p) = Some c'"
proof -
  let ?co = "\<lambda>db. client_of db (moduleIndex p) (pver p) ga (saddr p) (smac p)"
  obtain db1 where a: "admit pol p True ga src db = (None, db1)"
    using assms admit_not_continue by (cases "admit pol p True ga src db") (auto simp: learn_def split: option.splits)
  have st: "only_stats db db1" using admit_frame [of db pol p True ga src] a by simp
  obtain new db2 where e: "enter p ga db1 = (Some new, db2)"
    using assms a by (cases "enter p ga db1") (auto simp: learn_def split: option.splits)
  obtain db2' where e': "enter p ga db1 = (Some (?co db1 = None), db2')" "?co db2' = Some (entered p ga db1)" "sysUpSeconds db2' = sysUpSeconds db1"
    using enter_room [OF enter_has_room [OF e]] by blast
  obtain r c' free where b: "body new (sysUpSeconds db2) (entered p ga db1) (source_free db2) = (r, c', free)" by (metis prod_cases3)
  have c: "?co db2 = Some (entered p ga db1)" "sysUpSeconds db2 = sysUpSeconds db" "new = (?co db = None)"
    using e e' only_stats_frame [OF st] client_of_cong [of db1 db] by auto
  note o = client_handler.client_of_on_client [OF handler c(1) b]
  have r: "r" and db': "db' = call (ReflushFlow ga) (snd (on_client p ga (body new) db2))"
    using assms a e o(2) by (auto simp: learn_def split: prod.splits bool.splits)
  have "?co db' = ?co (snd (on_client p ga (body new) db2))" unfolding db' by (rule client_of_cong) (simp add: call_def)
  with o(1) have "?co db' = Some c'" by simp
  then show ?thesis using that b r c entered_stats [OF st] by simp
qed

end

text \<open>What is known of the client before the record.\<close>

definition old_view :: "pkt \<Rightarrow> addr \<Rightarrow> igmpdb \<Rightarrow> client_view" where
  "old_view p ga db = (case client_of db (moduleIndex p) (pver p) ga (saddr p) (smac p) of
     None \<Rightarrow> (0, \<lambda>_. None) | Some c \<Rightarrow> view (pver p) (sysUpSeconds db) c)"

lemma view_entered: "view (pver p) (sysUpSeconds db) (entered p ga db) = old_view p ga db"
  by (auto simp: entered_def old_view_def new_client_def view_timers move_client_def Let_def split: option.split)

lemma entered_new: "client_of db (moduleIndex p) (pver p) ga (saddr p) (smac p) = None \<Longrightarrow> groupFilterTimer (entered p ga db) = 0"
  by (simp add: entered_def new_client_def)

context record_handler
begin

lemma learn_view:
  assumes l: "learn pol p ga src body db = (RTK_IGMP_NF_CONTINUE, db')" and ok: "record_ok rt p srcs body"
    and t: "sysUpSeconds db \<le> sysUpSeconds db + aging_time p" "sysUpSeconds db \<le> sysUpSeconds db + last_aging_time p"
  shows "\<exists>c. client_of db' (moduleIndex p) (pver p) ga (saddr p) (smac p) = Some c \<and> inIfidx c = devIfindex p \<and>
     view (pver p) (sysUpSeconds db) c = rfc_record (fast_leave p) (aging_time p) (last_aging_time p) rt (listed (pver p) srcs) (old_view p ga db)"
proof -
  obtain new free c' free' where b: "body new (sysUpSeconds db) (entered p ga db) free = (True, c', free')"
    "new \<longleftrightarrow> client_of db (moduleIndex p) (pver p) ga (saddr p) (smac p) = None"
    "client_of db' (moduleIndex p) (pver p) ga (saddr p) (smac p) = Some c'"
    using learn_client [OF l] .
  then have "inIfidx c' = inIfidx (entered p ga db) \<and>
     view (pver p) (sysUpSeconds db) c' =
       rfc_record (fast_leave p) (aging_time p) (last_aging_time p) rt (listed (pver p) srcs) (view (pver p) (sysUpSeconds db) (entered p ga db))"
    using ok [unfolded record_ok_def, rule_format, OF b(1)] t entered_new by blast
  then show ?thesis using b(3) by (simp add: view_entered)
qed

end

text \<open>
  C36: a record of the kinds IS_IN, IS_EX, TO_IN or ALLOW that is learnt changes the entry of the
  client as the tables of RFC 3376 and RFC 3810 say: the time left for the filter and for every
  source is what the tables give for the state before, the client is served on the port of the
  packet, and the data of a source is wanted exactly when the new state of the tables says so.
\<close>
theorem igmp_records_rfc:
  assumes rec: "process_record pol p ret0 r db = (RTK_IGMP_NF_CONTINUE, db')" and rt: "rtype r \<in> {1, 2, 3, 5}"
    and t: "sysUpSeconds db \<le> sysUpSeconds db + aging_time p" "sysUpSeconds db \<le> sysUpSeconds db + last_aging_time p"
  shows "\<exists>c. client_of db' (moduleIndex p) (pver p) (rgroup r) (saddr p) (smac p) = Some c \<and> inIfidx c = devIfindex p \<and>
     view (pver p) (sysUpSeconds db) c =
       rfc_record (fast_leave p) (aging_time p) (last_aging_time p) (rtype r) (listed (pver p) (srcList r)) (old_view p (rgroup r) db) \<and>
     (\<forall>a. client_wants True (pver p) a (sysUpSeconds db) c \<longleftrightarrow>
       wanted (rfc_record (fast_leave p) (aging_time p) (last_aging_time p) (rtype r) (listed (pver p) (srcList r)) (old_view p (rgroup r) db)) a)"
proof -
  note views = is_in.learn_view [OF _ isInclude_record t] is_ex.learn_view [OF _ isExclude_record t]
    to_in.learn_view [OF _ toInclude_record t] allow.learn_view [OF _ allow_record t]
  have "\<exists>c. client_of db' (moduleIndex p) (pver p) (rgroup r) (saddr p) (smac p) = Some c \<and> inIfidx c = devIfindex p \<and>
     view (pver p) (sysUpSeconds db) c =
       rfc_record (fast_leave p) (aging_time p) (last_aging_time p) (rtype r) (listed (pver p) (srcList r)) (old_view p (rgroup r) db)"
    using rt rec views unfolding process_record_def
    by (auto simp: rtk_igmp_processIsInclude_def rtk_igmp_processIsExclude_def rtk_igmp_processToInclude_def rtk_igmp_processAllow_def)
  then show ?thesis by (metis wants_view)
qed

definition demo_record :: group_record where
  "demo_record = \<lparr>rtype = 2, auxLen = 0, rgroup = demo_group, srcList = [Addr 77 0 0 0]\<rparr>"

theorem igmp_records_rfc_witness:
  "\<exists>c. client_of (snd (process_record demo_policy (demo_pkt 7) RTK_IGMP_NF_DROP demo_record igmpdb_init)) 0 IP_VERSION4 demo_group (Addr 7 0 0 0) [2, 0, 0, 0, 0, 1] = Some c \<and>
     view IP_VERSION4 0 c = rfc_record False 260 10 2 (listed IP_VERSION4 [Addr 77 0 0 0]) (0, \<lambda>_. None) \<and>
     client_wants True IP_VERSION4 (Addr 99 0 0 0) 0 c \<and> \<not> client_wants True IP_VERSION4 (Addr 77 0 0 0) 0 c"
proof -
  let ?p = "demo_pkt 7" and ?db = "snd (process_record demo_policy (demo_pkt 7) RTK_IGMP_NF_DROP demo_record igmpdb_init)"
  have "fst (process_record demo_policy ?p RTK_IGMP_NF_DROP demo_record igmpdb_init) = RTK_IGMP_NF_CONTINUE" by code_simp
  then have rec: "process_record demo_policy ?p RTK_IGMP_NF_DROP demo_record igmpdb_init = (RTK_IGMP_NF_CONTINUE, ?db)" by (metis prod.collapse)
  have p: "moduleIndex ?p = 0" "pver ?p = IP_VERSION4" "saddr ?p = Addr 7 0 0 0" "smac ?p = [2, 0, 0, 0, 0, 1]"
    "fast_leave ?p = False" "aging_time ?p = 260" "last_aging_time ?p = 10"
    by (simp_all add: demo_pkt_def fast_leave_def aging_time_def last_aging_time_def)
  have r: "rtype demo_record = 2" "rgroup demo_record = demo_group" "srcList demo_record = [Addr 77 0 0 0]" "sysUpSeconds igmpdb_init = 0"
    by (simp_all add: demo_record_def igmpdb_init_def)
  have o: "old_view ?p demo_group igmpdb_init = (0, \<lambda>_. None)"
    by (simp add: old_view_def client_of_def rtk_igmp_searchGroupEntry_def igmpdb_init_def)
  have w: "wanted (rfc_record False 260 10 2 (listed IP_VERSION4 [Addr 77 0 0 0]) (0, \<lambda>_. None)) (Addr 99 0 0 0)"
    "\<not> wanted (rfc_record False 260 10 2 (listed IP_VERSION4 [Addr 77 0 0 0]) (0, \<lambda>_. None)) (Addr 77 0 0 0)"
    by (simp_all add: wanted_def rfc_record_def addr_eq_def)
  show ?thesis using igmp_records_rfc [OF rec] w unfolding p r o by (auto simp: word_le_nat_alt)
qed

end
