(* ===== verification/Igmp_Flow.thy ===== *)
theory Igmp_Flow
  imports Igmp_Hook
begin

text \<open>
  The data path of the multicast snooping: the devices a data packet is sent to, and the cache of
  flows with what it tells the hardware.  The configuration is that of \<open>configs/rtl9607c.config\<close>: no
  extra ports and no unicast copies, so an egress entry is the interface index of a device.  All
  hardware callbacks are registered.
\<close>

section \<open>State\<close>

record fwd_info =
  egressDevInfo :: "u32 list"
  cpuFlag :: bool
  reservedMCast :: bool
  unknownMCast :: bool
  copy2cpu :: bool
  dropPkt :: bool
  hwCbAcc :: bool

definition fwd_zero :: fwd_info where
  "fwd_zero = \<lparr>egressDevInfo = [], cpuFlag = False, reservedMCast = False, unknownMCast = False, copy2cpu = False,
     dropPkt = False, hwCbAcc = False\<rparr>"

text \<open>
  A data packet and a cached flow; a missing VLAN tag is \<open>None\<close>.  The last two fields of a packet are
  the bits \<open>SKIP_LEARNING\<close> and \<open>DUMMY_PKT\<close> of \<open>privateField\<close>.
\<close>

record data_info =
  dIpVersion :: ipver
  sourceIp :: addr
  dGroupAddr :: addr
  dSport :: u32
  dDport :: u32
  vlanTag :: "u16 option"
  svlanTag :: "u16 option"
  dL4proto :: u16
  skipLearning :: bool
  dummyPkt :: bool

record flow =
  fIpVersion :: ipver
  serverAddr :: addr
  fGroupAddr :: addr
  sport :: u32
  dport :: u32
  ingressCvlan :: "u16 option"
  ingressSvlan :: "u16 option"
  l4proto :: u16
  multicastFwdInfo :: fwd_info
  refreshTime :: u32
  fwdPktCnt :: u32
  defineFwdPktCnt :: u32

datatype hw_call =
    FlowSet ipver addr addr "u32 list" "u16 option" "u16 option" bool
  | FlowDel ipver addr addr "u16 option" "u16 option"
  | FlowUpdate ipver addr addr "u32 list" "u16 option" "u16 option"
  | HwGroupAdd ipver addr "u16 option" "u16 option"
  | HwGroupDel ipver addr "u16 option" "u16 option"

text \<open>
  The flow tables of the modules and the number of free entries, the rate limits for unknown groups,
  the calls to the hardware (latest first), and whether a loop came to an entry that had been freed.
\<close>

record flow_db =
  flowTable :: "nat \<Rightarrow> nat \<Rightarrow> flow list"
  flow_free :: nat
  umcLimits :: "u32 \<Rightarrow> ipver \<Rightarrow> ratelimit"
  hwCalls :: "hw_call list"
  freedVisit :: bool

text \<open>
  What the data path takes from elsewhere: the reserved groups, the valid modules in the order of their
  slots, the ports of a bridge, the settings of a device, the rate for unknown groups, the registered
  devices, the wireless device a group is trapped to, whether the hardware gives up a flow, the
  size of the egress table, and the clock.
\<close>

record fwd_env =
  fResv :: "userResvGroup list"
  fModules :: "nat list"
  combineId :: "nat \<Rightarrow> u8"
  port_list :: "nat \<Rightarrow> u32 list"
  fConf :: "u32 \<Rightarrow> ipver \<Rightarrow> fam_conf option"
  umcRate :: "u32 \<Rightarrow> ipver \<Rightarrow> u32"
  devList :: "u32 list"
  unknownFlood :: bool
  wlanTrap :: "ipver \<Rightarrow> addr \<Rightarrow> u32 option"
  floodFlowDelete :: "flow \<Rightarrow> bool"
  IGMP_MAX_DEV_NUM :: nat
  umc_cycle :: u32
  fJiffies :: u32

definition IGMP_MAX_FLOW_COUNT :: nat where "IGMP_MAX_FLOW_COUNT = 512"
definition IGMP_MCAST_FLOW_EXPIRE_TIME :: u32 where "IGMP_MCAST_FLOW_EXPIRE_TIME = 140"

definition flow_hash :: "flow \<Rightarrow> nat" where
  "flow_hash f = rtk_igmp_hashAlgorithm (fIpVersion f) (fGroupAddr f)"

definition set_flows :: "nat \<Rightarrow> nat \<Rightarrow> flow list \<Rightarrow> flow_db \<Rightarrow> flow_db" where
  "set_flows m h fs st = st\<lparr>flowTable := (flowTable st)(m := (flowTable st m)(h := fs))\<rparr>"

definition hw_call :: "hw_call \<Rightarrow> flow_db \<Rightarrow> flow_db" where
  "hw_call c st = st\<lparr>hwCalls := c # hwCalls st\<rparr>"

section \<open>Operations on the table\<close>

definition same_flow :: "data_info \<Rightarrow> flow \<Rightarrow> bool" where
  "same_flow d f \<longleftrightarrow> fIpVersion f = dIpVersion d \<and> addr_eq (dIpVersion d) (sourceIp d) (serverAddr f) \<and>
     addr_eq (dIpVersion d) (dGroupAddr d) (fGroupAddr f) \<and> dSport d = sport f \<and> dDport d = dport f \<and>
     vlanTag d = ingressCvlan f \<and> svlanTag d = ingressSvlan f \<and> dL4proto d = l4proto f"

definition data_hash :: "data_info \<Rightarrow> nat" where
  "data_hash d = rtk_igmp_hashAlgorithm (dIpVersion d) (dGroupAddr d)"

text \<open>Change the entry of a packet in the table.\<close>

definition upd_flow :: "nat \<Rightarrow> data_info \<Rightarrow> (flow \<Rightarrow> flow) \<Rightarrow> flow_db \<Rightarrow> flow_db" where
  "upd_flow m d g st = set_flows m (data_hash d) (update_first (same_flow d) g (flowTable st m (data_hash d))) st"

definition find_flow :: "nat \<Rightarrow> data_info \<Rightarrow> flow_db \<Rightarrow> flow option" where
  "find_flow m d st = find (same_flow d) (flowTable st m (data_hash d))"

text \<open>A flow that is found is refreshed.\<close>

definition rtk_igmp_searchMcastFlowEntry :: "nat \<Rightarrow> u32 \<Rightarrow> data_info \<Rightarrow> flow_db \<Rightarrow> flow option \<times> flow_db" where
  "rtk_igmp_searchMcastFlowEntry m now d st =
     (let st = upd_flow m d (\<lambda>f. f\<lparr>refreshTime := now\<rparr>) st in (find_flow m d st, st))"

definition rtk_igmp_linkMcastFlowEntry :: "nat \<Rightarrow> flow \<Rightarrow> flow_db \<Rightarrow> flow_db" where
  "rtk_igmp_linkMcastFlowEntry m f st =
     (let st = hw_call (HwGroupAdd (fIpVersion f) (fGroupAddr f) (ingressCvlan f) (ingressSvlan f)) st
      in set_flows m (flow_hash f) (f # flowTable st m (flow_hash f)) st)"

definition rtk_igmp_deleteMcastFlowEntry :: "nat \<Rightarrow> flow \<Rightarrow> flow_db \<Rightarrow> flow_db" where
  "rtk_igmp_deleteMcastFlowEntry m f st =
     (let st = (if hwCbAcc (multicastFwdInfo f)
                then hw_call (FlowDel (fIpVersion f) (fGroupAddr f) (serverAddr f) (ingressCvlan f) (ingressSvlan f)) st else st);
          st = hw_call (HwGroupDel (fIpVersion f) (fGroupAddr f) (ingressCvlan f) (ingressSvlan f)) st;
          st = set_flows m (flow_hash f) (remove1 f (flowTable st m (flow_hash f))) st
      in st\<lparr>flow_free := flow_free st + 1\<rparr>)"

text \<open>The flows of a module, in the order of the hash table.\<close>

definition flows_of :: "nat \<Rightarrow> flow_db \<Rightarrow> flow list" where
  "flows_of m st = concat (map (flowTable st m) [0..<IGMP_HASH_TBL_SIZE])"

definition flow_expired :: "u32 \<Rightarrow> flow \<Rightarrow> bool" where
  "flow_expired now f \<longleftrightarrow> refreshTime f + IGMP_MCAST_FLOW_EXPIRE_TIME < now"

definition oldest :: "flow \<Rightarrow> flow list \<Rightarrow> flow" where
  "oldest f fs = foldl (\<lambda>old x. if refreshTime x < refreshTime old then x else old) f fs"

definition rtk_igmp_doMcastFlowRecycle :: "nat \<Rightarrow> u32 \<Rightarrow> flow_db \<Rightarrow> flow_db" where
  "rtk_igmp_doMcastFlowRecycle m now st =
     (let old = filter (flow_expired now) (flows_of m st)
      in if old \<noteq> [] then fold (rtk_igmp_deleteMcastFlowEntry m) old st
         else case flows_of m st of [] \<Rightarrow> st | f # fs \<Rightarrow> rtk_igmp_deleteMcastFlowEntry m (oldest f fs) st)"

text \<open>The flows of the timer: a flow the hardware does not use any more is deleted, another refreshed.\<close>

definition check_flow :: "fwd_env \<Rightarrow> nat \<Rightarrow> u32 \<Rightarrow> flow \<Rightarrow> flow_db \<Rightarrow> flow_db" where
  "check_flow e m now f st =
     (if floodFlowDelete e f then rtk_igmp_deleteMcastFlowEntry m f st
      else set_flows m (flow_hash f) (update_first ((=) f) (\<lambda>f. f\<lparr>refreshTime := now\<rparr>) (flowTable st m (flow_hash f))) st)"

definition rtk_igmp_deleteUnknownFloodMacstFlow :: "fwd_env \<Rightarrow> nat \<Rightarrow> u32 \<Rightarrow> flow_db \<Rightarrow> flow_db" where
  "rtk_igmp_deleteUnknownFloodMacstFlow e m now st = fold (check_flow e m now) (flows_of m st) st"

definition snooped :: "fwd_env \<Rightarrow> flow \<Rightarrow> bool" where
  "snooped e f = list_ex (\<lambda>d. case fConf e d (fIpVersion f) of None \<Rightarrow> False | Some fc \<Rightarrow> \<not> snoopingDisable fc)
     (egressDevInfo (multicastFwdInfo f))"

definition rtk_igmp_agingMcastFlow :: "fwd_env \<Rightarrow> nat \<Rightarrow> u32 \<Rightarrow> flow_db \<Rightarrow> flow_db" where
  "rtk_igmp_agingMcastFlow e m now st =
     fold (\<lambda>f st. if flow_expired now f \<and> \<not> snooped e f then check_flow e m now f st else st) (flows_of m st) st"

definition rtk_igmp_invalidateMCastGroupFlow :: "nat \<Rightarrow> ipver \<Rightarrow> addr \<Rightarrow> flow_db \<Rightarrow> flow_db" where
  "rtk_igmp_invalidateMCastGroupFlow m v ga st =
     (if ga = Addr 0 0 0 0
      then fold (rtk_igmp_deleteMcastFlowEntry m) (filter (\<lambda>f. fIpVersion f = v) (flows_of m st)) st
      else fold (rtk_igmp_deleteMcastFlowEntry m)
        (filter (\<lambda>f. fIpVersion f = v \<and> addr_eq v (fGroupAddr f) ga) (flowTable st m (rtk_igmp_hashAlgorithm v ga))) st)"

section \<open>Recording a flow\<close>

text \<open>Enter a device, once, while there is room.\<close>

definition rtk_igmp_setEgressDevToFwdInfo :: "fwd_env \<Rightarrow> u32 \<Rightarrow> u32 list \<Rightarrow> u32 list" where
  "rtk_igmp_setEgressDevToFwdInfo e d ds =
     (if d \<in> set ds then ds else if length ds \<ge> IGMP_MAX_DEV_NUM e then ds else ds @ [d])"

text \<open>The devices of the same flow in the other bridges; the search refreshes the flow there.\<close>

fun rtk_igmp_flowCbAppendOtherBrToCb :: "fwd_env \<Rightarrow> nat \<Rightarrow> u32 \<Rightarrow> data_info \<Rightarrow> nat list \<Rightarrow> u32 list \<Rightarrow> flow_db \<Rightarrow> u32 list \<times> flow_db" where
  "rtk_igmp_flowCbAppendOtherBrToCb e m now d [] ds st = (ds, st)"
| "rtk_igmp_flowCbAppendOtherBrToCb e m now d (i # is) ds st =
     (if i = m then rtk_igmp_flowCbAppendOtherBrToCb e m now d is ds st
      else case rtk_igmp_searchMcastFlowEntry i now d st of
        (None, st) \<Rightarrow> rtk_igmp_flowCbAppendOtherBrToCb e m now d is ds st
      | (Some f, st) \<Rightarrow> rtk_igmp_flowCbAppendOtherBrToCb e m now d is
          (fold (rtk_igmp_setEgressDevToFwdInfo e) (egressDevInfo (multicastFwdInfo f)) ds) st)"

text \<open>Tell the hardware about a flow, unless the packet asks not to; then the flow is accelerated.\<close>

definition flow_to_hw :: "fwd_env \<Rightarrow> nat \<Rightarrow> u32 \<Rightarrow> data_info \<Rightarrow> flow \<Rightarrow> bool \<Rightarrow> flow_db \<Rightarrow> flow_db" where
  "flow_to_hw e m now d f cpu st =
     (if skipLearning d then st
      else case rtk_igmp_flowCbAppendOtherBrToCb e m now d (fModules e) (egressDevInfo (multicastFwdInfo f)) st of (ds, st) \<Rightarrow>
        upd_flow m d (\<lambda>f. f\<lparr>multicastFwdInfo := (multicastFwdInfo f)\<lparr>hwCbAcc := True\<rparr>\<rparr>)
          (hw_call (FlowSet (fIpVersion f) (fGroupAddr f) (serverAddr f) ds (ingressCvlan f) (ingressSvlan f) cpu) st))"

definition no_address :: "data_info \<Rightarrow> bool" where
  "no_address d = (case dIpVersion d of
     IP_VERSION4 \<Rightarrow> a0 (sourceIp d) = 0 \<or> a0 (dGroupAddr d) = 0
   | IP_VERSION6 \<Rightarrow> sourceIp d = Addr 0 0 0 0 \<or> dGroupAddr d = Addr 0 0 0 0)"

definition flow_addr :: "ipver \<Rightarrow> addr \<Rightarrow> addr" where
  "flow_addr v a = (case v of IP_VERSION4 \<Rightarrow> Addr (a0 a) 0 0 0 | IP_VERSION6 \<Rightarrow> a)"

definition new_flow :: "u32 \<Rightarrow> data_info \<Rightarrow> fwd_info \<Rightarrow> flow" where
  "new_flow now d fwd = \<lparr>fIpVersion = dIpVersion d, serverAddr = flow_addr (dIpVersion d) (sourceIp d),
     fGroupAddr = flow_addr (dIpVersion d) (dGroupAddr d), sport = dSport d, dport = dDport d, ingressCvlan = vlanTag d,
     ingressSvlan = svlanTag d, l4proto = dL4proto d, multicastFwdInfo = fwd, refreshTime = now, fwdPktCnt = 1, defineFwdPktCnt = 0\<rparr>"

definition rtk_igmp_recordMcastFlow :: "fwd_env \<Rightarrow> nat \<Rightarrow> u32 \<Rightarrow> data_info \<Rightarrow> fwd_info \<Rightarrow> flow_db \<Rightarrow> flow_db" where
  "rtk_igmp_recordMcastFlow e m now d fwd st =
     (if no_address d then st
      else case rtk_igmp_searchMcastFlowEntry m now d st of
        (None, st) \<Rightarrow>
          if egressDevInfo fwd = [] then st
          else let st = (if flow_free st = 0 then rtk_igmp_doMcastFlowRecycle m now st else st)
            in if flow_free st = 0 then st
               else let f = new_flow now d fwd
                 in flow_to_hw e m now d f (copy2cpu fwd) (rtk_igmp_linkMcastFlowEntry m f (st\<lparr>flow_free := flow_free st - 1\<rparr>))
      | (Some f, st) \<Rightarrow>
          if egressDevInfo fwd = [] then rtk_igmp_deleteMcastFlowEntry m f st
          else let st = upd_flow m d (\<lambda>f. f\<lparr>refreshTime := now, fwdPktCnt := fwdPktCnt f + 1\<rparr>) st
            in if egressDevInfo (multicastFwdInfo f) = egressDevInfo fwd \<and> copy2cpu (multicastFwdInfo f) = copy2cpu fwd then st
               else flow_to_hw e m now d (f\<lparr>multicastFwdInfo := fwd\<rparr>) (copy2cpu fwd)
                      (upd_flow m d (\<lambda>f. f\<lparr>multicastFwdInfo := fwd\<rparr>) st))"

section \<open>The forwarding decision\<close>

definition rtk_igmp_anyDevRateLimitUMC :: "fwd_env \<Rightarrow> ipver \<Rightarrow> bool" where
  "rtk_igmp_anyDevRateLimitUMC e v \<longleftrightarrow> unknownFlood e \<or> list_ex (\<lambda>d. umcRate e d v \<noteq> 0) (devList e)"

abbreviation umc_limited :: "fwd_env \<Rightarrow> bool" where
  "umc_limited e \<equiv> rtk_igmp_anyDevRateLimitUMC e IP_VERSION4 \<or> rtk_igmp_anyDevRateLimitUMC e IP_VERSION6"

text \<open>Devices with snooping switched off get everything.\<close>

definition flood_unsnooped :: "fwd_env \<Rightarrow> nat \<Rightarrow> ipver \<Rightarrow> u32 list \<Rightarrow> u32 list" where
  "flood_unsnooped e m v ds = fold (\<lambda>d ds. case fConf e d v of
       None \<Rightarrow> ds
     | Some fc \<Rightarrow> if snoopingDisable fc \<and> \<not> forwardDisable fc then rtk_igmp_setEgressDevToFwdInfo e d ds else ds) (port_list e m) ds"

definition check_rate_limit_umc :: "fwd_env \<Rightarrow> u32 \<Rightarrow> ipver \<Rightarrow> flow_db \<Rightarrow> bool \<times> flow_db" where
  "check_rate_limit_umc e d v st =
     (case check_rate_limit (umc_cycle e) (umcRate e d v) (fJiffies e) (umcLimits st d v) of (ok, rl) \<Rightarrow>
        (ok, st\<lparr>umcLimits := (umcLimits st)(d := (umcLimits st d)(v := rl))\<rparr>))"

text \<open>
  An unknown group is flooded to the ports of the bridge, up to the first port that is over its rate.
\<close>

fun flood_unknown :: "fwd_env \<Rightarrow> u32 list \<Rightarrow> data_info \<Rightarrow> u32 list \<Rightarrow> flow_db \<Rightarrow> (bool \<times> data_info \<times> u32 list) \<times> flow_db" where
  "flood_unknown e [] d ds st = ((True, d, ds), st)"
| "flood_unknown e (p # ps) d ds st = (case fConf e p (dIpVersion d) of
     None \<Rightarrow> flood_unknown e ps d ds st
   | Some fc \<Rightarrow>
       if forwardDisable fc then flood_unknown e ps d ds st
       else if umcRate e p (dIpVersion d) = 0 then flood_unknown e ps d (rtk_igmp_setEgressDevToFwdInfo e p ds) st
       else let d = (if umc_limited e then d\<lparr>skipLearning := True\<rparr> else d) in
         case check_rate_limit_umc e p (dIpVersion d) st of
           (False, st) \<Rightarrow> ((False, d, ds), st)
         | (True, st) \<Rightarrow> flood_unknown e ps d (rtk_igmp_setEgressDevToFwdInfo e p ds) st)"

definition flood_members :: "fwd_env \<Rightarrow> igmpdb \<Rightarrow> data_info \<Rightarrow> groupEntry \<Rightarrow> u32 list \<Rightarrow> u32 list" where
  "flood_members e db d g ds = fold (\<lambda>c ds. case fConf e (inIfidx c) (dIpVersion d) of
       None \<Rightarrow> ds
     | Some fc \<Rightarrow>
         if \<not> forwardDisable fc \<and> \<not> snoopingDisable fc \<and> client_wants (careSource fc) (ipVersion g) (sourceIp d) (sysUpSeconds db) c
         then rtk_igmp_setEgressDevToFwdInfo e (inIfidx c) ds else ds) (clientList g) ds"

text \<open>The devices that get the packet whether or not the group is known.\<close>

definition base_egress :: "fwd_env \<Rightarrow> nat \<Rightarrow> data_info \<Rightarrow> u32 list" where
  "base_egress e m d =
     (let ds = flood_unsnooped e m (dIpVersion d) []
      in case wlanTrap e (dIpVersion d) (flow_addr (dIpVersion d) (dGroupAddr d)) of None \<Rightarrow> ds | Some w \<Rightarrow> rtk_igmp_setEgressDevToFwdInfo e w ds)"

text \<open>
  The decision behind \<open>SKIP_CACHE\<close>; it ends by recording the flow.  The packet is returned, as flooding
  may mark it.
\<close>

type_synonym fwd_result = "(bool \<times> fwd_info \<times> data_info) \<times> flow_db"

definition decide_fwd :: "fwd_env \<Rightarrow> igmpdb \<Rightarrow> nat \<Rightarrow> bool \<Rightarrow> data_info \<Rightarrow> flow_db \<Rightarrow> fwd_result" where
  "decide_fwd e db m cpu d st =
     (let now = sysUpSeconds db;
          fwd = fwd_zero\<lparr>copy2cpu := cpu, egressDevInfo := base_egress e m d\<rparr>
      in case rtk_igmp_searchGroupEntry db m (dIpVersion d) (dGroupAddr d) of
           Some g \<Rightarrow>
             let fwd = fwd\<lparr>egressDevInfo := flood_members e db d g (egressDevInfo fwd)\<rparr>
             in ((True, fwd, d), rtk_igmp_recordMcastFlow e m now d fwd st)
         | None \<Rightarrow>
             if \<not> unknownFlood e then ((True, fwd, d), rtk_igmp_recordMcastFlow e m now d fwd st)
             else case flood_unknown e (port_list e m) d (egressDevInfo fwd) st of
               ((False, d, ds), st) \<Rightarrow> ((False, fwd\<lparr>egressDevInfo := ds, dropPkt := True\<rparr>, d), st)
             | ((True, d, ds), st) \<Rightarrow>
                 let fwd = fwd\<lparr>egressDevInfo := ds, unknownMCast := True\<rparr>
                 in ((True, fwd, d), rtk_igmp_recordMcastFlow e m now d fwd st))"

text \<open>The answer of a cached flow.\<close>

definition cached_fwd :: "fwd_env \<Rightarrow> nat \<Rightarrow> u32 \<Rightarrow> bool \<Rightarrow> data_info \<Rightarrow> flow \<Rightarrow> flow_db \<Rightarrow> fwd_result" where
  "cached_fwd e m now cpu d f st =
     (let fwd = multicastFwdInfo f;
          fwd = (if cpu then fwd\<lparr>copy2cpu := True\<rparr> else fwd);
          st = upd_flow m d (\<lambda>f. f\<lparr>fwdPktCnt := fwdPktCnt f + 1, defineFwdPktCnt := defineFwdPktCnt f + (if dummyPkt d then 1 else 0)\<rparr>) st
      in ((True, fwd, d), if hwCbAcc (multicastFwdInfo f) then st else flow_to_hw e m now d f (copy2cpu fwd) st))"

definition getMulticastDataFwdInfo :: "fwd_env \<Rightarrow> igmpdb \<Rightarrow> nat \<Rightarrow> bool \<Rightarrow> data_info \<Rightarrow> flow_db \<Rightarrow> fwd_result" where
  "getMulticastDataFwdInfo e db m cache d st =
     (let now = sysUpSeconds db; grp2cpu = rtk_igmp_checkGroupToPsTbl (fResv e) (dIpVersion d) (dGroupAddr d);
          cpu = (case grp2cpu of None \<Rightarrow> False | Some r \<Rightarrow> isCopy2cpu r)
      in if grp2cpu \<noteq> None \<and> \<not> cpu then ((False, fwd_zero\<lparr>cpuFlag := True, reservedMCast := True\<rparr>, d), st)
         else if \<not> cache then decide_fwd e db m cpu d st
         else case rtk_igmp_searchMcastFlowEntry m now d st of
           (None, st) \<Rightarrow> decide_fwd e db m cpu d st
         | (Some f, st) \<Rightarrow>
             if unknownFlood e \<and> unknownMCast (multicastFwdInfo f) \<and> umc_limited e then decide_fwd e db m cpu d st
             else cached_fwd e m now cpu d f st)"

text \<open>Bridges with the same identifier answer together, up to the first that fails.\<close>

fun combine_fwd :: "fwd_env \<Rightarrow> igmpdb \<Rightarrow> bool \<Rightarrow> data_info \<Rightarrow> nat list \<Rightarrow> bool \<Rightarrow> fwd_info \<Rightarrow> flow_db \<Rightarrow> fwd_result" where
  "combine_fwd e db cache d [] ret fwd st = ((ret, fwd, d), st)"
| "combine_fwd e db cache d (i # is) ret fwd st =
     (case getMulticastDataFwdInfo e db i cache d st of ((ret, t, d), st) \<Rightarrow>
        let fwd = fwd\<lparr>cpuFlag := cpuFlag fwd \<or> cpuFlag t, unknownMCast := unknownMCast fwd \<or> unknownMCast t,
              reservedMCast := reservedMCast fwd \<or> reservedMCast t, copy2cpu := copy2cpu fwd \<or> copy2cpu t\<rparr>
        in if \<not> ret then ((ret, fwd, d), st)
           else combine_fwd e db cache d is ret
             (fwd\<lparr>egressDevInfo := fold (rtk_igmp_setEgressDevToFwdInfo e) (egressDevInfo t) (egressDevInfo fwd)\<rparr>) st)"

definition rtk_igmp_getMulticastDataFwdInfo :: "fwd_env \<Rightarrow> igmpdb \<Rightarrow> nat \<Rightarrow> bool \<Rightarrow> data_info \<Rightarrow> flow_db \<Rightarrow> fwd_result" where
  "rtk_igmp_getMulticastDataFwdInfo e db m cache d st =
     (case (if combineId e m = 0 then getMulticastDataFwdInfo e db m cache d st
            else combine_fwd e db cache d (filter (\<lambda>i. combineId e i = combineId e m) (fModules e)) False fwd_zero st) of
        ((ret, fwd, d), st) \<Rightarrow> ((ret, if egressDevInfo fwd = [] then fwd\<lparr>dropPkt := True\<rparr> else fwd, d), st))"

section \<open>Refreshing the cache\<close>

definition data_of :: "flow \<Rightarrow> data_info" where
  "data_of f = \<lparr>dIpVersion = fIpVersion f, sourceIp = serverAddr f, dGroupAddr = fGroupAddr f, dSport = sport f, dDport = dport f,
     vlanTag = ingressCvlan f, svlanTag = ingressSvlan f, dL4proto = l4proto f, skipLearning = False, dummyPkt = False\<rparr>"

definition rtk_igmp_otherModuleHasSameGroup :: "fwd_env \<Rightarrow> igmpdb \<Rightarrow> nat \<Rightarrow> ipver \<Rightarrow> addr \<Rightarrow> bool" where
  "rtk_igmp_otherModuleHasSameGroup e db m v ga = list_ex (\<lambda>i. i \<noteq> m \<and> rtk_igmp_searchGroupEntry db i v ga \<noteq> None) (fModules e)"

text \<open>
  One flow of the walk over a bucket.  The pointer to the next flow was read before the decision,
  which may delete this flow; a deleted flow is cleared, so that no update is sent for it.  With
  combined bridges the decision may also take entries of the pool, and the walk may meet an entry
  that was given up: \<open>freedVisit\<close> records both.
\<close>

definition reflush_flow :: "fwd_env \<Rightarrow> igmpdb \<Rightarrow> nat \<Rightarrow> addr option \<Rightarrow> flow \<Rightarrow> flow_db \<Rightarrow> flow_db" where
  "reflush_flow e db m ga f st =
     (if find_flow m (data_of f) st = None then st\<lparr>freedVisit := True\<rparr>
      else if ga \<noteq> None \<and> ga \<noteq> Some (fGroupAddr f) then st
      else let st = snd (rtk_igmp_getMulticastDataFwdInfo e db m False (data_of f) st)
        in case find_flow m (data_of f) st of
             None \<Rightarrow> if combineId e m \<noteq> 0 then st\<lparr>freedVisit := True\<rparr> else st
           | Some f' \<Rightarrow>
               if rtk_igmp_otherModuleHasSameGroup e db m (fIpVersion f') (fGroupAddr f') \<and> hwCbAcc (multicastFwdInfo f')
               then hw_call (FlowUpdate (fIpVersion f') (fGroupAddr f') (serverAddr f') (egressDevInfo (multicastFwdInfo f'))
                 (ingressCvlan f') (ingressSvlan f')) st
               else st)"

definition reflush_bucket :: "fwd_env \<Rightarrow> igmpdb \<Rightarrow> nat \<Rightarrow> addr option \<Rightarrow> nat \<Rightarrow> flow_db \<Rightarrow> flow_db" where
  "reflush_bucket e db m ga h st = fold (reflush_flow e db m ga) (flowTable st m h) st"

text \<open>One module, or all; one group, or all.\<close>

definition rtk_igmp_flow_reflush_update :: "fwd_env \<Rightarrow> igmpdb \<Rightarrow> nat option \<Rightarrow> addr option \<Rightarrow> flow_db \<Rightarrow> flow_db" where
  "rtk_igmp_flow_reflush_update e db mo ga st =
     fold (\<lambda>m st. fold (reflush_bucket e db m ga) [0..<IGMP_HASH_TBL_SIZE] st)
       (case mo of None \<Rightarrow> fModules e | Some m \<Rightarrow> filter ((=) m) (fModules e)) st"

end
