(* ===== verification/Igmp_Flow_Props.thy ===== *)
theory Igmp_Flow_Props
  imports Igmp_Flow Igmp_Tick
begin

text \<open>
  Properties of the flow cache: every entry of its pool is free or linked once, and after a refresh
  the cache answers as the decision without it.
\<close>

section \<open>Keys and buckets\<close>

definition data_key :: "data_info \<Rightarrow> ipver \<times> addr \<times> addr \<times> u32 \<times> u32 \<times> u16 option \<times> u16 option \<times> u16" where
  "data_key d = (dIpVersion d, norm_addr (dIpVersion d) (sourceIp d), norm_addr (dIpVersion d) (dGroupAddr d), dSport d, dDport d,
     vlanTag d, svlanTag d, dL4proto d)"

abbreviation flow_key :: "flow \<Rightarrow> ipver \<times> addr \<times> addr \<times> u32 \<times> u32 \<times> u16 option \<times> u16 option \<times> u16" where
  "flow_key f \<equiv> data_key (data_of f)"

lemma data_of_simps [simp]:
  "dIpVersion (data_of f) = fIpVersion f" "sourceIp (data_of f) = serverAddr f" "dGroupAddr (data_of f) = fGroupAddr f"
  "dSport (data_of f) = sport f" "dDport (data_of f) = dport f" "vlanTag (data_of f) = ingressCvlan f"
  "svlanTag (data_of f) = ingressSvlan f" "dL4proto (data_of f) = l4proto f" "\<not> skipLearning (data_of f)" "\<not> dummyPkt (data_of f)"
  by (simp_all add: data_of_def)

lemma same_flow_key: "same_flow d f \<longleftrightarrow> flow_key f = data_key d"
  by (auto simp: same_flow_def data_key_def addr_eq_norm)

lemma data_hash_key:
  assumes "data_key d = data_key d'"
  shows "data_hash d = data_hash d'"
proof -
  have v: "dIpVersion d = dIpVersion d'" using assms by (simp add: data_key_def)
  then have "norm_addr (dIpVersion d') (dGroupAddr d) = norm_addr (dIpVersion d') (dGroupAddr d')" using assms by (simp add: data_key_def)
  from hash_norm [OF this] show ?thesis by (simp add: data_hash_def v)
qed

lemma flow_hash_data: "flow_hash f = data_hash (data_of f)"
  by (simp add: flow_hash_def data_hash_def)

lemma data_hash_bound: "data_hash d < IGMP_HASH_TBL_SIZE"
  by (simp add: data_hash_def hash_bound)

text \<open>Addresses of the shape the cache stores.\<close>

definition plain :: "data_info \<Rightarrow> bool" where
  "plain d \<longleftrightarrow> norm_addr (dIpVersion d) (sourceIp d) = sourceIp d \<and> norm_addr (dIpVersion d) (dGroupAddr d) = dGroupAddr d"

definition flows_ok :: "nat \<Rightarrow> flow list \<Rightarrow> bool" where
  "flows_ok h fs \<longleftrightarrow> distinct (map flow_key fs) \<and> (\<forall>f\<in>set fs. flow_hash f = h \<and> plain (data_of f) \<and> \<not> no_address (data_of f))"

definition flow_count :: "nat list \<Rightarrow> flow_db \<Rightarrow> nat" where
  "flow_count ms st = (\<Sum>(m, h)\<leftarrow>List.product ms [0..<IGMP_HASH_TBL_SIZE]. length (flowTable st m h))"

definition flow_ok :: "nat list \<Rightarrow> flow_db \<Rightarrow> bool" where
  "flow_ok ms st \<longleftrightarrow> distinct ms \<and> (\<forall>m h. flows_ok h (flowTable st m h)) \<and> flow_free st + flow_count ms st = IGMP_MAX_FLOW_COUNT"

lemma flow_ok_bucket: "flow_ok ms st \<Longrightarrow> flows_ok h (flowTable st m h)"
  by (simp add: flow_ok_def)

lemma flow_ok_replace:
  assumes ok: "flow_ok ms st" and m: "m \<in> set ms" and h: "h < IGMP_HASH_TBL_SIZE" and fs: "flows_ok h fs"
    and t: "flowTable st' = flowTable (set_flows m h fs st)" and n: "flow_free st' + length fs = flow_free st + length (flowTable st m h)"
  shows "flow_ok ms st'"
proof -
  have "distinct (List.product ms [0..<IGMP_HASH_TBL_SIZE])" using ok by (intro distinct_product) (auto simp: flow_ok_def)
  moreover have "(m, h) \<in> set (List.product ms [0..<IGMP_HASH_TBL_SIZE])" using m h by simp
  ultimately have "(\<Sum>x\<leftarrow>List.product ms [0..<IGMP_HASH_TBL_SIZE]. (\<lambda>(m, h). length (flowTable st' m h)) x) + (\<lambda>(m, h). length (flowTable st m h)) (m, h) =
      (\<Sum>x\<leftarrow>List.product ms [0..<IGMP_HASH_TBL_SIZE]. (\<lambda>(m, h). length (flowTable st m h)) x) + (\<lambda>(m, h). length (flowTable st' m h)) (m, h)"
    by (rule sum_list_upd) (auto simp: t set_flows_def split: if_splits)
  then have "flow_count ms st' + length (flowTable st m h) = flow_count ms st + length fs"
    by (simp add: flow_count_def t set_flows_def)
  then show ?thesis using ok n fs by (auto simp: flow_ok_def t set_flows_def)
qed

lemma flow_ok_frame: "flow_ok ms st \<Longrightarrow> flowTable st' = flowTable st \<Longrightarrow> flow_free st' = flow_free st \<Longrightarrow> flow_ok ms st'"
  by (simp add: flow_ok_def flow_count_def)

lemma hw_call_frame [simp]:
  "flowTable (hw_call c st) = flowTable st" "flow_free (hw_call c st) = flow_free st" "umcLimits (hw_call c st) = umcLimits st"
  by (simp_all add: hw_call_def)

lemma find_flow_key: "find_flow m d st = find (\<lambda>f. flow_key f = data_key d) (flowTable st m (data_hash d))"
proof -
  have "same_flow d = (\<lambda>f. flow_key f = data_key d)" by (simp add: fun_eq_iff same_flow_key)
  then show ?thesis by (simp add: find_flow_def)
qed

lemma find_flow_cong: "data_key d = data_key d' \<Longrightarrow> find_flow m d st = find_flow m d' st"
  using data_hash_key [of d d'] by (simp add: find_flow_key)

lemma find_flow_SomeD:
  assumes "find_flow m d st = Some f"
  shows "f \<in> set (flowTable st m (data_hash d))" "flow_key f = data_key d"
  using assms by (auto simp: find_flow_key find_Some_iff)

lemma find_flow_linked:
  assumes "flow_ok ms st" "f \<in> set (flowTable st m h)"
  shows "find_flow m (data_of f) st = Some f"
  using assms(2) flow_ok_bucket [OF assms(1), of h m] find_key [of flow_key "flowTable st m h" f]
  unfolding find_flow_key by (auto simp: flows_ok_def flow_hash_data)

section \<open>Changing and deleting entries\<close>

text \<open>Changes that keep what identifies a flow.\<close>

definition keeps_key :: "(flow \<Rightarrow> flow) \<Rightarrow> bool" where
  "keeps_key g \<longleftrightarrow> (\<forall>f. data_of (g f) = data_of f)"

lemma flows_ok_update:
  assumes "flows_ok h fs" "keeps_key g"
  shows "flows_ok h (update_first P g fs)"
proof -
  have "map flow_key (update_first P g fs) = map flow_key fs" using assms(2) by (intro map_update_first) (simp add: keeps_key_def)
  moreover have "flow_hash f = h \<and> plain (data_of f) \<and> \<not> no_address (data_of f)" if "f \<in> set (update_first P g fs)" for f
    using set_update_first [OF that] assms by (auto simp: flows_ok_def keeps_key_def flow_hash_data)
  ultimately show ?thesis using assms(1) unfolding flows_ok_def by simp
qed

lemma upd_flow_ok:
  assumes "flow_ok ms st" "m \<in> set ms" "keeps_key g"
  shows "flow_ok ms (upd_flow m d g st)"
  by (rule flow_ok_replace [OF assms(1,2) data_hash_bound flows_ok_update [OF flow_ok_bucket [OF assms(1)] assms(3)]])
    (simp_all add: upd_flow_def set_flows_def)

lemma delete_flow_tables:
  "flowTable (rtk_igmp_deleteMcastFlowEntry m f st) = flowTable (set_flows m (flow_hash f) (remove1 f (flowTable st m (flow_hash f))) st)"
  "flow_free (rtk_igmp_deleteMcastFlowEntry m f st) = flow_free st + 1"
  by (simp_all add: rtk_igmp_deleteMcastFlowEntry_def Let_def set_flows_def)

lemma distinct_map_remove1: "distinct (map k xs) \<Longrightarrow> distinct (map k (remove1 x xs))"
  by (induction xs) (auto dest: notin_set_remove1 simp: image_iff)

lemma delete_flow_ok:
  assumes ok: "flow_ok ms st" and m: "m \<in> set ms" and f: "f \<in> set (flowTable st m (flow_hash f))"
  shows "flow_ok ms (rtk_igmp_deleteMcastFlowEntry m f st)"
proof -
  let ?fs = "flowTable st m (flow_hash f)"
  have "flows_ok (flow_hash f) (remove1 f ?fs)"
    using flow_ok_bucket [OF ok, of "flow_hash f" m] by (auto simp: flows_ok_def distinct_map_remove1 dest: notin_set_remove1)
  then show ?thesis
    by (intro flow_ok_replace [OF ok m _ _ delete_flow_tables(1)])
      (use f length_pos_if_in_set [OF f] in \<open>auto simp: flow_hash_data data_hash_bound delete_flow_tables length_remove1\<close>)
qed

lemma flows_of_linked:
  assumes "flow_ok ms st"
  shows "distinct (flows_of m st)" "f \<in> set (flows_of m st) \<longleftrightarrow> f \<in> set (flowTable st m (flow_hash f))"
proof -
  have b: "f \<in> set (flowTable st m h) \<Longrightarrow> flow_hash f = h" for h f using flow_ok_bucket [OF assms, of h m] by (auto simp: flows_ok_def)
  have "f \<in> set (flows_of m st) \<longleftrightarrow> (\<exists>h<IGMP_HASH_TBL_SIZE. f \<in> set (flowTable st m h))" by (auto simp: flows_of_def)
  then show "f \<in> set (flows_of m st) \<longleftrightarrow> f \<in> set (flowTable st m (flow_hash f))"
    using b [of f] data_hash_bound [of "data_of f"] flow_hash_data [of f] by metis
  have "distinct (concat (map (flowTable st m) hs))" if "distinct hs" for hs
    using that
  proof (induction hs)
    case (Cons h hs)
    have "distinct (flowTable st m h)" using flow_ok_bucket [OF assms, of h m] by (auto simp: flows_ok_def distinct_map)
    moreover have "set (flowTable st m h) \<inter> set (concat (map (flowTable st m) hs)) = {}" using Cons.prems b by (simp add: disjoint_iff) metis
    ultimately show ?case using Cons by simp
  qed simp
  then show "distinct (flows_of m st)" by (simp add: flows_of_def)
qed

text \<open>Work on a list of linked flows that touches each of them once.\<close>

lemma fold_flows_inv:
  assumes step: "\<And>f st. I st \<Longrightarrow> f \<in> set (flowTable st m (flow_hash f)) \<Longrightarrow> I (step f st)"
    and frame: "\<And>f g st. g \<noteq> f \<Longrightarrow> g \<in> set (flowTable st m (flow_hash g)) \<Longrightarrow> g \<in> set (flowTable (step f st) m (flow_hash g))"
  shows "I st \<Longrightarrow> distinct fs \<Longrightarrow> (\<And>f. f \<in> set fs \<Longrightarrow> f \<in> set (flowTable st m (flow_hash f))) \<Longrightarrow> I (fold step fs st)"
proof (induction fs arbitrary: st)
  case (Cons f fs)
  have "I (step f st)" using step [OF Cons.prems(1)] Cons.prems(3) by simp
  moreover have "g \<in> set (flowTable (step f st) m (flow_hash g))" if "g \<in> set fs" for g
    using that Cons.prems(2,3) frame by (metis distinct.simps(2) list.set_intros(2))
  ultimately show ?case using Cons.IH [of "step f st"] Cons.prems(2) by simp
qed simp

lemma delete_flow_frame:
  "g \<noteq> f \<Longrightarrow> g \<in> set (flowTable st m (flow_hash g)) \<Longrightarrow> g \<in> set (flowTable (rtk_igmp_deleteMcastFlowEntry m f st) m (flow_hash g))"
  by (auto simp: delete_flow_tables set_flows_def in_set_remove1)

lemma delete_flows_ok:
  assumes "flow_ok ms st" "m \<in> set ms" "distinct fs" "\<And>f. f \<in> set fs \<Longrightarrow> f \<in> set (flowTable st m (flow_hash f))"
  shows "flow_ok ms (fold (rtk_igmp_deleteMcastFlowEntry m) fs st)"
  using assms by (intro fold_flows_inv [where m = m and I = "flow_ok ms"] delete_flow_ok delete_flow_frame)

lemma check_flow_ok:
  assumes "flow_ok ms st" "m \<in> set ms" "f \<in> set (flowTable st m (flow_hash f))"
  shows "flow_ok ms (check_flow e m now f st)"
proof -
  have "keeps_key (\<lambda>f. f\<lparr>refreshTime := now\<rparr>)" by (simp add: keeps_key_def data_of_def)
  then have "flow_ok ms (set_flows m (flow_hash f) (update_first ((=) f) (\<lambda>f. f\<lparr>refreshTime := now\<rparr>) (flowTable st m (flow_hash f))) st)"
    by (intro flow_ok_replace [OF assms(1,2) _ flows_ok_update [OF flow_ok_bucket [OF assms(1)]] refl])
      (simp_all add: flow_hash_data data_hash_bound set_flows_def)
  then show ?thesis using delete_flow_ok [OF assms] by (simp add: check_flow_def)
qed

lemma update_eq_frame: "g \<noteq> f \<Longrightarrow> g \<in> set fs \<Longrightarrow> g \<in> set (update_first ((=) f) h fs)"
  by (induction fs) auto

lemma check_flow_frame:
  "g \<noteq> f \<Longrightarrow> g \<in> set (flowTable st m (flow_hash g)) \<Longrightarrow> g \<in> set (flowTable (check_flow e m now f st) m (flow_hash g))"
  using delete_flow_frame by (auto simp: check_flow_def set_flows_def update_eq_frame)

lemma aging_ok:
  assumes "flow_ok ms st" "m \<in> set ms"
  shows "flow_ok ms (rtk_igmp_agingMcastFlow e m now st)" "flow_ok ms (rtk_igmp_deleteUnknownFloodMacstFlow e m now st)"
  unfolding rtk_igmp_agingMcastFlow_def rtk_igmp_deleteUnknownFloodMacstFlow_def
  using assms flows_of_linked [OF assms(1), where m = m] check_flow_frame
  by (auto intro!: fold_flows_inv [where m = m and I = "flow_ok ms"] check_flow_ok)

lemma invalidate_ok:
  assumes "flow_ok ms st" "m \<in> set ms"
  shows "flow_ok ms (rtk_igmp_invalidateMCastGroupFlow m v ga st)"
proof -
  have b: "distinct (flowTable st m h)" "f \<in> set (flowTable st m h) \<Longrightarrow> flow_hash f = h" for h f
    using flow_ok_bucket [OF assms(1), of h m] by (auto simp: flows_ok_def distinct_map)
  show ?thesis unfolding rtk_igmp_invalidateMCastGroupFlow_def
    using assms flows_of_linked [OF assms(1), where m = m] b by (auto intro!: delete_flows_ok)
qed

lemma oldest_in: "oldest f fs \<in> set (f # fs)"
proof -
  have "foldl (\<lambda>old x. if refreshTime x < refreshTime old then x else old) g fs \<in> insert g (set fs)" for g
    by (induction fs arbitrary: g) auto
  then show ?thesis by (simp add: oldest_def)
qed

lemma recycle_ok:
  assumes "flow_ok ms st" "m \<in> set ms"
  shows "flow_ok ms (rtk_igmp_doMcastFlowRecycle m now st)"
proof -
  have "flow_ok ms (fold (rtk_igmp_deleteMcastFlowEntry m) (filter P (flows_of m st)) st)" for P
    by (rule delete_flows_ok [OF assms]) (simp_all add: flows_of_linked [OF assms(1)])
  moreover have "flow_ok ms (rtk_igmp_deleteMcastFlowEntry m (oldest f fs) st)" if "flows_of m st = f # fs" for f fs
    using delete_flow_ok [OF assms] flows_of_linked(2) [OF assms(1), where f = "oldest f fs" and m = m] oldest_in [of f fs] that by simp
  ultimately show ?thesis using assms(1) by (simp add: rtk_igmp_doMcastFlowRecycle_def Let_def split: list.split)
qed

section \<open>What the cache answers\<close>

text \<open>
  The cache as a map: the devices of the flow of a packet and whether the CPU gets a copy.
\<close>

definition answer :: "flow \<Rightarrow> u32 list \<times> bool" where
  "answer f = (egressDevInfo (multicastFwdInfo f), copy2cpu (multicastFwdInfo f))"

definition look :: "nat \<Rightarrow> data_info \<Rightarrow> flow_db \<Rightarrow> (u32 list \<times> bool) option" where
  "look m d st = map_option answer (find_flow m d st)"

lemma look_cong: "data_key d = data_key d' \<Longrightarrow> look m d st = look m d' st"
  using find_flow_cong [of d d' m st] by (simp add: look_def)

lemma look_frame: "flowTable st' = flowTable st \<Longrightarrow> look m d st' = look m d st"
  by (simp add: look_def find_flow_def)

lemma find_upd_first: "(\<And>x. P (g x) = P x) \<Longrightarrow> find P (update_first P g xs) = map_option g (find P xs)"
  by (induction xs) auto

lemma find_upd_other: "(\<And>x. P x \<Longrightarrow> \<not> Q x) \<Longrightarrow> (\<And>x. Q (g x) = Q x) \<Longrightarrow> find Q (update_first P g xs) = find Q xs"
  by (induction xs) auto

lemma find_upd_flow:
  assumes "keeps_key g"
  shows "find_flow m' d' (upd_flow m d g st) =
    (if m' = m \<and> data_key d' = data_key d then map_option g (find_flow m d st) else find_flow m' d' st)"
proof (cases "m' = m \<and> data_hash d' = data_hash d")
  case same: True
  have key: "flow_key (g f) = flow_key f" for f using assms by (simp add: keeps_key_def)
  have p: "same_flow d = (\<lambda>f. flow_key f = data_key d)" by (simp add: fun_eq_iff same_flow_key)
  show ?thesis
  proof (cases "data_key d' = data_key d")
    case True
    then show ?thesis using same by (simp add: find_flow_key upd_flow_def set_flows_def p find_upd_first key)
  next
    case False
    have "find (\<lambda>f. flow_key f = data_key d') (update_first (\<lambda>f. flow_key f = data_key d) g fs) = find (\<lambda>f. flow_key f = data_key d') fs" for fs
      by (rule find_upd_other) (use False key in auto)
    then show ?thesis using same False by (simp add: find_flow_key upd_flow_def set_flows_def p)
  qed
next
  case False
  then show ?thesis using data_hash_key [of d' d] by (auto simp: find_flow_key upd_flow_def set_flows_def)
qed

lemma find_remove1_other: "\<not> P x \<Longrightarrow> find P (remove1 x xs) = find P xs"
  by (induction xs) auto

lemma find_remove1_same: "distinct (map k xs) \<Longrightarrow> x \<in> set xs \<Longrightarrow> find (\<lambda>y. k y = k x) (remove1 x xs) = None"
  by (induction xs) (auto simp: find_None_iff, metis image_eqI)

lemma find_delete_flow:
  assumes ok: "flow_ok ms st" and f: "f \<in> set (flowTable st m (flow_hash f))"
  shows "find_flow m' d' (rtk_igmp_deleteMcastFlowEntry m f st) =
    (if m' = m \<and> data_key d' = flow_key f then None else find_flow m' d' st)"
proof -
  have d: "distinct (map flow_key (flowTable st m (flow_hash f)))" using flow_ok_bucket [OF ok, of "flow_hash f" m] by (simp add: flows_ok_def)
  show ?thesis
  proof (cases "data_key d' = flow_key f")
    case True
    then show ?thesis using data_hash_key [OF True] find_remove1_same [OF d f]
      by (auto simp: find_flow_key delete_flow_tables set_flows_def flow_hash_data)
  next
    case False
    then show ?thesis
      using find_remove1_other [of "\<lambda>g. flow_key g = data_key d'" f] by (auto simp: find_flow_key delete_flow_tables set_flows_def)
  qed
qed

lemma find_link_flow:
  "find_flow m' d' (rtk_igmp_linkMcastFlowEntry m f st) =
    (if m' = m \<and> data_key d' = flow_key f then Some f else find_flow m' d' st)"
proof (cases "data_key d' = flow_key f")
  case True
  then show ?thesis using data_hash_key [OF True] by (auto simp: find_flow_key rtk_igmp_linkMcastFlowEntry_def set_flows_def flow_hash_data Let_def)
qed (auto simp: find_flow_key rtk_igmp_linkMcastFlowEntry_def set_flows_def Let_def)

lemma freed_frame [simp]:
  "freedVisit (hw_call c st) = freedVisit st" "freedVisit (upd_flow m d g st) = freedVisit st"
  "freedVisit (rtk_igmp_deleteMcastFlowEntry m f st) = freedVisit st" "freedVisit (rtk_igmp_linkMcastFlowEntry m f st) = freedVisit st"
  by (simp_all add: hw_call_def upd_flow_def set_flows_def rtk_igmp_deleteMcastFlowEntry_def rtk_igmp_linkMcastFlowEntry_def Let_def)

text \<open>Steps that change no answer, and steps that only lose answers.\<close>

definition silent :: "nat list \<Rightarrow> flow_db \<Rightarrow> flow_db \<Rightarrow> bool" where
  "silent ms st st' \<longleftrightarrow> (flow_ok ms st \<longrightarrow> flow_ok ms st') \<and> freedVisit st' = freedVisit st \<and> (\<forall>m d. look m d st' = look m d st)"

definition loses :: "flow_db \<Rightarrow> flow_db \<Rightarrow> bool" where
  "loses st st' \<longleftrightarrow> freedVisit st' = freedVisit st \<and> (\<forall>m d f. find_flow m d st' = Some f \<longrightarrow> find_flow m d st = Some f)"

lemma silent_refl [simp]: "silent ms st st"
  by (simp add: silent_def)

lemma silent_trans: "silent ms st st' \<Longrightarrow> silent ms st' st'' \<Longrightarrow> silent ms st st''"
  by (simp add: silent_def)

lemma silent_hw: "silent ms st (hw_call c st)"
  using flow_ok_frame [of ms st "hw_call c st"] by (simp add: silent_def look_frame [of "hw_call c st" st])

lemma silent_upd:
  assumes "m \<in> set ms" "\<And>f. data_of (g f) = data_of f" "\<And>f. answer (g f) = answer f"
  shows "silent ms st (upd_flow m d g st)"
proof -
  have g: "keeps_key g" using assms(2) by (simp add: keeps_key_def)
  have "look m' d' (upd_flow m d g st) = look m' d' st" for m' d'
    using find_flow_cong [of d' d m st] assms(3) by (simp add: look_def find_upd_flow [OF g] option.map_comp o_def)
  then show ?thesis using upd_flow_ok [OF _ assms(1) g] by (simp add: silent_def)
qed

lemma search_flow:
  assumes "m \<in> set ms"
  obtains st' where "rtk_igmp_searchMcastFlowEntry m now d st = (map_option (\<lambda>f. f\<lparr>refreshTime := now\<rparr>) (find_flow m d st), st')"
    "silent ms st st'" "find_flow m d st' = map_option (\<lambda>f. f\<lparr>refreshTime := now\<rparr>) (find_flow m d st)"
    "flow_free st' = flow_free st"
proof -
  let ?st = "upd_flow m d (\<lambda>f. f\<lparr>refreshTime := now\<rparr>) st"
  have k: "keeps_key (\<lambda>f. f\<lparr>refreshTime := now\<rparr>)" by (simp add: keeps_key_def data_of_def)
  have "silent ms st ?st" by (rule silent_upd [OF assms]) (simp_all add: data_of_def answer_def)
  moreover have "flow_free ?st = flow_free st" by (simp add: upd_flow_def set_flows_def)
  ultimately show thesis
    by (intro that [of ?st]) (simp_all add: rtk_igmp_searchMcastFlowEntry_def find_upd_flow [OF k] Let_def)
qed

lemma silent_append:
  "set is \<subseteq> set ms \<Longrightarrow> silent ms st (snd (rtk_igmp_flowCbAppendOtherBrToCb e m now d is ds st))"
proof (induction e m now d "is" ds st rule: rtk_igmp_flowCbAppendOtherBrToCb.induct)
  case (2 e m now d i "is" ds st)
  obtain st' where "rtk_igmp_searchMcastFlowEntry i now d st = (map_option (\<lambda>f. f\<lparr>refreshTime := now\<rparr>) (find_flow i d st), st')" "silent ms st st'"
    using search_flow [of i ms now d st] "2.prems" by auto
  then show ?case using 2 by (cases "find_flow i d st") (auto intro: silent_trans)
qed simp

lemma silent_to_hw:
  assumes "m \<in> set ms" "set (fModules e) \<subseteq> set ms"
  shows "silent ms st (flow_to_hw e m now d f cpu st)"
proof -
  obtain ds st' where a: "rtk_igmp_flowCbAppendOtherBrToCb e m now d (fModules e) (egressDevInfo (multicastFwdInfo f)) st = (ds, st')"
    by fastforce
  have "silent ms st st'" using silent_append [OF assms(2), of st e m now d "egressDevInfo (multicastFwdInfo f)"] a by simp
  moreover have "silent ms st' (upd_flow m d (\<lambda>f. f\<lparr>multicastFwdInfo := (multicastFwdInfo f)\<lparr>hwCbAcc := True\<rparr>\<rparr>) (hw_call c st'))" for c
    by (rule silent_trans [OF silent_hw silent_upd [OF assms(1)]]) (simp_all add: data_of_def answer_def)
  ultimately show ?thesis by (auto simp: flow_to_hw_def a intro: silent_trans)
qed

lemma loses_look: "loses st st' \<Longrightarrow> look m d st' = Some v \<Longrightarrow> look m d st = Some v"
  by (auto simp: loses_def look_def)

lemma delete_flows_lose:
  assumes "flow_ok ms st" "m \<in> set ms" "distinct fs" "\<And>f. f \<in> set fs \<Longrightarrow> f \<in> set (flowTable st m (flow_hash f))"
  shows "loses st (fold (rtk_igmp_deleteMcastFlowEntry m) fs st)"
proof -
  have "flow_ok ms (fold (rtk_igmp_deleteMcastFlowEntry m) fs st) \<and> loses st (fold (rtk_igmp_deleteMcastFlowEntry m) fs st)"
  proof (rule fold_flows_inv [where m = m and I = "\<lambda>st'. flow_ok ms st' \<and> loses st st'", OF _ delete_flow_frame _ assms(3,4)])
    fix f st' assume st': "flow_ok ms st' \<and> loses st st'" and f: "f \<in> set (flowTable st' m (flow_hash f))"
    have "loses st (rtk_igmp_deleteMcastFlowEntry m f st')" using st' find_delete_flow [OF _ f] by (auto simp: loses_def split: if_splits)
    then show "flow_ok ms (rtk_igmp_deleteMcastFlowEntry m f st') \<and> loses st (rtk_igmp_deleteMcastFlowEntry m f st')"
      using delete_flow_ok [OF _ assms(2) f] st' by simp
  qed (simp_all add: assms(1) loses_def)
  then show ?thesis ..
qed

lemma recycle_loses:
  assumes "flow_ok ms st" "m \<in> set ms"
  shows "loses st (rtk_igmp_doMcastFlowRecycle m now st)"
proof -
  have "loses st (fold (rtk_igmp_deleteMcastFlowEntry m) (filter P (flows_of m st)) st)" for P
    by (rule delete_flows_lose [OF assms]) (simp_all add: flows_of_linked [OF assms(1)])
  moreover have "loses st (rtk_igmp_deleteMcastFlowEntry m (oldest f fs) st)" if "flows_of m st = f # fs" for f fs
  proof -
    have "oldest f fs \<in> set (flowTable st m (flow_hash (oldest f fs)))"
      using flows_of_linked(2) [OF assms(1), where f = "oldest f fs" and m = m] oldest_in [of f fs] that by simp
    then show ?thesis using find_delete_flow [OF assms(1)] by (auto simp: loses_def split: if_splits)
  qed
  moreover have "loses st st" by (simp add: loses_def)
  ultimately show ?thesis by (simp add: rtk_igmp_doMcastFlowRecycle_def Let_def split: list.split)
qed

section \<open>Recording a flow\<close>

text \<open>
  The effect of recording an answer \<open>v\<close>: the flow of the packet answers \<open>v\<close> if it is in the cache, other
  flows stay or are given up; they all stay when the flow was known.
\<close>

definition hit :: "nat \<Rightarrow> data_info \<Rightarrow> nat \<Rightarrow> data_info \<Rightarrow> bool" where
  "hit m d m' d' \<longleftrightarrow> m' = m \<and> data_key d' = data_key d"

definition recorded :: "nat list \<Rightarrow> nat \<Rightarrow> data_info \<Rightarrow> u32 list \<times> bool \<Rightarrow> flow_db \<Rightarrow> flow_db \<Rightarrow> bool" where
  "recorded ms m d v st st' \<longleftrightarrow> flow_ok ms st' \<and> freedVisit st' = freedVisit st \<and>
     (\<forall>m' d' w. look m' d' st' = Some w \<longrightarrow> (if hit m d m' d' then w = v else look m' d' st = Some w)) \<and>
     (look m d st \<noteq> None \<longrightarrow> (\<forall>m' d'. \<not> hit m d m' d' \<longrightarrow> look m' d' st' = look m' d' st))"

lemma silent_look: "silent ms st st' \<Longrightarrow> look m d st' = look m d st" "silent ms st st' \<Longrightarrow> flow_ok ms st \<Longrightarrow> flow_ok ms st'"
  "silent ms st st' \<Longrightarrow> freedVisit st' = freedVisit st"
  by (simp_all add: silent_def)

lemma recorded_silent:
  assumes "recorded ms m d v st st'" "silent ms st' st''"
  shows "recorded ms m d v st st''"
  using assms(1) silent_look(2) [OF assms(2)] unfolding recorded_def silent_look(1,3) [OF assms(2)] by blast

lemma silent_recorded:
  assumes "silent ms st st'" "recorded ms m d v st' st''"
  shows "recorded ms m d v st st''"
  using assms(2) unfolding recorded_def silent_look(1,3) [OF assms(1)] .

lemma look_hit: "hit m d m' d' \<Longrightarrow> look m' d' st = look m d st"
  by (auto simp: hit_def intro: look_cong)

lemma recorded_same: "flow_ok ms st \<Longrightarrow> look m d st = None \<or> look m d st = Some v \<Longrightarrow> recorded ms m d v st st"
  using look_hit [of m d] by (auto simp: recorded_def)

lemma recorded_upd:
  assumes "flow_ok ms st" "m \<in> set ms" "\<And>f. data_of (g f) = data_of f" "\<And>f. answer (g f) = v"
  shows "recorded ms m d v st (upd_flow m d g st)"
proof -
  have g: "keeps_key g" using assms(3) by (simp add: keeps_key_def)
  show ?thesis using upd_flow_ok [OF assms(1,2) g] assms(4) by (auto simp: recorded_def look_def find_upd_flow [OF g] hit_def)
qed

lemma recorded_delete:
  assumes "flow_ok ms st" "m \<in> set ms" "find_flow m d st = Some f"
  shows "recorded ms m d v st (rtk_igmp_deleteMcastFlowEntry m f st)"
proof -
  note f = find_flow_SomeD [OF assms(3)]
  have "flow_hash f = data_hash d" using data_hash_key [OF f(2)] by (simp add: flow_hash_data)
  then have "f \<in> set (flowTable st m (flow_hash f))" using f(1) by simp
  from delete_flow_ok [OF assms(1,2) this] find_delete_flow [OF assms(1) this] f(2)
  show ?thesis by (auto simp: recorded_def look_def hit_def)
qed

lemma flow_addr_norm: "flow_addr = norm_addr"
  by (simp add: fun_eq_iff flow_addr_def norm_addr_def)

lemma norm_norm [simp]: "norm_addr v (norm_addr v a) = norm_addr v a"
  by (cases v) (simp_all add: norm_addr_def)

lemma new_flow_key: "flow_key (new_flow now d fwd) = data_key d"
  by (simp add: data_key_def data_of_def new_flow_def flow_addr_norm)

lemma no_address_norm:
  "no_address d \<longleftrightarrow> norm_addr (dIpVersion d) (sourceIp d) = Addr 0 0 0 0 \<or> norm_addr (dIpVersion d) (dGroupAddr d) = Addr 0 0 0 0"
  by (cases "dIpVersion d") (simp_all add: no_address_def norm_addr_def)

lemma no_address_key: "data_key d = data_key d' \<Longrightarrow> no_address d = no_address d'"
  unfolding no_address_norm data_key_def by auto

lemma recorded_link:
  assumes ok: "flow_ok ms st'" and m: "m \<in> set ms" and new: "look m d st = None" and l: "loses st st'" and free: "flow_free st' \<noteq> 0"
    and d: "\<not> no_address d"
  shows "recorded ms m d (egressDevInfo fwd, copy2cpu fwd) st
    (rtk_igmp_linkMcastFlowEntry m (new_flow now d fwd) (st'\<lparr>flow_free := flow_free st' - 1\<rparr>))" (is "recorded ms m d _ st ?st")
proof -
  let ?f = "new_flow now d fwd" let ?h = "flow_hash ?f"
  have h: "?h = data_hash d" using data_hash_key [OF new_flow_key] by (simp add: flow_hash_data)
  have "find_flow m d st' = None" using new l by (cases "find_flow m d st'") (auto simp: loses_def look_def)
  then have "data_key d \<notin> flow_key ` set (flowTable st' m ?h)" by (auto simp: find_flow_key find_None_iff h)
  moreover have "plain (data_of ?f)" by (simp add: plain_def new_flow_def flow_addr_norm)
  moreover have "\<not> no_address (data_of ?f)" using d no_address_key [OF new_flow_key] by blast
  ultimately have "flows_ok ?h (?f # flowTable st' m ?h)"
    using flow_ok_bucket [OF ok, of ?h m] by (simp add: flows_ok_def new_flow_key)
  then have "flow_ok ms ?st"
    by (intro flow_ok_replace [OF ok m]) (use free data_hash_bound in \<open>auto simp: h rtk_igmp_linkMcastFlowEntry_def Let_def set_flows_def\<close>)
  moreover have "look m' d' ?st = (if hit m d m' d' then Some (egressDevInfo fwd, copy2cpu fwd) else look m' d' st')" for m' d'
    unfolding look_def find_link_flow new_flow_key hit_def by (simp add: answer_def new_flow_def find_flow_def)
  ultimately show ?thesis using new loses_look [OF l] l unfolding recorded_def by (auto simp: loses_def)
qed

lemma no_address_unknown:
  assumes "flow_ok ms st" "no_address d"
  shows "find_flow m d st = None"
proof (rule ccontr)
  assume "find_flow m d st \<noteq> None"
  then obtain f where "f \<in> set (flowTable st m (data_hash d))" "flow_key f = data_key d" using find_flow_SomeD [of m d st] by auto
  then show False using flow_ok_bucket [OF assms(1), of "data_hash d" m] no_address_key [of "data_of f" d] assms(2) by (auto simp: flows_ok_def)
qed

lemma record_flow:
  assumes ok: "flow_ok ms st" and m: "m \<in> set ms" and e: "set (fModules e) \<subseteq> set ms"
  shows "recorded ms m d (egressDevInfo fwd, copy2cpu fwd) st (rtk_igmp_recordMcastFlow e m now d fwd st)"
proof (cases "no_address d")
  case True
  then show ?thesis using recorded_same [OF ok] no_address_unknown [OF ok True] by (simp add: rtk_igmp_recordMcastFlow_def look_def)
next
  case d: False
  let ?v = "(egressDevInfo fwd, copy2cpu fwd)" let ?r = "rtk_igmp_recordMcastFlow e m now d fwd st"
  let ?t = "\<lambda>f::flow. f\<lparr>refreshTime := now\<rparr>"
  obtain st1 where s: "rtk_igmp_searchMcastFlowEntry m now d st = (map_option ?t (find_flow m d st), st1)" "silent ms st st1"
    "find_flow m d st1 = map_option ?t (find_flow m d st)" by (rule search_flow [OF m])
  have ok1: "flow_ok ms st1" using s(2) ok by (simp add: silent_def)
  have "recorded ms m d ?v st1 ?r"
  proof (cases "find_flow m d st")
    case None
    then have l: "look m d st1 = None" using s(3) by (simp add: look_def)
    define st2 where "st2 = (if flow_free st1 = 0 then rtk_igmp_doMcastFlowRecycle m now st1 else st1)"
    have ok2: "flow_ok ms st2" "loses st1 st2" using recycle_ok [OF ok1 m] recycle_loses [OF ok1 m] ok1 by (auto simp: st2_def loses_def)
    have r: "?r = (if egressDevInfo fwd = [] then st1 else if flow_free st2 = 0 then st2 else flow_to_hw e m now d (new_flow now d fwd)
        (copy2cpu fwd) (rtk_igmp_linkMcastFlowEntry m (new_flow now d fwd) (st2\<lparr>flow_free := flow_free st2 - 1\<rparr>)))"
      using None d by (simp add: rtk_igmp_recordMcastFlow_def s(1) st2_def Let_def)
    have "recorded ms m d ?v st1 st2" using ok2 l loses_look [OF ok2(2)] look_hit [of m d] by (fastforce simp: recorded_def loses_def)
    then show ?thesis unfolding r using recorded_same [OF ok1] l recorded_silent [OF recorded_link [OF ok2(1) m l ok2(2) _ d] silent_to_hw [OF m e]]
      by simp
  next
    case (Some f)
    then have f: "find_flow m d st1 = Some (?t f)" using s(3) by simp
    define st2 where "st2 = upd_flow m d (\<lambda>f. f\<lparr>refreshTime := now, fwdPktCnt := fwdPktCnt f + 1\<rparr>) st1"
    have s2: "silent ms st1 st2" unfolding st2_def by (rule silent_upd [OF m]) (simp_all add: data_of_def answer_def)
    then have ok2: "flow_ok ms st2" using ok1 by (simp add: silent_def)
    have r: "?r = (if egressDevInfo fwd = [] then rtk_igmp_deleteMcastFlowEntry m (?t f) st1
      else if answer f = ?v then st2 else flow_to_hw e m now d (?t f\<lparr>multicastFwdInfo := fwd\<rparr>) (copy2cpu fwd)
        (upd_flow m d (\<lambda>f. f\<lparr>multicastFwdInfo := fwd\<rparr>) st2))"
      using Some d by (simp add: rtk_igmp_recordMcastFlow_def s(1) st2_def answer_def Let_def)
    have "recorded ms m d ?v st1 st2" if "answer f = ?v"
      using recorded_silent [OF recorded_same [OF ok1] s2] f that by (simp add: look_def answer_def)
    moreover have "recorded ms m d ?v st2 (upd_flow m d (\<lambda>f. f\<lparr>multicastFwdInfo := fwd\<rparr>) st2)"
      by (rule recorded_upd [OF ok2 m]) (simp_all add: data_of_def answer_def)
    ultimately show ?thesis unfolding r
      using recorded_delete [OF ok1 m f] silent_recorded [OF s2] recorded_silent silent_to_hw [OF m e] by fastforce
  qed
  then show ?thesis by (rule silent_recorded [OF s(2)])
qed

end
