(* ===== verification/Igmp_Cache.thy ===== *)
theory Igmp_Cache
  imports Igmp_Flow_Props Igmp_Traffic
begin

text \<open>
  The flow cache over runs: after any sequence of packets and maintenance the tables are consistent,
  and after a refresh the cache is transparent: packets are forwarded as the database says, whether
  the cache is used or not.
\<close>

section \<open>A packet on the cache\<close>

lemma silent_same: "flowTable st' = flowTable st \<Longrightarrow> flow_free st' = flow_free st \<Longrightarrow> freedVisit st' = freedVisit st \<Longrightarrow> silent ms st st'"
  using flow_ok_frame [of ms st st'] look_frame [of st' st] by (simp add: silent_def)

lemma silent_umc: "silent ms st (snd (check_rate_limit_umc e d v st))"
  by (rule silent_same) (simp_all add: check_rate_limit_umc_def split: prod.split)

lemma silent_flood:
  "flood_unknown e ps d ds st = ((b, d', ds'), st') \<Longrightarrow> silent ms st st' \<and> data_key d' = data_key d"
proof (induction e ps d ds st rule: flood_unknown.induct)
  case (2 e p ps d ds st)
  have k: "data_key (d\<lparr>skipLearning := True\<rparr>) = data_key d" by (simp add: data_key_def)
  show ?case
  proof (cases "check_rate_limit_umc e p (dIpVersion d) st")
    case (Pair ok st1)
    then have "silent ms st st1" using silent_umc [of ms st e p "dIpVersion d"] by simp
    then show ?thesis using 2 Pair k by (auto simp: Let_def split: option.splits if_splits bool.splits intro: silent_trans)
  qed
qed simp

lemma recordedD:
  assumes "recorded ms m d v st st'"
  shows "flow_ok ms st'" "freedVisit st' = freedVisit st"
    "hit m d m' d' \<Longrightarrow> look m' d' st' = Some w \<Longrightarrow> w = v"
    "\<not> hit m d m' d' \<Longrightarrow> look m' d' st' = Some w \<Longrightarrow> look m' d' st = Some w"
    "\<not> hit m d m' d' \<Longrightarrow> look m d st \<noteq> None \<Longrightarrow> look m' d' st' = look m' d' st"
  using assms unfolding recorded_def by metis+

lemma recorded_key:
  assumes "data_key d' = data_key d" "recorded ms m d' v st st'"
  shows "recorded ms m d v st st'"
  using assms(2) unfolding recorded_def hit_def assms(1) look_cong [OF assms(1)] .

lemma recorded_quiet:
  assumes "flow_ok ms st" "silent ms st st'"
  shows "\<exists>v. recorded ms m d v st st'"
  using recorded_silent [OF recorded_same [OF assms(1)] assms(2)] by (cases "look m d st") blast+

lemma decide_recorded:
  assumes ok: "flow_ok ms st" and m: "m \<in> set ms" and e: "set (fModules e) \<subseteq> set ms"
  shows "\<exists>v. recorded ms m d v st (snd (decide_fwd e db m cpu d st))"
proof -
  note r = record_flow [OF _ m e]
  let ?ds = "egressDevInfo (fwd_zero\<lparr>copy2cpu := cpu, egressDevInfo := base_egress e m d\<rparr>)"
  obtain b d' ds' st' where f: "flood_unknown e (port_list e m) d ?ds st = ((b, d', ds'), st')" by (metis surj_pair)
  note s = silent_flood [OF f, of ms]
  have ok': "flow_ok ms st'" using s ok by (simp add: silent_def)
  have "\<exists>v. recorded ms m d v st (rtk_igmp_recordMcastFlow e m now d' fwd st')" for now fwd
    using silent_recorded [OF _ recorded_key [OF _ r [OF ok']]] s by blast
  moreover have "\<exists>v. recorded ms m d v st (rtk_igmp_recordMcastFlow e m now d fwd st)" for now fwd using r [OF ok] by blast
  ultimately show ?thesis using recorded_quiet [OF ok] s f
    by (cases b) (simp_all add: decide_fwd_def Let_def split: option.split del: split_paired_Ex)
qed

lemma silent_cached:
  assumes "m \<in> set ms" "set (fModules e) \<subseteq> set ms"
  shows "silent ms st (snd (cached_fwd e m now cpu d f st))"
proof -
  define st' where "st' = upd_flow m d (\<lambda>f. f\<lparr>fwdPktCnt := fwdPktCnt f + 1, defineFwdPktCnt := defineFwdPktCnt f + (if dummyPkt d then 1 else 0)\<rparr>) st"
  have "silent ms st st'" unfolding st'_def by (rule silent_upd [OF assms(1)]) (simp_all add: data_of_def answer_def)
  then show ?thesis using silent_trans [OF _ silent_to_hw [OF assms]] unfolding cached_fwd_def Let_def st'_def [symmetric] by simp
qed

lemma get_recorded:
  assumes ok: "flow_ok ms st" and m: "m \<in> set ms" and e: "set (fModules e) \<subseteq> set ms"
  shows "\<exists>v. recorded ms m d v st (snd (getMulticastDataFwdInfo e db m cache d st))"
proof -
  obtain st' where s: "rtk_igmp_searchMcastFlowEntry m (sysUpSeconds db) d st =
      (map_option (\<lambda>f. f\<lparr>refreshTime := sysUpSeconds db\<rparr>) (find_flow m d st), st')" "silent ms st st'" by (rule search_flow [OF m])
  have ok': "flow_ok ms st'" using s(2) ok by (simp add: silent_def)
  have "\<exists>v. recorded ms m d v st (snd (decide_fwd e db m cpu d st'))" for cpu
    using silent_recorded [OF s(2)] decide_recorded [OF ok' m e] by blast
  moreover have "\<exists>v. recorded ms m d v st (snd (cached_fwd e m now cpu d f st'))" for now cpu f
    using recorded_quiet [OF ok silent_trans [OF s(2) silent_cached [OF m e]]] .
  ultimately show ?thesis using decide_recorded [OF ok m e] recorded_quiet [OF ok silent_refl]
    by (simp add: getMulticastDataFwdInfo_def Let_def s(1) split: option.split del: split_paired_Ex)
qed

lemma get_ok:
  assumes "flow_ok ms st" "m \<in> set ms" "set (fModules e) \<subseteq> set ms"
  shows "flow_ok ms (snd (getMulticastDataFwdInfo e db m cache d st))"
  using get_recorded [OF assms, of d db cache] recordedD(1) by blast

lemma combine_ok:
  assumes "set (fModules e) \<subseteq> set ms"
  shows "flow_ok ms st \<Longrightarrow> set is \<subseteq> set ms \<Longrightarrow> flow_ok ms (snd (combine_fwd e db cache d is ret fwd st))"
proof (induction "is" arbitrary: d ret fwd st)
  case (Cons i "is")
  obtain ret' t d' st' where g: "getMulticastDataFwdInfo e db i cache d st = ((ret', t, d'), st')" by (metis surj_pair)
  then have "flow_ok ms st'" using get_ok [OF Cons.prems(1) _ assms, of i db cache d] Cons.prems(2) by simp
  then show ?case using Cons.IH Cons.prems(2) g by (simp add: Let_def)
qed simp

lemma fwd_info_ok:
  assumes "flow_ok ms st" "m \<in> set ms" "set (fModules e) \<subseteq> set ms"
  shows "flow_ok ms (snd (rtk_igmp_getMulticastDataFwdInfo e db m cache d st))"
proof -
  have "set (filter P (fModules e)) \<subseteq> set ms" for P using assms(3) by auto
  then show ?thesis using get_ok [OF assms] combine_ok [OF assms(3,1)] by (simp add: rtk_igmp_getMulticastDataFwdInfo_def split_beta)
qed

section \<open>The refresh\<close>

lemma reflush_flow_ok:
  assumes "flow_ok ms st" "m \<in> set ms" "set (fModules e) \<subseteq> set ms"
  shows "flow_ok ms (reflush_flow e db m ga f st)"
proof -
  have freed: "flow_ok ms (s\<lparr>freedVisit := True\<rparr>)" if "flow_ok ms s" for s using that by (rule flow_ok_frame) simp_all
  have hw: "flow_ok ms (hw_call c s)" if "flow_ok ms s" for s c using that by (rule flow_ok_frame) simp_all
  show ?thesis using assms(1) freed hw fwd_info_ok [OF assms] by (simp add: reflush_flow_def Let_def split: option.split)
qed

lemma fold_ok: "(\<And>x s. x \<in> set xs \<Longrightarrow> I s \<Longrightarrow> I (g x s)) \<Longrightarrow> I s \<Longrightarrow> I (fold g xs s)"
  by (induction xs arbitrary: s) auto

lemma reflush_bucket_ok:
  assumes "flow_ok ms st" "m \<in> set ms" "set (fModules e) \<subseteq> set ms"
  shows "flow_ok ms (reflush_bucket e db m ga h st)"
  unfolding reflush_bucket_def using assms by (auto intro!: fold_ok [where I = "flow_ok ms"] reflush_flow_ok)

lemma reflush_ok:
  assumes "flow_ok ms st" "set (fModules e) \<subseteq> set ms"
  shows "flow_ok ms (rtk_igmp_flow_reflush_update e db mo ga st)"
  unfolding rtk_igmp_flow_reflush_update_def
  using assms by (auto intro!: fold_ok [where I = "flow_ok ms"] reflush_bucket_ok split: option.splits)

text \<open>Without combined bridges the walk over a bucket never meets an entry that was given up.\<close>

lemma reflush_flow_cases:
  assumes "combineId e m = 0" "look m (data_of f) st \<noteq> None"
  shows "ga \<noteq> None \<and> reflush_flow e db m ga f st = st \<or>
    silent ms (snd (getMulticastDataFwdInfo e db m False (data_of f) st)) (reflush_flow e db m ga f st)"
proof -
  have "snd (rtk_igmp_getMulticastDataFwdInfo e db m False (data_of f) st) = snd (getMulticastDataFwdInfo e db m False (data_of f) st)"
    using assms(1) by (simp add: rtk_igmp_getMulticastDataFwdInfo_def split_beta)
  then show ?thesis using assms by (auto simp: reflush_flow_def look_def Let_def silent_hw split: option.split)
qed

lemma reflush_flow_recorded:
  assumes ok: "flow_ok ms st" and m: "m \<in> set ms" and e: "set (fModules e) \<subseteq> set ms" and c: "combineId e m = 0"
    and f: "look m (data_of f) st \<noteq> None"
  shows "\<exists>v. recorded ms m (data_of f) v st (reflush_flow e db m ga f st)"
  using reflush_flow_cases [OF c f] get_recorded [OF ok m e] recorded_silent recorded_quiet [OF ok silent_refl] by metis

lemma reflush_flows_freed:
  assumes m: "m \<in> set ms" and e: "set (fModules e) \<subseteq> set ms" and c: "combineId e m = 0"
  shows "flow_ok ms st \<Longrightarrow> distinct (map flow_key fs) \<Longrightarrow> (\<And>f. f \<in> set fs \<Longrightarrow> look m (data_of f) st \<noteq> None) \<Longrightarrow>
    freedVisit (fold (reflush_flow e db m ga) fs st) = freedVisit st"
proof (induction fs arbitrary: st)
  case (Cons f fs)
  obtain v where r: "recorded ms m (data_of f) v st (reflush_flow e db m ga f st)"
    using reflush_flow_recorded [OF Cons.prems(1) m e c Cons.prems(3)] by (metis list.set_intros(1))
  have "look m (data_of g) (reflush_flow e db m ga f st) \<noteq> None" if g: "g \<in> set fs" for g
  proof -
    have "\<not> hit m (data_of f) m (data_of g)" using g Cons.prems(2) by (auto simp: hit_def image_iff)
    then have "look m (data_of g) (reflush_flow e db m ga f st) = look m (data_of g) st" 
      using recordedD(5) [OF r] Cons.prems(3) [of f] by simp
    then show ?thesis using Cons.prems(3) [of g] g by simp
  qed
  then show ?case using Cons.IH [of "reflush_flow e db m ga f st"] Cons.prems(2) recordedD(1,2) [OF r] by simp
qed simp

lemma reflush_bucket_freed:
  assumes "flow_ok ms st" "m \<in> set ms" "set (fModules e) \<subseteq> set ms" "combineId e m = 0"
  shows "freedVisit (reflush_bucket e db m ga h st) = freedVisit st"
  unfolding reflush_bucket_def
  by (rule reflush_flows_freed [OF assms(2-4,1)])
    (use flow_ok_bucket [OF assms(1), of h m] find_flow_linked [OF assms(1)] in \<open>auto simp: flows_ok_def look_def\<close>)

lemma reflush_freed:
  assumes "flow_ok ms st" "set (fModules e) \<subseteq> set ms" "list_all (\<lambda>m. combineId e m = 0) (fModules e)"
  shows "freedVisit (rtk_igmp_flow_reflush_update e db mo ga st) = freedVisit st"
proof -
  let ?I = "\<lambda>s. flow_ok ms s \<and> freedVisit s = freedVisit st"
  have "?I (reflush_bucket e db m ga h s)" if "?I s" "m \<in> set (fModules e)" for m h s
    using that reflush_bucket_freed [of ms s m e db ga h] assms(2,3)
    by (auto simp: list_all_iff intro: reflush_bucket_ok)
  then have "?I (rtk_igmp_flow_reflush_update e db mo ga st)"
    unfolding rtk_igmp_flow_reflush_update_def
    using assms(1) by (intro fold_ok [where I = ?I]) (auto split: option.splits)
  then show ?thesis by simp
qed

section \<open>Runs of the cache\<close>

text \<open>
  The events on the cache: a data packet (with or without the cache), the refresh, the removal of a
  group, and the two passes of the timer; each with the settings and the database of its moment.
\<close>

datatype flow_event =
    DataPacket nat bool data_info
  | Reflush "nat option" "addr option"
  | Invalidate nat ipver addr
  | Age nat
  | AgeUnknown nat

fun flow_step :: "fwd_env \<times> igmpdb \<times> flow_event \<Rightarrow> flow_db \<Rightarrow> flow_db" where
  "flow_step (e, db, DataPacket m cache d) st = snd (rtk_igmp_getMulticastDataFwdInfo e db m cache d st)"
| "flow_step (e, db, Reflush mo ga) st = rtk_igmp_flow_reflush_update e db mo ga st"
| "flow_step (e, db, Invalidate m v ga) st = rtk_igmp_invalidateMCastGroupFlow m v ga st"
| "flow_step (e, db, Age m) st = rtk_igmp_agingMcastFlow e m (sysUpSeconds db) st"
| "flow_step (e, db, AgeUnknown m) st = rtk_igmp_deleteUnknownFloodMacstFlow e m (sysUpSeconds db) st"

fun event_module :: "flow_event \<Rightarrow> nat option" where
  "event_module (DataPacket m cache d) = Some m"
| "event_module (Reflush mo ga) = None"
| "event_module (Invalidate m v ga) = Some m"
| "event_module (Age m) = Some m"
| "event_module (AgeUnknown m) = Some m"

text \<open>Events on the valid modules; and settings that combine no bridges.\<close>

definition flow_event_ok :: "nat list \<Rightarrow> fwd_env \<times> igmpdb \<times> flow_event \<Rightarrow> bool" where
  "flow_event_ok ms ev \<longleftrightarrow> fModules (fst ev) = ms \<and> (case event_module (snd (snd ev)) of None \<Rightarrow> True | Some m \<Rightarrow> m \<in> set ms)"

definition uncombined :: "fwd_env \<Rightarrow> bool" where
  "uncombined e = list_all (\<lambda>m. combineId e m = 0) (fModules e)"

definition flow_init :: flow_db where
  "flow_init = \<lparr>flowTable = (\<lambda>m h. []), flow_free = IGMP_MAX_FLOW_COUNT, umcLimits = (\<lambda>d v. \<lparr>cycle_start_time = 0, rl_counter = 0\<rparr>),
     hwCalls = [], freedVisit = False\<rparr>"

lemma flow_step_ok: "flow_event_ok ms ev \<Longrightarrow> flow_ok ms st \<Longrightarrow> flow_ok ms (flow_step ev st)"
  by (cases "(ev, st)" rule: flow_step.cases) (auto simp: flow_event_ok_def fwd_info_ok reflush_ok invalidate_ok aging_ok)

interpretation flow_runs: event_system flow_step "flow_event_ok ms" "flow_ok ms" for ms
  by unfold_locales (rule flow_step_ok)

lemma fold_freed:
  assumes "\<And>f s. freedVisit (g f s) = freedVisit s"
  shows "freedVisit (fold g fs st) = freedVisit st"
  using fold_ok [of fs "\<lambda>s. freedVisit s = freedVisit st" g st] assms by simp

lemma check_freed: "freedVisit (check_flow e m now f st) = freedVisit st"
  by (simp add: check_flow_def set_flows_def)

lemma timer_freed:
  "freedVisit (rtk_igmp_invalidateMCastGroupFlow m v ga st) = freedVisit st"
  "freedVisit (rtk_igmp_agingMcastFlow e m now st) = freedVisit st"
  "freedVisit (rtk_igmp_deleteUnknownFloodMacstFlow e m now st) = freedVisit st"
  by (simp_all add: rtk_igmp_invalidateMCastGroupFlow_def rtk_igmp_agingMcastFlow_def rtk_igmp_deleteUnknownFloodMacstFlow_def fold_freed check_freed)

lemma fwd_info_freed:
  assumes "flow_ok ms st" "m \<in> set ms" "fModules e = ms" "uncombined e"
  shows "freedVisit (snd (rtk_igmp_getMulticastDataFwdInfo e db m cache d st)) = freedVisit st"
proof -
  have "combineId e m = 0" using assms(2-4) by (simp add: uncombined_def list_all_iff)
  then have "snd (rtk_igmp_getMulticastDataFwdInfo e db m cache d st) = snd (getMulticastDataFwdInfo e db m cache d st)"
    by (simp add: rtk_igmp_getMulticastDataFwdInfo_def split_beta)
  then show ?thesis using get_recorded [OF assms(1,2), of e d db cache] recordedD(2) assms(3) by force
qed

lemma flow_step_freed:
  assumes "flow_event_ok ms ev" "uncombined (fst ev)" "flow_ok ms st"
  shows "freedVisit (flow_step ev st) = freedVisit st"
  using assms reflush_freed [OF assms(3), of "fst ev"]
  by (cases "(ev, st)" rule: flow_step.cases) (auto simp: flow_event_ok_def timer_freed fwd_info_freed uncombined_def)

interpretation flow_walks: event_system flow_step "\<lambda>ev. flow_event_ok ms ev \<and> uncombined (fst ev)" "\<lambda>st. flow_ok ms st \<and> \<not> freedVisit st" for ms
  by unfold_locales (metis flow_step_ok flow_step_freed)

lemma flow_ok_init: "distinct ms \<Longrightarrow> flow_ok ms flow_init"
  by (simp add: flow_ok_def flow_init_def flows_ok_def flow_count_def split_beta sum_list_0)

section \<open>The answer of the database\<close>

text \<open>
  Where a packet goes by the database and the settings alone: to the devices that get everything, and
  to the members of its group or, for an unknown group with flooding on, to the ports of the bridge.
\<close>

definition flow_egress :: "fwd_env \<Rightarrow> igmpdb \<Rightarrow> nat \<Rightarrow> data_info \<Rightarrow> u32 list" where
  "flow_egress e db m d = fold (rtk_igmp_setEgressDevToFwdInfo e)
     (case mdb_egress (fConf e) db m (dIpVersion d) (dGroupAddr d) (sourceIp d) of
        Some ds \<Rightarrow> ds
      | None \<Rightarrow> if unknownFlood e
          then filter (\<lambda>p. case fConf e p (dIpVersion d) of None \<Rightarrow> False | Some fc \<Rightarrow> \<not> forwardDisable fc) (port_list e m) else [])
     (base_egress e m d)"

definition reserved :: "fwd_env \<Rightarrow> data_info \<Rightarrow> bool" where
  "reserved e d = (case rtk_igmp_checkGroupToPsTbl (fResv e) (dIpVersion d) (dGroupAddr d) of None \<Rightarrow> False | Some r \<Rightarrow> \<not> isCopy2cpu r)"

definition copied :: "fwd_env \<Rightarrow> data_info \<Rightarrow> bool" where
  "copied e d = (case rtk_igmp_checkGroupToPsTbl (fResv e) (dIpVersion d) (dGroupAddr d) of None \<Rightarrow> False | Some r \<Rightarrow> isCopy2cpu r)"

text \<open>Whether the packet is handled, the devices, and whether the CPU gets a copy.\<close>

definition data_answer :: "fwd_env \<Rightarrow> igmpdb \<Rightarrow> nat \<Rightarrow> data_info \<Rightarrow> bool \<times> u32 list \<times> bool" where
  "data_answer e db m d = (if reserved e d then (False, [], False) else (True, flow_egress e db m d, copied e d))"

definition outcome :: "fwd_result \<Rightarrow> bool \<times> u32 list \<times> bool" where
  "outcome r = (case r of ((ret, fwd, d), st) \<Rightarrow> (ret, egressDevInfo fwd, copy2cpu fwd))"

text \<open>No rate limit for unknown groups applies on the bridge.\<close>

definition unlimited :: "fwd_env \<Rightarrow> nat \<Rightarrow> bool" where
  "unlimited e m \<longleftrightarrow> unknownFlood e \<longrightarrow> list_all (\<lambda>p. umcRate e p IP_VERSION4 = 0 \<and> umcRate e p IP_VERSION6 = 0) (port_list e m)"

lemma flood_members_eq:
  "flood_members e db d g ds = fold (rtk_igmp_setEgressDevToFwdInfo e)
     (map inIfidx (filter (\<lambda>c. case fConf e (inIfidx c) (dIpVersion d) of
         None \<Rightarrow> False
       | Some fc \<Rightarrow> \<not> forwardDisable fc \<and> \<not> snoopingDisable fc \<and>
           client_wants (careSource fc) (ipVersion g) (sourceIp d) (sysUpSeconds db) c) (clientList g))) ds"
proof -
  have "fold (\<lambda>c ds. case fConf e (inIfidx c) (dIpVersion d) of None \<Rightarrow> ds
      | Some fc \<Rightarrow> if P fc c then rtk_igmp_setEgressDevToFwdInfo e (inIfidx c) ds else ds) cs ds =
    fold (rtk_igmp_setEgressDevToFwdInfo e)
      (map inIfidx (filter (\<lambda>c. case fConf e (inIfidx c) (dIpVersion d) of None \<Rightarrow> False | Some fc \<Rightarrow> P fc c) cs)) ds" for P cs
    by (induction cs arbitrary: ds) (auto split: option.splits)
  then show ?thesis unfolding flood_members_def .
qed

lemma flood_unlimited:
  "list_all (\<lambda>p. umcRate e p IP_VERSION4 = 0 \<and> umcRate e p IP_VERSION6 = 0) ps \<Longrightarrow>
   flood_unknown e ps d ds st = ((True, d, fold (rtk_igmp_setEgressDevToFwdInfo e)
     (filter (\<lambda>p. case fConf e p (dIpVersion d) of None \<Rightarrow> False | Some fc \<Rightarrow> \<not> forwardDisable fc) ps) ds), st)"
proof (induction ps arbitrary: ds)
  case (Cons p ps)
  then have "umcRate e p (dIpVersion d) = 0" by (cases "dIpVersion d") simp_all
  then show ?case using Cons by (simp split: option.split)
qed simp

lemma decide_answer:
  assumes ok: "flow_ok ms st" and m: "m \<in> set ms" and e: "set (fModules e) \<subseteq> set ms" and u: "unlimited e m"
  shows "outcome (decide_fwd e db m cpu d st) = (True, flow_egress e db m d, cpu)"
    and "recorded ms m d (flow_egress e db m d, cpu) st (snd (decide_fwd e db m cpu d st))"
proof -
  let ?g = "rtk_igmp_searchGroupEntry db m (dIpVersion d) (dGroupAddr d)"
  define fwd where "fwd = fwd_zero\<lparr>copy2cpu := cpu, egressDevInfo := flow_egress e db m d, unknownMCast := (?g = None \<and> unknownFlood e)\<rparr>"
  have "decide_fwd e db m cpu d st = ((True, fwd, d), rtk_igmp_recordMcastFlow e m (sysUpSeconds db) d fwd st)"
  proof (cases ?g)
    case None
    then show ?thesis using flood_unlimited [of e "port_list e m"] u
      by (cases "unknownFlood e") (simp_all add: decide_fwd_def Let_def flow_egress_def mdb_egress_def unlimited_def fwd_def fwd_zero_def)
  next
    case (Some g)
    then show ?thesis by (simp add: decide_fwd_def Let_def flow_egress_def mdb_egress_def flood_members_eq fwd_def fwd_zero_def)
  qed
  moreover have "egressDevInfo fwd = flow_egress e db m d" "copy2cpu fwd = cpu" by (simp_all add: fwd_def)
  ultimately have f: "decide_fwd e db m cpu d st = ((True, fwd, d), rtk_igmp_recordMcastFlow e m (sysUpSeconds db) d fwd st)"
    "egressDevInfo fwd = flow_egress e db m d" "copy2cpu fwd = cpu" by blast+
  show "outcome (decide_fwd e db m cpu d st) = (True, flow_egress e db m d, cpu)" using f by (simp add: outcome_def)
  show "recorded ms m d (flow_egress e db m d, cpu) st (snd (decide_fwd e db m cpu d st))"
    using record_flow [OF ok m e, of d fwd "sysUpSeconds db"] f by simp
qed

section \<open>Coherence\<close>

text \<open>
  The cache is coherent for a packet when the flow of the packet, if there is one, answers as the
  database.  Flows of reserved groups are not looked at.
\<close>

definition coherent :: "fwd_env \<Rightarrow> igmpdb \<Rightarrow> nat \<Rightarrow> data_info \<Rightarrow> flow_db \<Rightarrow> bool" where
  "coherent e db m d st \<longleftrightarrow> reserved e d \<or> look m d st = None \<or> look m d st = Some (flow_egress e db m d, copied e d)"

lemma same_packet:
  assumes "plain d" "plain d'" "data_key d' = data_key d"
  shows "flow_egress e db m d' = flow_egress e db m d" "copied e d' = copied e d" "reserved e d' = reserved e d"
proof -
  have eq: "dIpVersion d' = dIpVersion d" "sourceIp d' = sourceIp d" "dGroupAddr d' = dGroupAddr d"
    using assms by (auto simp: plain_def data_key_def)
  show "flow_egress e db m d' = flow_egress e db m d" "copied e d' = copied e d" "reserved e d' = reserved e d"
    unfolding flow_egress_def base_egress_def copied_def reserved_def eq by (rule refl)+
qed

lemma coherent_silent: "silent ms st st' \<Longrightarrow> coherent e db m d st' = coherent e db m d st"
  by (simp add: coherent_def silent_look)

lemma coherent_recorded:
  assumes r: "recorded ms m d (flow_egress e db m d, copied e d) st st'" and p: "plain d" "plain d'"
    and c: "hit m d m' d' \<or> coherent e db m' d' st"
  shows "coherent e db m' d' st'"
proof (cases "look m' d' st'")
  case (Some w)
  show ?thesis
  proof (cases "hit m d m' d'")
    case True
    then show ?thesis using recordedD(3) [OF r True Some] Some same_packet [OF p] by (simp add: coherent_def hit_def)
  next
    case False
    then show ?thesis using recordedD(4) [OF r False Some] Some c by (auto simp: coherent_def)
  qed
qed (simp add: coherent_def)

text \<open>The decision and the refresh of one flow, by \<open>getMulticastDataFwdInfo\<close>.\<close>

lemma get_reserved: "reserved e d \<Longrightarrow> snd (getMulticastDataFwdInfo e db m cache d st) = st \<and> outcome (getMulticastDataFwdInfo e db m cache d st) = (False, [], False)"
  by (auto simp: reserved_def getMulticastDataFwdInfo_def Let_def outcome_def fwd_zero_def split: option.splits)

lemma get_uncached: "\<not> reserved e d \<Longrightarrow> getMulticastDataFwdInfo e db m False d st = decide_fwd e db m (copied e d) d st"
  by (auto simp: reserved_def copied_def getMulticastDataFwdInfo_def Let_def split: option.splits)

lemma get_cached:
  assumes "\<not> reserved e d" "m \<in> set ms"
  obtains st' where "silent ms st st'"
    "getMulticastDataFwdInfo e db m True d st = decide_fwd e db m (copied e d) d st'"
  | st' f where "silent ms st st'" "find_flow m d st = Some f"
    "getMulticastDataFwdInfo e db m True d st = cached_fwd e m (sysUpSeconds db) (copied e d) d (f\<lparr>refreshTime := sysUpSeconds db\<rparr>) st'"
proof -
  obtain st' where s: "rtk_igmp_searchMcastFlowEntry m (sysUpSeconds db) d st =
      (map_option (\<lambda>f. f\<lparr>refreshTime := sysUpSeconds db\<rparr>) (find_flow m d st), st')" "silent ms st st'" by (rule search_flow [OF assms(2)])
  have cp: "(case rtk_igmp_checkGroupToPsTbl (fResv e) (dIpVersion d) (dGroupAddr d) of None \<Rightarrow> False | Some r \<Rightarrow> isCopy2cpu r) = copied e d"
    by (simp add: copied_def)
  have nr: "\<not> (rtk_igmp_checkGroupToPsTbl (fResv e) (dIpVersion d) (dGroupAddr d) \<noteq> None \<and> \<not> copied e d)"
    using assms(1) by (auto simp: reserved_def copied_def split: option.splits)
  have g: "getMulticastDataFwdInfo e db m True d st = (case find_flow m d st of None \<Rightarrow> decide_fwd e db m (copied e d) d st'
    | Some f \<Rightarrow> if unknownFlood e \<and> unknownMCast (multicastFwdInfo f) \<and> umc_limited e then decide_fwd e db m (copied e d) d st'
        else cached_fwd e m (sysUpSeconds db) (copied e d) d (f\<lparr>refreshTime := sysUpSeconds db\<rparr>) st')"
    unfolding getMulticastDataFwdInfo_def Let_def cp s(1) if_not_P [OF nr] by (cases "find_flow m d st") simp_all
  show thesis
  proof (cases "find_flow m d st")
    case None
    show thesis by (rule that(1) [OF s(2)]) (simp add: g None)
  next
    case (Some f)
    show thesis
    proof (cases "unknownFlood e \<and> unknownMCast (multicastFwdInfo f) \<and> umc_limited e")
      case True
      show thesis by (rule that(1) [OF s(2)]) (simp add: g Some True)
    next
      case False
      show thesis by (rule that(2) [OF s(2) Some]) (simp only: g Some option.case if_not_P [OF False])
    qed
  qed
qed

lemma cached_outcome: "outcome (cached_fwd e m now cpu d f st) = (True, fst (answer f), cpu \<or> snd (answer f))"
  by (simp add: cached_fwd_def outcome_def answer_def Let_def)

lemma get_coherent:
  assumes ok: "flow_ok ms st" and m: "m \<in> set ms" and e: "set (fModules e) \<subseteq> set ms" and u: "unlimited e m" and p: "plain d"
    and c: "coherent e db m' d' st" and p': "plain d'"
  shows "coherent e db m' d' (snd (getMulticastDataFwdInfo e db m cache d st))"
proof (cases "reserved e d")
  case True
  then show ?thesis using get_reserved [OF True, of db m cache st] c by simp
next
  case False
  have d: "coherent e db m' d' (snd (decide_fwd e db m (copied e d) d st'))" if "silent ms st st'" for st'
    using coherent_recorded [OF decide_answer(2) [OF silent_look(2) [OF that ok] m e u] p p'] c coherent_silent [OF that] by blast
  show ?thesis
  proof (cases cache)
    case True
    have "coherent e db m' d' (snd (getMulticastDataFwdInfo e db m True d st))"
    proof (rule get_cached [OF False m, of st db])
      fix st' g assume "silent ms st st'" "getMulticastDataFwdInfo e db m True d st =
        cached_fwd e m (sysUpSeconds db) (copied e d) d (g\<lparr>refreshTime := sysUpSeconds db\<rparr>) st'"
      then show "coherent e db m' d' (snd (getMulticastDataFwdInfo e db m True d st))"
        using c coherent_silent [OF silent_trans [OF _ silent_cached [OF m e]]] by simp
    qed (simp add: d)
    then show ?thesis using True by simp
  qed (simp add: get_uncached [OF False] d)
qed

lemma get_outcome:
  assumes ok: "flow_ok ms st" and m: "m \<in> set ms" and e: "set (fModules e) \<subseteq> set ms" and u: "unlimited e m"
    and c: "coherent e db m d st"
  shows "outcome (getMulticastDataFwdInfo e db m cache d st) = data_answer e db m d"
proof (cases "reserved e d")
  case True
  then show ?thesis using get_reserved [OF True, of db m cache st] by (simp add: data_answer_def)
next
  case r: False
  have d: "outcome (decide_fwd e db m (copied e d) d st') = data_answer e db m d" if "silent ms st st'" for st'
    using decide_answer(1) [OF silent_look(2) [OF that ok] m e u] r by (simp add: data_answer_def)
  have f: "answer f = (flow_egress e db m d, copied e d)" if "find_flow m d st = Some f" for f
    using c r that by (simp add: coherent_def look_def)
  show ?thesis
  proof (cases cache)
    case True
    have "outcome (getMulticastDataFwdInfo e db m True d st) = data_answer e db m d"
    proof (rule get_cached [OF r m, of st db])
      fix st' g assume g: "find_flow m d st = Some g" "getMulticastDataFwdInfo e db m True d st =
        cached_fwd e m (sysUpSeconds db) (copied e d) d (g\<lparr>refreshTime := sysUpSeconds db\<rparr>) st'"
      show "outcome (getMulticastDataFwdInfo e db m True d st) = data_answer e db m d"
        unfolding g(2) cached_outcome using f [OF g(1)] r by (simp add: answer_def data_answer_def)
    qed (simp add: d)
    then show ?thesis using True by simp
  qed (simp add: get_uncached [OF r] d)
qed

text \<open>A refresh of everything: each flow is decided anew, and a decision spoils no other flow.\<close>

lemma reflush_flow_coherent:
  assumes ok: "flow_ok ms st" and m: "m \<in> set ms" and e: "set (fModules e) \<subseteq> set ms" and u: "unlimited e m" "combineId e m = 0"
    and p: "plain (data_of f)" "plain d'" and c: "hit m (data_of f) m' d' \<or> coherent e db m' d' st"
  shows "coherent e db m' d' (reflush_flow e db m None f st)"
proof (cases "look m (data_of f) st = None")
  case True
  then have "reflush_flow e db m None f st = st\<lparr>freedVisit := True\<rparr>" by (simp add: reflush_flow_def look_def)
  moreover have "look m' d' (st\<lparr>freedVisit := True\<rparr>) = look m' d' st" by (rule look_frame) simp
  ultimately show ?thesis using c look_hit [of m "data_of f" m' d' st] True by (auto simp: coherent_def)
next
  case False
  let ?st = "snd (getMulticastDataFwdInfo e db m False (data_of f) st)"
  have "silent ms ?st (reflush_flow e db m None f st)" using reflush_flow_cases [OF u(2) False, of None db ms] by simp
  moreover have "coherent e db m' d' ?st"
  proof (cases "reserved e (data_of f)")
    case True
    then show ?thesis using get_reserved [OF True, of db m False st] c same_packet(3) [OF p] by (auto simp: hit_def coherent_def)
  next
    case False
    then show ?thesis using coherent_recorded [OF decide_answer(2) [OF ok m e u(1)] p c] by (simp add: get_uncached)
  qed
  ultimately show ?thesis using coherent_silent by blast
qed

lemma reflush_flows_coherent:
  assumes m: "m \<in> set ms" and e: "set (fModules e) \<subseteq> set ms" and u: "unlimited e m" "combineId e m = 0" and p: "plain d'"
  shows "flow_ok ms st \<Longrightarrow> (\<And>f. f \<in> set fs \<Longrightarrow> plain (data_of f)) \<Longrightarrow>
    coherent e db m' d' st \<or> m' = m \<and> data_key d' \<in> flow_key ` set fs \<Longrightarrow>
    coherent e db m' d' (fold (reflush_flow e db m None) fs st)"
proof (induction fs arbitrary: st)
  case (Cons f fs)
  have "coherent e db m' d' (reflush_flow e db m None f st) \<or> m' = m \<and> data_key d' \<in> flow_key ` set fs"
    using Cons.prems(3) reflush_flow_coherent [OF Cons.prems(1) m e u Cons.prems(2) p, of f m' db] by (auto simp: hit_def)
  then show ?case using Cons.IH [OF reflush_flow_ok [OF Cons.prems(1) m e]] Cons.prems(2) by simp
qed simp

lemma reflush_bucket_coherent:
  assumes ok: "flow_ok ms st" and m: "m \<in> set ms" and e: "set (fModules e) \<subseteq> set ms" and u: "unlimited e m" "combineId e m = 0"
    and p: "plain d'" and c: "coherent e db m' d' st \<or> m' = m \<and> data_hash d' = h"
  shows "coherent e db m' d' (reflush_bucket e db m None h st)"
  unfolding reflush_bucket_def
proof (rule reflush_flows_coherent [OF m e u p ok])
  show "plain (data_of f)" if "f \<in> set (flowTable st m h)" for f using that flow_ok_bucket [OF ok, of h m] by (simp add: flows_ok_def)
  show "coherent e db m' d' st \<or> m' = m \<and> data_key d' \<in> flow_key ` set (flowTable st m h)"
  proof (cases "find_flow m' d' st")
    case (Some f)
    then show ?thesis using c find_flow_SomeD [OF Some] by (force simp: image_iff)
  qed (simp add: coherent_def look_def)
qed

lemma reflush_module_coherent:
  assumes m: "m \<in> set ms" and e: "set (fModules e) \<subseteq> set ms" and u: "unlimited e m" "combineId e m = 0" and p: "plain d'"
  shows "flow_ok ms st \<Longrightarrow> coherent e db m' d' st \<or> m' = m \<and> data_hash d' \<in> set hs \<Longrightarrow>
    flow_ok ms (fold (reflush_bucket e db m None) hs st) \<and> coherent e db m' d' (fold (reflush_bucket e db m None) hs st)"
proof (induction hs arbitrary: st)
  case (Cons h hs)
  have ok: "flow_ok ms (reflush_bucket e db m None h st)"
    by (rule reflush_bucket_ok [OF Cons.prems(1) m e])
  have "coherent e db m' d' (reflush_bucket e db m None h st) \<or> m' = m \<and> data_hash d' \<in> set hs"
    using reflush_bucket_coherent [OF Cons.prems(1) m e u p, of db m' h] Cons.prems(2) by auto
  then show ?case using Cons.IH [OF ok] by simp
qed simp

lemma reflush_coherent:
  assumes ok: "flow_ok ms st" and e: "fModules e = ms" and u: "list_all (\<lambda>m. unlimited e m \<and> combineId e m = 0) ms"
    and m: "m \<in> set ms" and p: "plain d"
  shows "coherent e db m d (rtk_igmp_flow_reflush_update e db None None st)"
proof -
  let ?g = "\<lambda>m. fold (reflush_bucket e db m None) [0..<IGMP_HASH_TBL_SIZE]"
  have step: "flow_ok ms (?g n s) \<and> coherent e db m d (?g n s)" if "flow_ok ms s" "n \<in> set ms" "coherent e db m d s \<or> m = n" for s n
    using reflush_module_coherent [of n ms e d s db m "[0..<IGMP_HASH_TBL_SIZE]"] that u e p data_hash_bound [of d] by (auto simp: list_all_iff)
  have "coherent e db m d (fold ?g ns s)" if "flow_ok ms s" "set ns \<subseteq> set ms" "coherent e db m d s \<or> m \<in> set ns" for ns s
    using that
  proof (induction ns arbitrary: s)
    case (Cons n ns)
    have "flow_ok ms (?g n s)"
      by (rule fold_ok [where I = "flow_ok ms"]) (use Cons.prems(1,2) e in \<open>auto intro: reflush_bucket_ok\<close>)
    then show ?case using Cons.IH [of "?g n s"] Cons.prems step [of s n] by auto
  qed simp
  then show ?thesis using ok m e by (simp add: rtk_igmp_flow_reflush_update_def)
qed

section \<open>Properties\<close>

text \<open>The answers to a sequence of packets.\<close>

fun serve :: "fwd_env \<Rightarrow> igmpdb \<Rightarrow> bool \<Rightarrow> (nat \<times> data_info) list \<Rightarrow> flow_db \<Rightarrow> (bool \<times> u32 list \<times> bool) list" where
  "serve e db cache [] st = []"
| "serve e db cache ((m, d) # ps) st = (let r = rtk_igmp_getMulticastDataFwdInfo e db m cache d st in outcome r # serve e db cache ps (snd r))"

lemma serve_coherent:
  assumes e: "fModules e = ms" and u: "list_all (\<lambda>m. unlimited e m \<and> combineId e m = 0) ms"
  shows "flow_ok ms st \<Longrightarrow> (\<And>m d. m \<in> set ms \<Longrightarrow> plain d \<Longrightarrow> coherent e db m d st) \<Longrightarrow> list_all (\<lambda>(m, d). m \<in> set ms \<and> plain d) ps \<Longrightarrow>
    serve e db cache ps st = map (\<lambda>(m, d). data_answer e db m d) ps"
proof (induction ps arbitrary: st)
  case (Cons md ps)
  obtain m d where md: "md = (m, d)" by fastforce
  have m: "m \<in> set ms" "plain d" "unlimited e m" "combineId e m = 0" "set (fModules e) \<subseteq> set ms"
    using Cons.prems(3) u e md by (auto simp: list_all_iff)
  let ?r = "rtk_igmp_getMulticastDataFwdInfo e db m cache d st" let ?q = "getMulticastDataFwdInfo e db m cache d st"
  have r: "snd ?r = snd ?q" "outcome ?r = outcome ?q"
    using m(4) by (simp_all add: rtk_igmp_getMulticastDataFwdInfo_def outcome_def split_beta)
  have "outcome ?r = data_answer e db m d" unfolding r by (rule get_outcome [OF Cons.prems(1) m(1,5,3) Cons.prems(2) [OF m(1,2)]])
  moreover have "flow_ok ms (snd ?r)" unfolding r by (rule get_ok [OF Cons.prems(1) m(1,5)])
  moreover have "coherent e db m' d' (snd ?r)" if "m' \<in> set ms" "plain d'" for m' d'
    unfolding r by (rule get_coherent [OF Cons.prems(1) m(1,5,3,2) Cons.prems(2) [OF that] that(2)])
  ultimately show ?case using Cons.IH [of "snd ?r"] Cons.prems(3) by (simp add: md Let_def)
qed simp

text \<open>
  C38: after any run of packets, refreshes, removals and timer passes, and whatever the settings and the
  database were in between, the flow tables are consistent: every entry of the pool is free or linked
  exactly once, every flow is in the bucket of its group, and no two flows have the same key.  If no
  bridges are combined, no walk over a bucket comes to an entry that has been freed.
\<close>
theorem igmp_flows_consistent:
  assumes "distinct ms" "list_all (flow_event_ok ms) evs"
  shows "flow_ok ms (fold flow_step evs flow_init) \<and>
    (list_all (\<lambda>ev. uncombined (fst ev)) evs \<longrightarrow> \<not> freedVisit (fold flow_step evs flow_init))"
proof -
  have "flow_ok ms (fold flow_step evs flow_init)" by (rule flow_runs.run_inv [OF assms(2) flow_ok_init [OF assms(1)]])
  moreover have "\<not> freedVisit (fold flow_step evs flow_init)" if "list_all (\<lambda>ev. uncombined (fst ev)) evs"
    using flow_walks.run_inv [of ms evs flow_init] assms(2) that flow_ok_init [OF assms(1)] by (simp add: list_all_iff flow_init_def)
  ultimately show ?thesis by blast
qed

text \<open>
  A bridge with two devices, one with a member, and the flow of a server that was flooded before the
  member joined.
\<close>

definition demo_fwd :: fwd_env where
  "demo_fwd = \<lparr>fResv = [], fModules = [0], combineId = (\<lambda>_. 0), port_list = (\<lambda>_. [3, 4]), fConf = (\<lambda>d v. demo_conf (if d = 4 then 3 else d) v), umcRate = (\<lambda>_ _. 0), devList = [3],
     unknownFlood = True, wlanTrap = (\<lambda>_ _. None), floodFlowDelete = (\<lambda>_. True), IGMP_MAX_DEV_NUM = 8, umc_cycle = 100, fJiffies = 0\<rparr>"

definition demo_data :: "addr \<Rightarrow> data_info" where
  "demo_data ga = \<lparr>dIpVersion = IP_VERSION4, sourceIp = Addr 99 0 0 0, dGroupAddr = ga, dSport = 1, dDport = 2, vlanTag = None, svlanTag = None,
     dL4proto = 17, skipLearning = False, dummyPkt = False\<rparr>"

definition demo_flows :: "(fwd_env \<times> igmpdb \<times> flow_event) list" where
  "demo_flows = [(demo_fwd, igmpdb_init, DataPacket 0 True (demo_data demo_group))]"

theorem igmp_flows_consistent_witness:
  "flow_ok [0] (fold flow_step demo_flows flow_init) \<and> \<not> freedVisit (fold flow_step demo_flows flow_init) \<and>
   flow_free (fold flow_step demo_flows flow_init) = 511"
proof -
  have "list_all (flow_event_ok [0]) demo_flows" "list_all (\<lambda>ev. uncombined (fst ev)) demo_flows"
    by (simp_all add: demo_flows_def flow_event_ok_def uncombined_def demo_fwd_def)
  moreover have "flow_free (fold flow_step demo_flows flow_init) = 511" by code_simp
  ultimately show ?thesis using igmp_flows_consistent [of "[0]" demo_flows] by simp
qed

text \<open>
  C39: the flow cache is transparent.  After any run, a refresh of all flows makes every following packet
  go where the database sends it: to the members of its group, or for an unknown group to the
  flooded ports, with and without the cache, until the database or the settings change.  This holds
  for bridges that are not combined and without rate limits on flooded groups.
\<close>
theorem igmp_cache_transparent:
  assumes "distinct ms" "list_all (flow_event_ok ms) evs" "fModules e = ms"
    and "list_all (\<lambda>m. unlimited e m \<and> combineId e m = 0) ms" "list_all (\<lambda>(m, d). m \<in> set ms \<and> plain d) ps"
  shows "serve e db cache ps (rtk_igmp_flow_reflush_update e db None None (fold flow_step evs flow_init)) =
    map (\<lambda>(m, d). data_answer e db m d) ps"
proof -
  have ok: "flow_ok ms (fold flow_step evs flow_init)" by (rule flow_runs.run_inv [OF assms(2) flow_ok_init [OF assms(1)]])
  show ?thesis
    by (rule serve_coherent [OF assms(3,4) reflush_ok [OF ok] reflush_coherent [OF ok assms(3,4)] assms(5)]) (simp add: assms(3))
qed

theorem igmp_cache_transparent_witness:
  "serve demo_fwd demo_db True [(0, demo_data demo_group), (0, demo_data (Addr 0xE1020304 0 0 0))]
     (rtk_igmp_flow_reflush_update demo_fwd demo_db None None (fold flow_step demo_flows flow_init)) =
   [(True, [3], False), (True, [3, 4], False)]"
proof -
  have "list_all (flow_event_ok [0]) demo_flows" "fModules demo_fwd = [0]" "list_all (\<lambda>m. unlimited demo_fwd m \<and> combineId demo_fwd m = 0) [0]"
    by (simp_all add: demo_flows_def flow_event_ok_def unlimited_def demo_fwd_def)
  moreover have "plain (demo_data demo_group)" "plain (demo_data (Addr 0xE1020304 0 0 0))"
    by (simp_all add: plain_def demo_data_def demo_group_def norm_addr_def)
  moreover have "data_answer demo_fwd demo_db 0 (demo_data demo_group) = (True, [3], False)" by code_simp
  moreover have "data_answer demo_fwd demo_db 0 (demo_data (Addr 0xE1020304 0 0 0)) = (True, [3, 4], False)" by code_simp
  ultimately show ?thesis
    using igmp_cache_transparent [of "[0]" demo_flows demo_fwd "[(0, demo_data demo_group), (0, demo_data (Addr 0xE1020304 0 0 0))]" demo_db True]
    by simp
qed

end
