(* ===== verification/Spec2Isabelle.thy ===== *)
theory Spec2Isabelle
  imports Spinand_Read Boot_Leds Watchdog_Regs Dns_Props Mempool_Props Timer Gpio_Props Igmp_Records Igmp_Cache
begin

text \<open>
  Verification library for PhoebusBSP-7, the Linux board support for the Realtek RTL9607C.

  \<^bold>\<open>The program.\<close>  The repository is an overlay over the kernel sources.  The parts modelled here are
  the drivers that have state and logic of their own: the SPI-NAND driver, the board setup with the
  temperature sensor and the boot LEDs, the watchdog, the system timers and the GPIO controller, and
  on the network side the DNS trap, the packet buffer pools and the multicast snooping.  The drivers
  do not call each other; they meet at the kernel and at the hardware.  Only the parts of the
  multicast snooping build on each other: a packet passes the black list and the rate limit, then
  the reserved groups, the limits and the white list, before it changes the database, which the
  timer ages and from which data packets are forwarded.

  \<^bold>\<open>Conventions.\<close>  Machine integers are words of their width, counters that cannot wrap are \<open>nat\<close> or
  \<open>int\<close>.  A C struct is a record, a linked list the list of its entries, head first.  A routine on
  hardware is a value of the state monad over a record that extends \<open>bus\<close>, the history of register
  accesses; the device answers a read as an arbitrary function of that history, so the theorems hold
  for every behaviour of the hardware unless a hypothesis restricts it.  Errors are values:
  \<open>errno + 'a\<close> for error returns, \<open>fault + 'a\<close> where the C code would access invalid memory.  Kernel
  and SDK functions are fields of an environment record (\<open>nand_env\<close>, \<open>wdt_env\<close>, \<open>dns_env\<close>,
  \<open>mem_env\<close>, \<open>timer_env\<close>, \<open>gpio_env\<close>, \<open>hook_env\<close>) with what the code relies on as hypotheses.  Code
  under a lock is atomic; interleaving is the order of the events of a run.

  \<^bold>\<open>Bsp_Prelude.\<close>  Word types, error numbers, the bus, a Hoare calculus (\<open>keeps\<close> and its rules in named
  collections), list lemmas, and the locale \<open>event_system\<close>: an invariant of every step of a system is
  one of every run.  Each stateful component interprets it on its own step function.

  \<^bold>\<open>Spinand, Spinand_Inv, Spinand_Read\<close> model \<open>drivers/mtd/rtl9607c-spinand-ro.c\<close>.  The state is
  \<open>phoebus_nand\<close>; the operations have the names of the C functions (\<open>sn_wait\<close> to \<open>sn_page\<close>,
  \<open>bch_decode\<close>, \<open>nand_read_oob\<close>, \<open>nand_isbad\<close>, \<open>phoebus_nand_probe\<close>).  \<open>Spinand_Inv\<close> has what holds
  for every controller, with the locale \<open>nand_frame\<close> for invariants that ignore the buffer;
  \<open>Spinand_Read\<close> the meaning of a read.  C1 to C7: only read commands reach the chip, a raw read
  returns the stored bytes, a timeout poisons the driver and a poisoned driver is silent, a read that
  succeeds is complete, erased sectors, and bad blocks.  The polling loops run
  for as many status reads as fit into the deadline, a parameter without restriction.

  \<^bold>\<open>Platform\<close> models \<open>arch/mips/rtl9607c/setup.c\<close> and \<open>hwmon.c\<close>, \<open>Boot_Leds\<close> models \<open>leds-boot.c\<close> with an
  inductive step relation for the work item, the sysfs files and the removal.  C12 to C16: the reboot
  reason reads back after a restart, the memory regions avoid the I/O window, the sensor arithmetic is exact, the LED
  phases are safe under every interleaving and end.

  \<^bold>\<open>Watchdog, Watchdog_Props, Watchdog_Regs\<close> model \<open>arch/mips/rtl9607c/luna_watchdog.c\<close>: the thread
  table, a turn of each thread as one event, the proc files, the deadlock self-test, load and unload.  C8 to C11: a hung CPU
  stops the kicks, live CPUs are kicked for, the threads follow the flag, and the programmed timeout
  decodes to itself.

  \<^bold>\<open>Timer\<close> models \<open>arch/mips/rtl9607c/cevt-ext.c\<close>.  \<open>rtk_cevt_next_event\<close> retries until the counter
  starts and is a partial function; C25 shows that it returns when the hardware starts within some
  number of attempts.  C26: every CPU has a timer block of its own.

  \<^bold>\<open>Gpio, Gpio_Props\<close> model \<open>drivers/gpio/gpio-rtk-soc.c\<close>: C27 to C29, each line is an interrupt source
  of its own, the handler serves each pending line once, the banks are disjoint.

  \<^bold>\<open>Dns_Trap, Dns_Props\<close> model \<open>drivers/net/ethernet/realtek/rtk_dns_trap.c\<close> on lists of bytes: C17 to
  C20, no faults, parsing inverts the wire format, the answer is correct,
  and other packets are untouched.

  \<^bold>\<open>Mempool, Mempool_Props\<close> model \<open>drivers/net/ethernet/realtek/rtk_mempool.c\<close>: C21 to C24.  The locale
  \<open>allocator\<close> is the contract of the buffer handout, interpreted on the pools.

  \<^bold>\<open>Igmp_*\<close> model \<open>drivers/net/ethernet/realtek/rtl86900/igmpHookModule/rtk_igmp_snooping.c\<close>.
  \<^item> \<open>Igmp_Data\<close>: group, client and source entries, the hash tables and pools (\<open>igmpdb\<close>), and the
    operations on the lists.
  \<^item> \<open>Igmp_Rules\<close>, \<open>Igmp_Rules_Props\<close>: the tables of the white and the black list, with additions,
    deletions and the side-by-side walk of a check.  C30 and C31: the tables stay consistent, and the
    walk finds the same as looking at every rule.
  \<^item> \<open>Igmp_Limit\<close>: reserved groups, limits, weights, and \<open>admit\<close>, the checks of every report.
  \<^item> \<open>Igmp\<close>: joins, leaves, the six record types and the loop over the records of a report, which reads
    the memory behind the header.
  \<^item> \<open>Igmp_Hook\<close>: the packet hook \<open>rtk_igmp_mld_process\<close>, the system timer, the removal of a device,
    the flush of a bridge and the forwarding decision.
  \<^item> \<open>Igmp_Inv\<close>, \<open>Igmp_Tick\<close>: the invariant of the database and that every operation keeps it.  The
    locales \<open>client_handler\<close> and \<open>record_handler\<close> are the contract between the frame of a report and
    the part that works on the sources; each report type interprets them.
  \<^item> \<open>Igmp_Props\<close>: runs of events and the entry of a client.  \<open>Igmp_Traffic\<close>: C32 to C35, the database is
    consistent after any run, a join is served, a leave stops the data, and a pass of the timer is
    its specification.
  \<^item> \<open>Igmp_Bounds\<close>: C37, the limits on the groups hold over any run.
  \<^item> \<open>Igmp_Records\<close>: C36, the records against the tables of RFC 3376 and RFC 3810.  The locale
    \<open>source_step\<close> is the loop over the sources of a record.  TO_EX and BLOCK are not among them: the
    loops of the code do not advance over all sources, as the definitions show.
  \<^item> \<open>Igmp_Flow\<close>: the data path and the flow cache: search, recording, recycling, aging, removal, the
    refresh, and the calls to the hardware.  \<open>Igmp_Flow_Props\<close>: the invariant of the tables, and the
    cache as a map from packets to answers, on which recording a flow is an update.  \<open>Igmp_Cache\<close>: C38,
    the tables are consistent after any run, and C39, after a refresh the cache is transparent.
  \<^item> This theory: C40, the white list and the database together.

  \<^bold>\<open>Bounds.\<close>  Loops over lists and packet contents are recursive functions that terminate.  The loop
  over the records of a report runs at most as often as the report has records.  The theorems about
  remaining times (C33, C36) assume that the seconds since the start do not wrap within one interval.

  \<^bold>\<open>Not modelled.\<close>  In the modelled files: proc reports, log messages, delays and locks; of the multicast
  snooping the hardware behind the callbacks (the calls are recorded), queries, the registration of devices, and the user commands that
  change the weights and the reserved groups, which are parameters of a run like the other settings.
  Other files: the PCIe, USB, switch, network, conntrack and wireless drivers are single changed files
  of vendor code whose types and register descriptions are in a submodule that is not part of the
  repository, or sequences of register writes whose effect only the hardware defines; the socket
  buffers, caches and coherence manager are mainline kernel code; scripts and tools are input and
  output.
\<close>

section \<open>White list and snooping together\<close>

lemma admit_white:
  assumes "\<not> rtk_igmp_filterWhiteListCheck (whiteList pol) (devIfindex p) (pver p) v3 ga (saddr p) src (smac p)"
  obtains r db' where "admit pol p v3 ga src db = (Some r, db')" "only_stats db db'"
  using assms admit_frame [of db pol p v3 ga src]
  by (cases "admit pol p v3 ga src db") (auto simp: admit_def Let_def split: if_splits prod.splits)

lemma learn_white:
  "\<not> rtk_igmp_filterWhiteListCheck (whiteList pol) (devIfindex p) (pver p) True ga (saddr p) src (smac p) \<Longrightarrow>
   only_stats db (snd (learn pol p ga src body db))"
  by (erule admit_white [of pol p True ga src db]) (simp add: learn_def)

lemma rules_outside:
  assumes "distinct ds" "idxs (white_run ds ops) d v \<noteq> []"
    and "list_all (\<lambda>e. ruleIdx e \<in> set (idxs (white_run ds ops) d v) \<longrightarrow>
      gipChk (patten e) \<and> \<not> in_range v (wlGroupIpStart (patten e)) (wlGroupIpEnd (patten e)) ga) (ruleList (white_run ds ops))"
  shows "\<not> rtk_igmp_filterWhiteListCheck (white_run ds ops) d v v3 ga ca src mac"
  using assms(2,3) unfolding rtk_igmp_filterWhiteListCheck_def rules_scan [OF white_run_ok [OF assms(1)]]
  by (auto simp: white_hit_def list_all_iff)

text \<open>
  C40: on a device with a white list, in any state the rule commands can produce, a join or a record
  for a group that lies in none of the group ranges of the device's rules is not learnt: the
  database stays as it is, except for the counters.
\<close>
theorem unlisted_group_not_learnt:
  assumes "distinct ds" "whiteList pol = white_run ds ops" "idxs (white_run ds ops) (devIfindex p) (pver p) \<noteq> []"
    and "list_all (\<lambda>e. ruleIdx e \<in> set (idxs (white_run ds ops) (devIfindex p) (pver p)) \<longrightarrow>
      gipChk (patten e) \<and> \<not> in_range (pver p) (wlGroupIpStart (patten e)) (wlGroupIpEnd (patten e)) ga) (ruleList (white_run ds ops))"
  shows "(join_group p t a = ga \<longrightarrow> only_stats db (snd (rtk_igmp_processJoin pol p t a db))) \<and>
     (rgroup r = ga \<longrightarrow> only_stats db (snd (process_record pol p ret0 r db)))"
proof -
  have no: "\<not> rtk_igmp_filterWhiteListCheck (whiteList pol) (devIfindex p) (pver p) v3 ga (saddr p) src (smac p)" for v3 src
    unfolding assms(2) by (rule rules_outside [OF assms(1,3,4)])
  have "only_stats db (snd (rtk_igmp_processJoin pol p t a db))" if "join_group p t a = ga"
    by (rule admit_white [OF no, of False None db]) (simp add: rtk_igmp_processJoin_def that)
  moreover have "only_stats db (snd (process_record pol p ret0 r db))" if "rgroup r = ga"
  proof -
    have "only_stats db (snd (rtk_igmp_processBlock pol p r db))"
      by (rule admit_white [OF no, of True None db]) (simp add: rtk_igmp_processBlock_def that)
    then show ?thesis using learn_white [OF no] that only_stats_refl
      by (simp add: process_record_def rtk_igmp_processIsInclude_def rtk_igmp_processIsExclude_def rtk_igmp_processToInclude_def
        rtk_igmp_processToExclude_def rtk_igmp_processAllow_def)
  qed
  ultimately show ?thesis by blast
qed

theorem unlisted_group_not_learnt_witness:
  "only_stats igmpdb_init (snd (rtk_igmp_processJoin (demo_policy\<lparr>whiteList := white_run [3, 4] demo_ops\<rparr>) (demo_pkt 7) 0x16 demo_group igmpdb_init))"
proof -
  have "distinct [3, 4 :: u32]" "idxs (white_run [3, 4] demo_ops) (devIfindex (demo_pkt 7)) (pver (demo_pkt 7)) \<noteq> []"
    "list_all (\<lambda>e. ruleIdx e \<in> set (idxs (white_run [3, 4] demo_ops) (devIfindex (demo_pkt 7)) (pver (demo_pkt 7))) \<longrightarrow>
      gipChk (patten e) \<and> \<not> in_range (pver (demo_pkt 7)) (wlGroupIpStart (patten e)) (wlGroupIpEnd (patten e)) demo_group) (ruleList (white_run [3, 4] demo_ops))"
    "join_group (demo_pkt 7) 0x16 demo_group = demo_group"
    by code_simp+
  then show ?thesis
    using unlisted_group_not_learnt [of "[3, 4]" "demo_policy\<lparr>whiteList := white_run [3, 4] demo_ops\<rparr>" demo_ops "demo_pkt 7" demo_group] by simp
qed

end
